theory Spec2Isabelle
  imports Complex_Main
begin

section \<open>Data model\<close>

text \<open>
  A canonical edge type is the triple (source category, relation name, destination
  category); the source reads its components as \<^verbatim>\<open>etype[0]\<close> and \<^verbatim>\<open>etype[2]\<close>.
  A metapath is an ordered sequence of canonical edge types.
\<close>

type_synonym etype = "string \<times> string \<times> string"
type_synonym metapath = "etype list"

fun et_src :: "etype \<Rightarrow> string" where
  "et_src (s, r, d) = s"

fun et_dst :: "etype \<Rightarrow> string" where
  "et_dst (s, r, d) = d"

text \<open>
  Exceptions are values. \<open>IndexError\<close> and \<open>KeyError\<close> are Python's own (a list index out
  of range, a missing dictionary key), \<open>RuntimeError\<close> is what the tensor runtime raises
  and \<open>DGLError\<close> what the graph library raises; \<open>ValueError\<close> and \<open>ZeroDivisionError\<close>
  are what the constructor of a convolution module raises for arguments it refuses.
\<close>

datatype error =
  IndexError | KeyError | RuntimeError | DGLError | ValueError | ZeroDivisionError

text \<open>
  A tensor is its shape together with its elements in row-major order. The element type
  stays a parameter: nothing proved here depends on floating-point arithmetic.
\<close>

record 'a tensor =
  shape :: "nat list"
  data :: "'a list"

text \<open>
  The heterogeneous graph, as far as the source reads it. \<open>ident\<close> is the identity of the
  Python object (what \<^verbatim>\<open>is\<close> compares): two records with the same \<open>ident\<close> are the same
  object, possibly observed at two moments with different contents; two records with
  different \<open>ident\<close> are two objects, whatever they hold. \<open>ndata\<close> is the node feature
  storage \<^verbatim>\<open>g.nodes[ntype].data[key]\<close>.
\<close>

record 'a hetero_graph =
  ident :: nat
  canonical_etypes :: "etype list"
  num_nodes_of :: "string \<rightharpoonup> nat"
  ndata :: "string \<rightharpoonup> (string \<rightharpoonup> 'a tensor)"
  hedges :: "etype \<rightharpoonup> (nat \<times> nat) list"

text \<open>The metapath-projected graph over the nodes of the target category.\<close>

record homo_graph =
  num_nodes :: nat
  edges :: "(nat \<times> nat) list"

subsection \<open>Sub-modules of the libraries\<close>

text \<open>
  A sub-module is the record of the arguments it was constructed with, and a number
  that stands for the module object and the parameters it learns: two modules created
  by two constructor calls are two objects, even with equal arguments.
\<close>

datatype activation = F_elu | No_activation

record GATConv =
  gat_id :: nat
  in_feats :: nat
  out_feats :: nat
  gat_num_heads :: nat
  feat_drop :: real
  attn_drop :: real
  activation :: activation
  allow_zero_in_degree :: bool

text \<open>
  The constructor call \<^verbatim>\<open>GATConv(in_feats, out_feats, num_heads, feat_drop, attn_drop,
  activation=..., allow_zero_in_degree=...)\<close> of the graph library. It raises on arguments
  it refuses: its dropout sub-modules raise \<open>ValueError\<close> for a probability outside
  \<open>[0, 1]\<close>, and the initialisation of its attention vectors divides by their fan, which
  is zero for \<open>out_feats = 0\<close> (\<open>ZeroDivisionError\<close>). What else the library's constructor
  may raise, for which arguments, is the parameter \<open>lib\<close>: \<open>None\<close> when it raises nothing.
  The first argument after \<open>lib\<close> is the number of the new module object.
\<close>

type_synonym gat_ctor = "nat \<Rightarrow> nat \<Rightarrow> nat \<Rightarrow> real \<Rightarrow> real \<Rightarrow> error option"

definition GATConv_init ::
  "gat_ctor \<Rightarrow> nat \<Rightarrow> nat \<Rightarrow> nat \<Rightarrow> nat \<Rightarrow> real \<Rightarrow> real \<Rightarrow> activation \<Rightarrow> bool \<Rightarrow>
     error + GATConv" where
  "GATConv_init lib i in_f out_f heads fd ad act allow =
     (if fd < 0 \<or> 1 < fd \<or> ad < 0 \<or> 1 < ad then Inl ValueError
      else if out_f = 0 then Inl ZeroDivisionError
      else (case lib in_f out_f heads fd ad of
              Some e \<Rightarrow> Inl e
            | None \<Rightarrow>
                Inr \<lparr>gat_id = i, in_feats = in_f, out_feats = out_f, gat_num_heads = heads,
                     feat_drop = fd, attn_drop = ad, activation = act,
                     allow_zero_in_degree = allow\<rparr>))"

record SemanticAttention =
  sa_id :: nat
  sa_in_size :: nat

record Linear =
  lin_id :: nat
  in_features :: nat
  out_features :: nat

text \<open>
  The operations that the source calls and does not define: the metapath projection
  \<^verbatim>\<open>dgl.metapath_reachable_graph\<close>, and the forward passes of \<^verbatim>\<open>GATConv\<close>,
  \<^verbatim>\<open>SemanticAttention\<close> and \<^verbatim>\<open>nn.Linear\<close>. They are parameters of the model; each may
  raise. They are functions of the module and of their inputs (the random state of
  dropout is taken to be part of the module).
\<close>

record 'a ops =
  metapath_reachable_graph :: "'a hetero_graph \<Rightarrow> metapath \<Rightarrow> error + homo_graph"
  GATConv_forward :: "GATConv \<Rightarrow> homo_graph \<Rightarrow> 'a tensor \<Rightarrow> error + 'a tensor"
  SemanticAttention_forward :: "SemanticAttention \<Rightarrow> 'a tensor \<Rightarrow> error + 'a tensor"
  Linear_forward :: "Linear \<Rightarrow> 'a tensor \<Rightarrow> error + 'a tensor"

subsection \<open>The two tensor operations of \<^verbatim>\<open>HANLayer.forward\<close>\<close>

text \<open>
  \<^verbatim>\<open>t.flatten(1)\<close> merges every axis from the second on into one and moves no element;
  a tensor with fewer than two axes has no axis 1.
\<close>

definition torch_flatten1 :: "'a tensor \<Rightarrow> error + 'a tensor" where
  "torch_flatten1 t =
     (case shape t of
        n # d # rest \<Rightarrow> Inr \<lparr>shape = [n, prod_list (d # rest)], data = data t\<rparr>
      | _ \<Rightarrow> Inl IndexError)"

text \<open>Row \<open>r\<close> of a tensor whose rows hold \<open>w\<close> elements each.\<close>

definition row :: "nat \<Rightarrow> nat \<Rightarrow> 'a tensor \<Rightarrow> 'a list" where
  "row w r t = take w (drop (r * w) (data t))"

text \<open>
  \<^verbatim>\<open>torch.stack(ts, dim=1)\<close>: the list must not be empty and its tensors must have one
  shape \<open>n # rest\<close>; the result has shape \<open>n # length ts # rest\<close>, and its row \<open>r\<close> is row
  \<open>r\<close> of the first tensor, then row \<open>r\<close> of the second, and so on.
\<close>

definition torch_stack1 :: "'a tensor list \<Rightarrow> error + 'a tensor" where
  "torch_stack1 ts =
     (case ts of
        [] \<Rightarrow> Inl RuntimeError
      | t # _ \<Rightarrow>
          if \<not> list_all (\<lambda>u. shape u = shape t) ts then Inl RuntimeError
          else (case shape t of
                  [] \<Rightarrow> Inl IndexError
                | n # rest \<Rightarrow>
                    Inr \<lparr>shape = n # length ts # rest,
                         data = concat (map (\<lambda>r. concat (map (row (prod_list rest) r) ts))
                                   [0..<n])\<rparr>))"

text \<open>
  An observation used to state where the stack puts its arguments:
  \<^verbatim>\<open>z[:, m]\<close>, the sub-tensor at index \<open>m\<close> of axis 1.
\<close>

definition select1 :: "'a tensor \<Rightarrow> nat \<Rightarrow> 'a tensor" where
  "select1 z m =
     (case shape z of
        n # k # rest \<Rightarrow>
          \<lparr>shape = n # rest,
           data = concat (map (\<lambda>r. take (prod_list rest)
                                   (drop ((r * k + m) * prod_list rest) (data z))) [0..<n])\<rparr>
      | _ \<Rightarrow> z)"

definition wf_tensor :: "'a tensor \<Rightarrow> bool" where
  "wf_tensor t = (length (data t) = prod_list (shape t))"

section \<open>The layer (\<^verbatim>\<open>class HANLayer\<close>)\<close>

record HANLayer =
  gat_layers :: "GATConv list"
  semantic_attention :: SemanticAttention
  meta_paths :: "metapath list"
  cached_graph :: "nat option"
  cached_coalesced_graph :: "metapath \<rightharpoonup> homo_graph"

text \<open>
  Lines 88-92: the loop \<^verbatim>\<open>for i in range(len(meta_paths))\<close> that appends one \<^verbatim>\<open>GATConv\<close>
  per index to \<^verbatim>\<open>self.gat_layers\<close> (the last argument); a constructor call that raises
  ends it. \<open>k\<close> is the number of module objects created before the loop.
\<close>

fun gat_layers_loop ::
  "gat_ctor \<Rightarrow> nat \<Rightarrow> nat \<Rightarrow> nat \<Rightarrow> nat \<Rightarrow> real \<Rightarrow> nat list \<Rightarrow> GATConv list \<Rightarrow>
     error + GATConv list" where
  "gat_layers_loop lib k in_size out_size layer_num_heads dropout [] modules =
     Inr modules"
| "gat_layers_loop lib k in_size out_size layer_num_heads dropout (i # rest) modules =
     (case GATConv_init lib (k + i) in_size out_size layer_num_heads dropout dropout F_elu
             True of
        Inl e \<Rightarrow> Inl e
      | Inr m \<Rightarrow>
          gat_layers_loop lib k in_size out_size layer_num_heads dropout rest
            (modules @ [m]))"

text \<open>
  \<^verbatim>\<open>HANLayer.__init__\<close> (lines 84-97). \<open>k\<close> is the number of module objects created so
  far; the result carries the count after this constructor. \<open>cached_graph\<close> holds the
  identity of the graph that \<^verbatim>\<open>_cached_graph\<close> refers to, \<open>None\<close> for Python's \<^verbatim>\<open>None\<close>. The
  metapaths are stored as a new list of tuples: the same sequences.
\<close>

definition HANLayer_init ::
  "gat_ctor \<Rightarrow> nat \<Rightarrow> metapath list \<Rightarrow> nat \<Rightarrow> nat \<Rightarrow> nat \<Rightarrow> real \<Rightarrow>
     error + HANLayer \<times> nat" where
  "HANLayer_init lib k mps in_size out_size layer_num_heads dropout =
     (case gat_layers_loop lib k in_size out_size layer_num_heads dropout [0..<length mps] [] of
        Inl e \<Rightarrow> Inl e
      | Inr gl \<Rightarrow>
          Inr (\<lparr>gat_layers = gl,
                semantic_attention =
                  \<lparr>sa_id = k + length mps, sa_in_size = out_size * layer_num_heads\<rparr>,
                meta_paths = mps,
                cached_graph = None,
                cached_coalesced_graph = Map.empty\<rparr>,
               k + length mps + 1))"

text \<open>
  The projection calls a forward pass makes, in order: the identity of the graph and
  the metapath of each call of \<^verbatim>\<open>dgl.metapath_reachable_graph\<close>.
\<close>

type_synonym trace = "(nat \<times> metapath) list"

text \<open>
  Lines 105-107: the loop that fills the cache. A projection that raises ends the loop;
  the entries stored before it stay in the dictionary.
\<close>

fun project_all ::
  "'a ops \<Rightarrow> 'a hetero_graph \<Rightarrow> metapath list \<Rightarrow> (metapath \<rightharpoonup> homo_graph) \<Rightarrow>
     (metapath \<rightharpoonup> homo_graph) \<times> trace \<times> error option" where
  "project_all ops g [] c = (c, [], None)"
| "project_all ops g (meta_path # rest) c =
     (case metapath_reachable_graph ops g meta_path of
        Inl e \<Rightarrow> (c, [(ident g, meta_path)], Some e)
      | Inr sg \<Rightarrow>
          (case project_all ops g rest (c(meta_path \<mapsto> sg)) of
             (c', tr, r) \<Rightarrow> (c', (ident g, meta_path) # tr, r)))"

text \<open>Lines 102-107: the identity test, and the refill of the cache when it fails.\<close>

definition refresh_cache ::
  "'a ops \<Rightarrow> HANLayer \<Rightarrow> 'a hetero_graph \<Rightarrow> HANLayer \<times> trace \<times> error option" where
  "refresh_cache ops L g =
     (if cached_graph L = None \<or> cached_graph L \<noteq> Some (ident g)
      then (case project_all ops g (meta_paths L) Map.empty of
              (c, tr, r) \<Rightarrow>
                (L\<lparr>cached_graph := Some (ident g), cached_coalesced_graph := c\<rparr>, tr, r))
      else (L, [], None))"

text \<open>\<^verbatim>\<open>enumerate(xs)\<close>.\<close>

definition enumerate_list :: "'b list \<Rightarrow> (nat \<times> 'b) list" where
  "enumerate_list xs = zip [0..<length xs] xs"

text \<open>
  Lines 110-111, the body of the loop for the index \<open>i\<close> and the metapath \<open>meta_path\<close>:
  the branch's flattened embedding. The dictionary lookup raises \<open>KeyError\<close> on a missing
  key and the module list raises \<open>IndexError\<close> on an index out of range.
\<close>

definition HANLayer_branch ::
  "'a ops \<Rightarrow> HANLayer \<Rightarrow> 'a tensor \<Rightarrow> nat \<Rightarrow> metapath \<Rightarrow> error + 'a tensor" where
  "HANLayer_branch ops L h i meta_path =
     (case cached_coalesced_graph L meta_path of
        None \<Rightarrow> Inl KeyError
      | Some new_g \<Rightarrow>
          if length (gat_layers L) \<le> i then Inl IndexError
          else (case GATConv_forward ops (gat_layers L ! i) new_g h of
                  Inl e \<Rightarrow> Inl e
                | Inr y \<Rightarrow> torch_flatten1 y))"

text \<open>
  Lines 109-111: the loop over \<^verbatim>\<open>enumerate(self.meta_paths)\<close>; the last argument is the
  list \<^verbatim>\<open>semantic_embeddings\<close>, extended at its end.
\<close>

fun run_branches ::
  "'a ops \<Rightarrow> HANLayer \<Rightarrow> 'a tensor \<Rightarrow> (nat \<times> metapath) list \<Rightarrow> 'a tensor list \<Rightarrow>
     error + 'a tensor list" where
  "run_branches ops L h [] semantic_embeddings = Inr semantic_embeddings"
| "run_branches ops L h ((i, meta_path) # rest) semantic_embeddings =
     (case HANLayer_branch ops L h i meta_path of
        Inl e \<Rightarrow> Inl e
      | Inr z \<Rightarrow> run_branches ops L h rest (semantic_embeddings @ [z]))"

text \<open>
  \<^verbatim>\<open>HANLayer.forward\<close> (lines 99-114): the layer after the call, the projection calls
  made, and the returned tensor or the exception. The cache is written before the
  branches run, so it keeps its new contents when a later step raises.
\<close>

definition HANLayer_forward ::
  "'a ops \<Rightarrow> HANLayer \<Rightarrow> 'a hetero_graph \<Rightarrow> 'a tensor \<Rightarrow>
     HANLayer \<times> trace \<times> (error + 'a tensor)" where
  "HANLayer_forward ops L g h =
     (case refresh_cache ops L g of
        (L1, tr, Some e) \<Rightarrow> (L1, tr, Inl e)
      | (L1, tr, None) \<Rightarrow>
          (case run_branches ops L1 h (enumerate_list (meta_paths L1)) [] of
             Inl e \<Rightarrow> (L1, tr, Inl e)
           | Inr semantic_embeddings \<Rightarrow>
               (case torch_stack1 semantic_embeddings of
                  Inl e \<Rightarrow> (L1, tr, Inl e)
                | Inr stacked \<Rightarrow>
                    (L1, tr, SemanticAttention_forward ops (semantic_attention L1) stacked))))"

section \<open>The model (\<^verbatim>\<open>class HAN\<close>)\<close>

record HAN =
  category :: string
  layers :: "HANLayer list"
  linear :: Linear

text \<open>
  \<^verbatim>\<open>HAN.__init__\<close>, lines 49-51: the loop \<^verbatim>\<open>for l in range(1, len(num_heads))\<close>, over the
  layers built so far and the count of module objects.
\<close>

fun HAN_init_loop ::
  "gat_ctor \<Rightarrow> metapath list \<Rightarrow> nat \<Rightarrow> nat list \<Rightarrow> real \<Rightarrow> nat list \<Rightarrow>
     HANLayer list \<times> nat \<Rightarrow> error + HANLayer list \<times> nat" where
  "HAN_init_loop lib mps hidden_size num_heads dropout [] (ls, k) = Inr (ls, k)"
| "HAN_init_loop lib mps hidden_size num_heads dropout (l # rest) (ls, k) =
     (case HANLayer_init lib k mps (hidden_size * num_heads ! (l - 1)) hidden_size
             (num_heads ! l) dropout of
        Inl e \<Rightarrow> Inl e
      | Inr (L, k') \<Rightarrow>
          HAN_init_loop lib mps hidden_size num_heads dropout rest (ls @ [L], k'))"

text \<open>
  \<^verbatim>\<open>HAN.__init__\<close> (lines 44-52). \<^verbatim>\<open>num_heads[0]\<close> raises \<open>IndexError\<close> on an empty list; a
  layer constructor that raises ends the construction. Widths and head counts are
  natural numbers: they are sizes of tensors.
\<close>

definition HAN_init ::
  "gat_ctor \<Rightarrow> nat \<Rightarrow> metapath list \<Rightarrow> string \<Rightarrow> nat \<Rightarrow> nat \<Rightarrow> nat \<Rightarrow> nat list \<Rightarrow> real \<Rightarrow>
     error + HAN" where
  "HAN_init lib k mps cat in_size hidden_size out_size num_heads dropout =
     (if num_heads = [] then Inl IndexError
      else
        (case HANLayer_init lib k mps in_size hidden_size (num_heads ! 0) dropout of
           Inl e \<Rightarrow> Inl e
         | Inr (L0, k0) \<Rightarrow>
             (case HAN_init_loop lib mps hidden_size num_heads dropout [1..<length num_heads]
                     ([L0], k0) of
                Inl e \<Rightarrow> Inl e
              | Inr (ls, k1) \<Rightarrow>
                  Inr \<lparr>category = cat, layers = ls,
                       linear = \<lparr>lin_id = k1, in_features = hidden_size * last num_heads,
                                 out_features = out_size\<rparr>\<rparr>)))"

subsection \<open>Metapath enumeration (\<^verbatim>\<open>HAN.build_model_from_args\<close>, lines 29-36)\<close>

text \<open>
  The inner loop \<^verbatim>\<open>for dst_e in etypes\<close> for a fixed first hop \<^verbatim>\<open>etype\<close>; the list
  \<^verbatim>\<open>mps\<close> is the accumulator that \<^verbatim>\<open>mps.append\<close> extends at its end.
\<close>

fun mps_inner :: "etype \<Rightarrow> etype list \<Rightarrow> metapath list \<Rightarrow> metapath list" where
  "mps_inner etype [] mps = mps"
| "mps_inner etype (dst_e # rest) mps =
     mps_inner etype rest
       (if et_src etype = et_dst dst_e \<and> et_dst etype = et_src dst_e
        then (if et_src etype \<noteq> et_dst etype then mps @ [[etype, dst_e]] else mps)
        else mps)"

text \<open>
  The outer loop \<^verbatim>\<open>for etype in etypes\<close>; the first argument is \<^verbatim>\<open>args.category\<close>, the
  second the whole list \<^verbatim>\<open>etypes\<close> that the inner loop walks again, the third what is
  left of the outer iteration.
\<close>

fun mps_outer :: "string \<Rightarrow> etype list \<Rightarrow> etype list \<Rightarrow> metapath list \<Rightarrow> metapath list" where
  "mps_outer cat etypes [] mps = mps"
| "mps_outer cat etypes (etype # rest) mps =
     mps_outer cat etypes rest
       (if et_src etype = cat then mps_inner etype etypes mps else mps)"

definition build_mps :: "string \<Rightarrow> etype list \<Rightarrow> metapath list" where
  "build_mps cat etypes = mps_outer cat etypes etypes []"

text \<open>The argument object, as far as \<^verbatim>\<open>build_model_from_args\<close> reads it.\<close>

record args =
  args_category :: string
  in_dim :: nat
  hidden_dim :: nat
  out_dim :: nat
  num_heads :: "nat list"
  dropout :: real

definition build_model_from_args ::
  "gat_ctor \<Rightarrow> nat \<Rightarrow> args \<Rightarrow> 'a hetero_graph \<Rightarrow> error + HAN" where
  "build_model_from_args lib k a hg =
     HAN_init lib k (build_mps (args_category a) (canonical_etypes hg)) (args_category a)
       (in_dim a) (hidden_dim a) (out_dim a) (num_heads a) (dropout a)"

subsection \<open>\<^verbatim>\<open>HAN.forward\<close> (lines 54-60)\<close>

text \<open>The loop \<^verbatim>\<open>for gnn in self.layers: h = gnn(g, h)\<close>, with the layers it leaves.\<close>

fun run_layers ::
  "'a ops \<Rightarrow> 'a hetero_graph \<Rightarrow> HANLayer list \<Rightarrow> 'a tensor \<Rightarrow>
     HANLayer list \<times> trace \<times> (error + 'a tensor)" where
  "run_layers ops g [] h = ([], [], Inr h)"
| "run_layers ops g (gnn # rest) h =
     (case HANLayer_forward ops gnn g h of
        (gnn', tr, Inl e) \<Rightarrow> (gnn' # rest, tr, Inl e)
      | (gnn', tr, Inr h') \<Rightarrow>
          (case run_layers ops g rest h' of
             (rest', tr', r) \<Rightarrow> (gnn' # rest', tr @ tr', r)))"

text \<open>
  Line 56, \<^verbatim>\<open>g.nodes[self.category].data['h']\<close>: a category the graph does not have is a
  \<open>DGLError\<close>, a missing feature field a \<open>KeyError\<close>.
\<close>

definition target_features :: "'a hetero_graph \<Rightarrow> string \<Rightarrow> error + 'a tensor" where
  "target_features g cat =
     (case ndata g cat of
        None \<Rightarrow> Inl DGLError
      | Some d \<Rightarrow> (case d ''h'' of None \<Rightarrow> Inl KeyError | Some t \<Rightarrow> Inr t))"

text \<open>
  \<^verbatim>\<open>HAN.forward\<close>: the model after the call, the projection calls made, and the returned
  dictionary \<^verbatim>\<open>{self.category: self.linear(h)}\<close> or the exception. The argument \<open>h\<close> is
  assigned (line 56) before it is read.
\<close>

definition HAN_forward ::
  "'a ops \<Rightarrow> HAN \<Rightarrow> 'a hetero_graph \<Rightarrow> 'a tensor option \<Rightarrow>
     HAN \<times> trace \<times> (error + (string \<rightharpoonup> 'a tensor))" where
  "HAN_forward ops M g h =
     (case target_features g (category M) of
        Inl e \<Rightarrow> (M, [], Inl e)
      | Inr h0 \<Rightarrow>
          (case run_layers ops g (layers M) h0 of
             (ls, tr, Inl e) \<Rightarrow> (M\<lparr>layers := ls\<rparr>, tr, Inl e)
           | (ls, tr, Inr hL) \<Rightarrow>
               (case Linear_forward ops (linear M) hL of
                  Inl e \<Rightarrow> (M\<lparr>layers := ls\<rparr>, tr, Inl e)
                | Inr y \<Rightarrow> (M\<lparr>layers := ls\<rparr>, tr, Inr [category M \<mapsto> y]))))"

section \<open>Specification-level descriptions\<close>

text \<open>
  The layer that \<^verbatim>\<open>HANLayer.__init__\<close> leaves when no module constructor raises: one
  module per metapath, numbered from \<open>k\<close>, each built with the tolerance of zero
  in-degree; the combiner; the metapaths; an empty cache.
\<close>

definition HANLayer_make :: "nat \<Rightarrow> metapath list \<Rightarrow> nat \<Rightarrow> nat \<Rightarrow> nat \<Rightarrow> real \<Rightarrow> HANLayer" where
  "HANLayer_make k mps in_size out_size layer_num_heads dr =
     \<lparr>gat_layers =
        map (\<lambda>i. \<lparr>gat_id = k + i, in_feats = in_size, out_feats = out_size,
                  gat_num_heads = layer_num_heads, feat_drop = dr, attn_drop = dr,
                  activation = F_elu, allow_zero_in_degree = True\<rparr>)
          [0..<length mps],
      semantic_attention =
        \<lparr>sa_id = k + length mps, sa_in_size = out_size * layer_num_heads\<rparr>,
      meta_paths = mps,
      cached_graph = None,
      cached_coalesced_graph = Map.empty\<rparr>"

text \<open>
  What the module constructor raises for the arguments the layer passes to it (both
  dropout arguments are the layer's \<open>dropout\<close>), and what the layer constructor raises:
  nothing when there is no metapath, since it then constructs no module.
\<close>

definition GATConv_error :: "gat_ctor \<Rightarrow> nat \<Rightarrow> nat \<Rightarrow> nat \<Rightarrow> real \<Rightarrow> error option" where
  "GATConv_error lib in_size out_size heads dr =
     (if dr < 0 \<or> 1 < dr then Some ValueError
      else if out_size = 0 then Some ZeroDivisionError
      else lib in_size out_size heads dr dr)"

definition layer_error ::
  "gat_ctor \<Rightarrow> metapath list \<Rightarrow> nat \<Rightarrow> nat \<Rightarrow> nat \<Rightarrow> real \<Rightarrow> error option" where
  "layer_error lib mps in_size out_size heads dr =
     (if mps = [] then None else GATConv_error lib in_size out_size heads dr)"

text \<open>
  The input width of the layer that the constructor call number \<open>l\<close> of \<^verbatim>\<open>HAN.__init__\<close>
  creates: \<open>in_size\<close> for the first call, \<open>hidden_size * num_heads[l-1]\<close> for call \<open>l > 0\<close>.
  The layer itself, when no constructor raises: each call creates one module per
  metapath and one combiner. And what call \<open>l\<close> raises.
\<close>

definition layer_width :: "nat \<Rightarrow> nat \<Rightarrow> nat list \<Rightarrow> nat \<Rightarrow> nat" where
  "layer_width in_size hidden_size nh l =
     (if l = 0 then in_size else hidden_size * nh ! (l - 1))"

definition layer_at ::
  "nat \<Rightarrow> metapath list \<Rightarrow> nat \<Rightarrow> nat \<Rightarrow> nat list \<Rightarrow> real \<Rightarrow> nat \<Rightarrow> HANLayer" where
  "layer_at k mps in_size hidden_size nh dr l =
     HANLayer_make (k + l * (length mps + 1)) mps
       (layer_width in_size hidden_size nh l) hidden_size (nh ! l) dr"

definition layer_error_at ::
  "gat_ctor \<Rightarrow> metapath list \<Rightarrow> nat \<Rightarrow> nat \<Rightarrow> nat list \<Rightarrow> real \<Rightarrow> nat \<Rightarrow> error option" where
  "layer_error_at lib mps in_size hidden_size nh dr l =
     layer_error lib mps (layer_width in_size hidden_size nh l) hidden_size (nh ! l) dr"

text \<open>
  What a full pass of the loop of lines 105-107 leaves in the emptied dictionary: the
  projection of the graph along each configured metapath, and no other key.
\<close>

definition projected :: "'a ops \<Rightarrow> 'a hetero_graph \<Rightarrow> metapath list \<Rightarrow> (metapath \<rightharpoonup> homo_graph)" where
  "projected ops g mps =
     (\<lambda>mp. if mp \<in> set mps
           then (case metapath_reachable_graph ops g mp of Inl e \<Rightarrow> None | Inr sg \<Rightarrow> Some sg)
           else None)"

text \<open>
  The projected subgraph a forward pass on graph \<open>g\<close> uses for a metapath: the cached one
  when the layer's cache belongs to \<open>g\<close>, a fresh projection otherwise.
\<close>

definition subgraph_for ::
  "'a ops \<Rightarrow> HANLayer \<Rightarrow> 'a hetero_graph \<Rightarrow> metapath \<Rightarrow> error + homo_graph" where
  "subgraph_for ops L g mp =
     (if cached_graph L = Some (ident g)
      then (case cached_coalesced_graph L mp of None \<Rightarrow> Inl KeyError | Some sg \<Rightarrow> Inr sg)
      else metapath_reachable_graph ops g mp)"

text \<open>Every metapath of the layer has such a subgraph, over \<open>N\<close> target nodes.\<close>

definition layer_ready :: "'a ops \<Rightarrow> HANLayer \<Rightarrow> 'a hetero_graph \<Rightarrow> nat \<Rightarrow> bool" where
  "layer_ready ops L g N =
     list_all (\<lambda>mp. case subgraph_for ops L g mp of Inl e \<Rightarrow> False | Inr sg \<Rightarrow> num_nodes sg = N)
       (meta_paths L)"

text \<open>
  The layer has one convolution module per metapath, each tolerating zero in-degree,
  reading width \<open>F\<close> and producing \<open>H\<close> heads of width \<open>D\<close>, and a combiner of width
  \<open>D * H\<close>.
\<close>

definition layer_ok :: "HANLayer \<Rightarrow> nat \<Rightarrow> nat \<Rightarrow> nat \<Rightarrow> bool" where
  "layer_ok L F D H =
     (length (gat_layers L) = length (meta_paths L) \<and>
      list_all (\<lambda>m. allow_zero_in_degree m \<and> in_feats m = F \<and> out_feats m = D \<and>
                     gat_num_heads m = H) (gat_layers L) \<and>
      sa_in_size (semantic_attention L) = D * H)"

text \<open>
  The widths of a stack of layers chain: the first reads width \<open>F\<close>, each next layer
  reads what the one before produces, and the last produces width \<open>F_out\<close>.
\<close>

fun chain_ok :: "HANLayer list \<Rightarrow> nat \<Rightarrow> nat \<Rightarrow> bool" where
  "chain_ok [] F F_out = (F = F_out)"
| "chain_ok (L # Ls) F F_out =
     (meta_paths L \<noteq> [] \<and> gat_layers L \<noteq> [] \<and>
      layer_ok L F (out_feats (hd (gat_layers L))) (gat_num_heads (hd (gat_layers L))) \<and>
      chain_ok Ls (sa_in_size (semantic_attention L)) F_out)"

text \<open>The number of edges of the projected graph that end in node \<open>v\<close>.\<close>

definition in_degree :: "homo_graph \<Rightarrow> nat \<Rightarrow> nat" where
  "in_degree sg v = length (filter (\<lambda>e. snd e = v) (edges sg))"

text \<open>The layer after a sequence of forward calls, whatever each call returned.\<close>

fun HANLayer_calls ::
  "'a ops \<Rightarrow> HANLayer \<Rightarrow> ('a hetero_graph \<times> 'a tensor) list \<Rightarrow> HANLayer" where
  "HANLayer_calls ops L [] = L"
| "HANLayer_calls ops L ((g, h) # rest) =
     HANLayer_calls ops (fst (HANLayer_forward ops L g h)) rest"

subsection \<open>What the specification says of the operations the source calls\<close>

text \<open>
  Modelled from the spec: the forward pass of the attention convolution \<^verbatim>\<open>GATConv\<close> of the
  graph library, which is not among the sources. Section 3: the per-metapath embedding
  has "shape (num_target_nodes, heads x out_size), flattened across attention heads",
  so before flattening one row per node, one block per head. Section 4.3: a module
  configured to tolerate zero in-degree gives such nodes "a defined, typically
  zero-valued, output rather than failing"; a feature width other than the declared
  one is a failure (section 4.2), so the contract speaks of inputs of the declared
  width only, and of modules built with the tolerance only.
\<close>

definition GATConv_contract :: "'a ops \<Rightarrow> bool" where
  "GATConv_contract ops =
     (\<forall>m sg h. allow_zero_in_degree m \<and> shape h = [num_nodes sg, in_feats m] \<longrightarrow>
        (\<exists>y. GATConv_forward ops m sg h = Inr y \<and>
             shape y = [num_nodes sg, gat_num_heads m, out_feats m]))"

text \<open>
  Modelled from the spec: the forward pass of the semantic-attention combiner of
  \<^verbatim>\<open>macro_layer/SemanticConv.py\<close>, which is not among the sources. Section 4.4: it
  "accepts a tensor of shape (N, M, F) - N nodes, M metapaths, F features each - and
  returns a tensor of shape (N, F)"; \<open>F\<close> is the width the combiner was built with.
\<close>

definition SemanticAttention_contract :: "'a ops \<Rightarrow> bool" where
  "SemanticAttention_contract ops =
     (\<forall>sa z n m. shape z = [n, m, sa_in_size sa] \<longrightarrow>
        (\<exists>y. SemanticAttention_forward ops sa z = Inr y \<and> shape y = [n, sa_in_size sa]))"

text \<open>
  Modelled from the spec: the forward pass of the linear head \<^verbatim>\<open>nn.Linear\<close> of the tensor
  library, which is not among the sources. Sections 4.1 and 6: it maps "the last
  layer's output width" to the output size, row by row.
\<close>

definition Linear_contract :: "'a ops \<Rightarrow> bool" where
  "Linear_contract ops =
     (\<forall>lin x n. shape x = [n, in_features lin] \<longrightarrow>
        (\<exists>y. Linear_forward ops lin x = Inr y \<and> shape y = [n, out_features lin]))"

section \<open>A concrete graph and concrete operations\<close>

text \<open>
  The scenario of the specification: authors and papers, one edge type in each
  direction. Author 0 wrote paper 0; author 1 wrote nothing, so no metapath reaches it.
\<close>

definition et_write :: etype where
  "et_write = (''author'', ''write'', ''paper'')"

definition et_written_by :: etype where
  "et_written_by = (''paper'', ''written-by'', ''author'')"

definition demo_features :: "nat tensor" where
  "demo_features = \<lparr>shape = [2, 4], data = [1, 2, 3, 4, 5, 6, 7, 8]\<rparr>"

definition demo_hg :: "nat hetero_graph" where
  "demo_hg =
     \<lparr>ident = 1,
      canonical_etypes = [et_write, et_written_by],
      num_nodes_of = [''author'' \<mapsto> 2, ''paper'' \<mapsto> 1],
      ndata = [''author'' \<mapsto> [''h'' \<mapsto> demo_features]],
      hedges = [et_write \<mapsto> [(0, 0)], et_written_by \<mapsto> [(0, 0)]]\<rparr>"

definition demo_args :: args where
  "demo_args =
     \<lparr>args_category = ''author'', in_dim = 4, hidden_dim = 8, out_dim = 3,
      num_heads = [2], dropout = 1 / 2\<rparr>"

text \<open>
  A projection for the concrete runs: the pairs of end nodes joined along the metapath,
  over the nodes of the category the metapath starts from; an edge type the graph does
  not have is an error.
\<close>

fun demo_reach :: "'a hetero_graph \<Rightarrow> metapath \<Rightarrow> (nat \<times> nat) list option" where
  "demo_reach g [] = None"
| "demo_reach g [e] = hedges g e"
| "demo_reach g (e # rest) =
     (case hedges g e of
        None \<Rightarrow> None
      | Some r \<Rightarrow>
          (case demo_reach g rest of
             None \<Rightarrow> None
           | Some s \<Rightarrow> Some (remdups [(a, c). (a, b) \<leftarrow> r, (b', c) \<leftarrow> s, b = b'])))"

definition demo_project :: "'a hetero_graph \<Rightarrow> metapath \<Rightarrow> error + homo_graph" where
  "demo_project g mp =
     (case demo_reach g mp of
        None \<Rightarrow> Inl DGLError
      | Some es \<Rightarrow>
          (case num_nodes_of g (et_src (hd mp)) of
             None \<Rightarrow> Inl DGLError
           | Some n \<Rightarrow> Inr \<lparr>num_nodes = n, edges = es\<rparr>))"

text \<open>
  A convolution for the concrete runs. It refuses a graph with a node of in-degree zero
  unless the module allows it, and a feature tensor of another shape than (nodes,
  declared width); its output elements are the module's number.
\<close>

definition demo_gat :: "GATConv \<Rightarrow> homo_graph \<Rightarrow> nat tensor \<Rightarrow> error + nat tensor" where
  "demo_gat m sg h =
     (if \<not> allow_zero_in_degree m \<and> \<not> list_all (\<lambda>v. 0 < in_degree sg v) [0..<num_nodes sg]
      then Inl DGLError
      else if shape h \<noteq> [num_nodes sg, in_feats m] then Inl RuntimeError
      else Inr \<lparr>shape = [num_nodes sg, gat_num_heads m, out_feats m],
                data = replicate (num_nodes sg * (gat_num_heads m * out_feats m)) (gat_id m)\<rparr>)"

definition demo_sa :: "SemanticAttention \<Rightarrow> nat tensor \<Rightarrow> error + nat tensor" where
  "demo_sa sa z =
     (case shape z of
        [n, m, f] \<Rightarrow>
          if f = sa_in_size sa
          then Inr \<lparr>shape = [n, f], data = replicate (n * f) (sa_id sa)\<rparr>
          else Inl RuntimeError
      | _ \<Rightarrow> Inl RuntimeError)"

definition demo_linear :: "Linear \<Rightarrow> nat tensor \<Rightarrow> error + nat tensor" where
  "demo_linear lin x =
     (case shape x of
        [n, f] \<Rightarrow>
          if f = in_features lin
          then Inr \<lparr>shape = [n, out_features lin],
                    data = replicate (n * out_features lin) (lin_id lin)\<rparr>
          else Inl RuntimeError
      | _ \<Rightarrow> Inl RuntimeError)"

text \<open>
  For the concrete runs the library's constructor refuses, beyond the two cases above,
  a module without input width and without heads.
\<close>

definition demo_lib :: gat_ctor where
  "demo_lib in_f out_f heads fd ad =
     (if in_f = 0 \<and> heads = 0 then Some ZeroDivisionError else None)"

definition demo_ops :: "nat ops" where
  "demo_ops =
     \<lparr>metapath_reachable_graph = demo_project, GATConv_forward = demo_gat,
      SemanticAttention_forward = demo_sa, Linear_forward = demo_linear\<rparr>"

text \<open>
  A layer for the one metapath of the scenario, as its constructor leaves it; the same
  graph object after an edge was added to it (author 1 wrote paper 0); and a second
  graph object holding what the first one holds.
\<close>

definition demo_layer :: HANLayer where
  "demo_layer = HANLayer_make 0 [[et_write, et_written_by]] 4 8 2 (1 / 2)"

definition demo_hg_mutated :: "nat hetero_graph" where
  "demo_hg_mutated = demo_hg\<lparr>hedges := [et_write \<mapsto> [(0, 0), (1, 0)], et_written_by \<mapsto> [(0, 0)]]\<rparr>"

definition demo_hg_copy :: "nat hetero_graph" where
  "demo_hg_copy = demo_hg\<lparr>ident := 2\<rparr>"

text \<open>
  A schema with two metapaths for the authors: through the papers and through the venues
  (author 1 attended venue 0, which hosted author 0); and a layer for these two
  metapaths.
\<close>

definition et_attend :: etype where
  "et_attend = (''author'', ''attend'', ''venue'')"

definition et_hosts :: etype where
  "et_hosts = (''venue'', ''hosts'', ''author'')"

definition demo_hg2 :: "nat hetero_graph" where
  "demo_hg2 =
     \<lparr>ident = 3,
      canonical_etypes = [et_write, et_written_by, et_attend, et_hosts],
      num_nodes_of = [''author'' \<mapsto> 2, ''paper'' \<mapsto> 1, ''venue'' \<mapsto> 1],
      ndata = [''author'' \<mapsto> [''h'' \<mapsto> demo_features]],
      hedges = [et_write \<mapsto> [(0, 0)], et_written_by \<mapsto> [(0, 0)],
                et_attend \<mapsto> [(1, 0)], et_hosts \<mapsto> [(0, 0)]]\<rparr>"

definition demo_layer2 :: HANLayer where
  "demo_layer2 =
     HANLayer_make 0 [[et_write, et_written_by], [et_attend, et_hosts]] 4 8 2 (1 / 2)"

text \<open>
  The model that \<^verbatim>\<open>build_model_from_args\<close> builds for the scenario (one layer of two
  heads), and the arguments of a model of two layers.
\<close>

definition demo_model :: HAN where
  "demo_model =
     \<lparr>category = ''author'', layers = [demo_layer],
      linear = \<lparr>lin_id = 2, in_features = 16, out_features = 3\<rparr>\<rparr>"

definition demo_args2 :: args where
  "demo_args2 = demo_args\<lparr>num_heads := [2, 3]\<rparr>"

text \<open>
  A schema with no metapath for the authors (its only edge type is a self-loop), and the
  model the builder makes of it: one layer with no branch.
\<close>

definition et_cites :: etype where
  "et_cites = (''author'', ''cites'', ''author'')"

definition demo_hg_selfloop :: "nat hetero_graph" where
  "demo_hg_selfloop =
     \<lparr>ident = 4,
      canonical_etypes = [et_cites],
      num_nodes_of = [''author'' \<mapsto> 2],
      ndata = [''author'' \<mapsto> [''h'' \<mapsto> demo_features]],
      hedges = [et_cites \<mapsto> [(0, 1)]]\<rparr>"

definition demo_model_empty :: HAN where
  "demo_model_empty =
     \<lparr>category = ''author'', layers = [HANLayer_make 0 [] 4 8 2 (1 / 2)],
      linear = \<lparr>lin_id = 1, in_features = 16, out_features = 3\<rparr>\<rparr>"

text \<open>The projected graph of the scenario: author 1 has no incoming edge.\<close>

definition demo_sg :: homo_graph where
  "demo_sg = \<lparr>num_nodes = 2, edges = [(0, 0)]\<rparr>"

text \<open>
  Inputs on which a step of the forward pass fails: features of another width than the
  layer was built for, a layer whose combiner was built for another width, a layer whose
  two modules produce different widths, a model whose linear head was built for another
  width, and a model for a category the graph does not have.
\<close>

definition demo_narrow :: "nat tensor" where
  "demo_narrow = \<lparr>shape = [2, 5], data = [0, 0, 0, 0, 0, 0, 0, 0, 0, 0]\<rparr>"

definition demo_layer_bad_sa :: HANLayer where
  "demo_layer_bad_sa = demo_layer\<lparr>semantic_attention := \<lparr>sa_id = 1, sa_in_size = 5\<rparr>\<rparr>"

definition demo_layer_uneven :: HANLayer where
  "demo_layer_uneven =
     demo_layer2\<lparr>gat_layers :=
       [gat_layers demo_layer2 ! 0, (gat_layers demo_layer2 ! 1)\<lparr>out_feats := 4\<rparr>]\<rparr>"

definition demo_model_bad_head :: HAN where
  "demo_model_bad_head = demo_model\<lparr>linear := \<lparr>lin_id = 2, in_features = 7, out_features = 3\<rparr>\<rparr>"

definition demo_model_venue :: HAN where
  "demo_model_venue = demo_model\<lparr>category := ''venue''\<rparr>"

section \<open>The constructors\<close>

lemma GATConv_init_eq:
  "GATConv_init lib i in_f out_f heads dr dr act allow =
     (case GATConv_error lib in_f out_f heads dr of
        Some e \<Rightarrow> Inl e
      | None \<Rightarrow>
          Inr \<lparr>gat_id = i, in_feats = in_f, out_feats = out_f, gat_num_heads = heads,
               feat_drop = dr, attn_drop = dr, activation = act, allow_zero_in_degree = allow\<rparr>)"
  by (auto simp: GATConv_init_def GATConv_error_def split: option.splits)

lemma gat_layers_loop_eq:
  "gat_layers_loop lib k in_f out_f heads dr ixs acc =
     (if ixs = [] then Inr acc
      else (case GATConv_error lib in_f out_f heads dr of
              Some e \<Rightarrow> Inl e
            | None \<Rightarrow>
                Inr (acc @ map (\<lambda>i. \<lparr>gat_id = k + i, in_feats = in_f, out_feats = out_f,
                                      gat_num_heads = heads, feat_drop = dr, attn_drop = dr,
                                      activation = F_elu, allow_zero_in_degree = True\<rparr>) ixs)))"
proof (induction ixs arbitrary: acc)
  case Nil
  then show ?case by simp
next
  case (Cons i ixs)
  show ?case
  proof (cases "GATConv_error lib in_f out_f heads dr")
    case None
    then show ?thesis by (simp add: GATConv_init_eq Cons.IH)
  next
    case (Some e)
    then show ?thesis by (simp add: GATConv_init_eq)
  qed
qed

lemma HANLayer_init_eq:
  "HANLayer_init lib k mps in_f out_f heads dr =
     (case layer_error lib mps in_f out_f heads dr of
        Some e \<Rightarrow> Inl e
      | None \<Rightarrow> Inr (HANLayer_make k mps in_f out_f heads dr, k + length mps + 1))"
  by (simp add: HANLayer_init_def gat_layers_loop_eq layer_error_def HANLayer_make_def
      split: option.splits)

lemma HANLayer_init_Inr_iff:
  "HANLayer_init lib k mps in_f out_f heads dr = Inr x \<longleftrightarrow>
     layer_error lib mps in_f out_f heads dr = None \<and>
     x = (HANLayer_make k mps in_f out_f heads dr, k + length mps + 1)"
  by (auto simp: HANLayer_init_eq split: option.splits)

lemma HANLayer_init_at:
  "1 \<le> a \<Longrightarrow>
   HANLayer_init lib (k + a * (length mps + 1)) mps (hs * nh ! (a - 1)) hs (nh ! a) dr =
     (case layer_error_at lib mps i hs nh dr a of
        Some e \<Rightarrow> Inl e
      | None \<Rightarrow> Inr (layer_at k mps i hs nh dr a, k + Suc a * (length mps + 1)))"
  by (simp add: HANLayer_init_eq layer_error_at_def layer_at_def layer_width_def
      split: option.splits)

lemma HANLayer_init_at_0:
  "HANLayer_init lib k mps i hs (nh ! 0) dr =
     (case layer_error_at lib mps i hs nh dr 0 of
        Some e \<Rightarrow> Inl e
      | None \<Rightarrow> Inr (layer_at k mps i hs nh dr 0, k + 1 * (length mps + 1)))"
  by (simp add: HANLayer_init_eq layer_error_at_def layer_at_def layer_width_def
      split: option.splits)

lemma HAN_init_loop_step:
  assumes "1 \<le> a" and "a < n"
  shows "HAN_init_loop lib mps hs nh dr [a..<n]
       (map (layer_at k mps i hs nh dr) [0..<a], k + a * (length mps + 1)) =
     (case layer_error_at lib mps i hs nh dr a of
        Some e \<Rightarrow> Inl e
      | None \<Rightarrow>
          HAN_init_loop lib mps hs nh dr [Suc a..<n]
            (map (layer_at k mps i hs nh dr) [0..<Suc a], k + Suc a * (length mps + 1)))"
proof -
  have eq: "[a..<n] = a # [Suc a..<n]" using assms(2) by (rule upt_conv_Cons)
  have m: "map (layer_at k mps i hs nh dr) [0..<Suc a] =
      map (layer_at k mps i hs nh dr) [0..<a] @ [layer_at k mps i hs nh dr a]"
    by simp
  show ?thesis
  proof (cases "layer_error_at lib mps i hs nh dr a")
    case None
    show ?thesis
      by (simp only: eq HAN_init_loop.simps HANLayer_init_at[OF assms(1), where i = i] None option.case
          sum.case prod.case m)
  next
    case (Some e)
    show ?thesis
      by (simp only: eq HAN_init_loop.simps HANLayer_init_at[OF assms(1), where i = i] Some option.case
          sum.case)
  qed
qed

lemma HAN_init_loop_ok:
  "1 \<le> a \<Longrightarrow> a \<le> n \<Longrightarrow>
   (\<forall>l. a \<le> l \<and> l < n \<longrightarrow> layer_error_at lib mps i hs nh dr l = None) \<Longrightarrow>
   HAN_init_loop lib mps hs nh dr [a..<n]
     (map (layer_at k mps i hs nh dr) [0..<a], k + a * (length mps + 1)) =
   Inr (map (layer_at k mps i hs nh dr) [0..<n], k + n * (length mps + 1))"
proof (induction "n - a" arbitrary: a)
  case 0
  then show ?case by simp
next
  case (Suc d)
  then have lt: "a < n" by simp
  have none: "layer_error_at lib mps i hs nh dr a = None" using Suc.prems(3) lt by simp
  have "d = n - Suc a" using Suc.hyps(2) by simp
  moreover have "1 \<le> Suc a" by simp
  moreover have "Suc a \<le> n" using lt by simp
  moreover have "\<forall>l. Suc a \<le> l \<and> l < n \<longrightarrow> layer_error_at lib mps i hs nh dr l = None"
    using Suc.prems(3) by simp
  ultimately have IH: "HAN_init_loop lib mps hs nh dr [Suc a..<n]
     (map (layer_at k mps i hs nh dr) [0..<Suc a], k + Suc a * (length mps + 1)) =
   Inr (map (layer_at k mps i hs nh dr) [0..<n], k + n * (length mps + 1))"
    by (rule Suc.hyps(1))
  show ?case
    unfolding HAN_init_loop_step[OF Suc.prems(1) lt] by (simp only: none option.case IH)
qed

lemma HAN_init_loop_fail:
  "1 \<le> a \<Longrightarrow> a \<le> l \<Longrightarrow> l < n \<Longrightarrow> layer_error_at lib mps i hs nh dr l = Some e \<Longrightarrow>
   (\<forall>l'. a \<le> l' \<and> l' < l \<longrightarrow> layer_error_at lib mps i hs nh dr l' = None) \<Longrightarrow>
   HAN_init_loop lib mps hs nh dr [a..<n]
     (map (layer_at k mps i hs nh dr) [0..<a], k + a * (length mps + 1)) = Inl e"
proof (induction "l - a" arbitrary: a)
  case 0
  then have al: "a = l" by simp
  have an: "a < n" using al "0.prems"(3) by simp
  have e: "layer_error_at lib mps i hs nh dr a = Some e" using al "0.prems"(4) by simp
  show ?case
    unfolding HAN_init_loop_step[OF "0.prems"(1) an] by (simp only: e option.case)
next
  case (Suc d)
  then have lt: "a < l" by simp
  then have an: "a < n" using Suc.prems(3) by simp
  have none: "layer_error_at lib mps i hs nh dr a = None" using Suc.prems(5) lt by simp
  have "d = l - Suc a" using Suc.hyps(2) by simp
  moreover have "1 \<le> Suc a" by simp
  moreover have "Suc a \<le> l" using lt by simp
  moreover note Suc.prems(3,4)
  moreover have "\<forall>l'. Suc a \<le> l' \<and> l' < l \<longrightarrow> layer_error_at lib mps i hs nh dr l' = None"
    using Suc.prems(5) by simp
  ultimately have IH: "HAN_init_loop lib mps hs nh dr [Suc a..<n]
     (map (layer_at k mps i hs nh dr) [0..<Suc a], k + Suc a * (length mps + 1)) = Inl e"
    by (rule Suc.hyps(1))
  show ?case
    unfolding HAN_init_loop_step[OF Suc.prems(1) an] by (simp only: none option.case IH)
qed

text \<open>The model the constructor returns when no layer constructor raises.\<close>

lemma HAN_init_ok:
  assumes "nh \<noteq> []" and "\<forall>l < length nh. layer_error_at lib mps i hs nh dr l = None"
  shows "HAN_init lib k mps cat i hs out nh dr =
     Inr \<lparr>category = cat, layers = map (layer_at k mps i hs nh dr) [0..<length nh],
          linear = \<lparr>lin_id = k + length nh * (length mps + 1),
                    in_features = hs * last nh, out_features = out\<rparr>\<rparr>"
proof -
  have n: "1 \<le> length nh" using assms(1) by (cases nh) auto
  have "0 < length nh" using assms(1) by simp
  then have z: "layer_error_at lib mps i hs nh dr 0 = None" using assms(2) by simp
  have "HAN_init_loop lib mps hs nh dr [1..<length nh]
     (map (layer_at k mps i hs nh dr) [0..<1], k + 1 * (length mps + 1)) =
   Inr (map (layer_at k mps i hs nh dr) [0..<length nh], k + length nh * (length mps + 1))"
    by (rule HAN_init_loop_ok) (use n assms(2) in auto)
  then show ?thesis
    using assms(1) by (simp add: HAN_init_def HANLayer_init_at_0 z)
qed

text \<open>The first layer constructor that raises ends the construction with its exception.\<close>

lemma HAN_init_fail:
  assumes "l < length nh" and "layer_error_at lib mps i hs nh dr l = Some e"
    and "\<forall>l' < l. layer_error_at lib mps i hs nh dr l' = None"
  shows "HAN_init lib k mps cat i hs out nh dr = Inl e"
proof -
  have ne: "nh \<noteq> []" using assms(1) by auto
  show ?thesis
  proof (cases l)
    case 0
    with assms(2) ne show ?thesis by (simp add: HAN_init_def HANLayer_init_at_0)
  next
    case (Suc l0)
    then have z: "layer_error_at lib mps i hs nh dr 0 = None" using assms(3) by simp
    have "HAN_init_loop lib mps hs nh dr [1..<length nh]
       (map (layer_at k mps i hs nh dr) [0..<1], k + 1 * (length mps + 1)) = Inl e"
      by (rule HAN_init_loop_fail[where l = l]) (use Suc assms ne in auto)
    then show ?thesis using ne by (simp add: HAN_init_def HANLayer_init_at_0 z)
  qed
qed

lemma HAN_init_Inr_iff:
  "HAN_init lib k mps cat i hs out nh dr = Inr M \<longleftrightarrow>
     nh \<noteq> [] \<and> (\<forall>l < length nh. layer_error_at lib mps i hs nh dr l = None) \<and>
     M = \<lparr>category = cat, layers = map (layer_at k mps i hs nh dr) [0..<length nh],
          linear = \<lparr>lin_id = k + length nh * (length mps + 1),
                    in_features = hs * last nh, out_features = out\<rparr>\<rparr>"
proof
  assume M: "HAN_init lib k mps cat i hs out nh dr = Inr M"
  have ne: "nh \<noteq> []" using M by (auto simp: HAN_init_def)
  have all: "\<forall>l < length nh. layer_error_at lib mps i hs nh dr l = None"
  proof (rule ccontr)
    assume "\<not> (\<forall>l < length nh. layer_error_at lib mps i hs nh dr l = None)"
    then have ex: "\<exists>l. l < length nh \<and> layer_error_at lib mps i hs nh dr l \<noteq> None" by blast
    define l where "l = (LEAST l. l < length nh \<and> layer_error_at lib mps i hs nh dr l \<noteq> None)"
    from ex have l: "l < length nh \<and> layer_error_at lib mps i hs nh dr l \<noteq> None"
      unfolding l_def by (rule LeastI_ex)
    have least: "\<forall>l' < l. layer_error_at lib mps i hs nh dr l' = None"
    proof (intro allI impI)
      fix l' assume "l' < l"
      then have "\<not> (l' < length nh \<and> layer_error_at lib mps i hs nh dr l' \<noteq> None)"
        unfolding l_def by (rule not_less_Least)
      with \<open>l' < l\<close> l show "layer_error_at lib mps i hs nh dr l' = None" by simp
    qed
    from l obtain e where "layer_error_at lib mps i hs nh dr l = Some e" by auto
    with l least have "HAN_init lib k mps cat i hs out nh dr = Inl e"
      by (intro HAN_init_fail[where l = l]) simp_all
    with M show False by simp
  qed
  from M HAN_init_ok[OF ne all, of k cat out]
  show "nh \<noteq> [] \<and> (\<forall>l < length nh. layer_error_at lib mps i hs nh dr l = None) \<and>
     M = \<lparr>category = cat, layers = map (layer_at k mps i hs nh dr) [0..<length nh],
          linear = \<lparr>lin_id = k + length nh * (length mps + 1),
                    in_features = hs * last nh, out_features = out\<rparr>\<rparr>"
    using ne all by simp
next
  assume "nh \<noteq> [] \<and> (\<forall>l < length nh. layer_error_at lib mps i hs nh dr l = None) \<and>
     M = \<lparr>category = cat, layers = map (layer_at k mps i hs nh dr) [0..<length nh],
          linear = \<lparr>lin_id = k + length nh * (length mps + 1),
                    in_features = hs * last nh, out_features = out\<rparr>\<rparr>"
  then show "HAN_init lib k mps cat i hs out nh dr = Inr M"
    using HAN_init_ok[of nh lib mps i hs dr k cat out] by simp
qed

lemma layer_at_meta_paths: "meta_paths (layer_at k mps i hs nh dr l) = mps"
  by (simp add: layer_at_def HANLayer_make_def)

lemma HAN_init_meta_paths:
  "HAN_init lib k mps cat i hs out nh dr = Inr M \<Longrightarrow> L \<in> set (layers M) \<Longrightarrow>
   meta_paths L = mps"
  unfolding HAN_init_Inr_iff by (auto simp: layer_at_meta_paths)

section \<open>Properties of the metapath enumeration\<close>

lemma mps_inner_eq:
  "mps_inner e es mps =
     mps @ [[e, e2]. e2 \<leftarrow> es, et_src e = et_dst e2 \<and> et_dst e = et_src e2, et_src e \<noteq> et_dst e]"
  by (induction es arbitrary: mps) auto

lemma mps_outer_eq:
  "mps_outer cat etypes es mps =
     mps @ [[e1, e2]. e1 \<leftarrow> es, et_src e1 = cat, e2 \<leftarrow> etypes,
              et_src e1 = et_dst e2 \<and> et_dst e1 = et_src e2, et_src e1 \<noteq> et_dst e1]"
  by (induction es arbitrary: mps) (auto simp: mps_inner_eq)

lemma build_mps_eq:
  "build_mps cat etypes =
     [[e1, e2]. e1 \<leftarrow> etypes, et_src e1 = cat, e2 \<leftarrow> etypes,
        et_src e1 = et_dst e2 \<and> et_dst e1 = et_src e2, et_src e1 \<noteq> et_dst e1]"
  by (simp add: build_mps_def mps_outer_eq)

lemma set_build_mps:
  "set (build_mps cat etypes) =
     {[e1, e2] | e1 e2. e1 \<in> set etypes \<and> e2 \<in> set etypes \<and> et_src e1 = cat \<and>
        et_dst e1 = et_src e2 \<and> et_dst e2 = et_src e1 \<and> et_src e1 \<noteq> et_dst e1}"
  unfolding build_mps_eq by (auto 0 3 simp del: split_paired_Ex)

lemma distinct_second_hops:
  "distinct es \<Longrightarrow> distinct [[e, e2]. e2 \<leftarrow> es, P e2]"
  by (induction es) auto

lemma distinct_two_hops:
  "distinct es \<Longrightarrow> distinct etypes \<Longrightarrow>
   distinct [[e1, e2]. e1 \<leftarrow> es, Q e1, e2 \<leftarrow> etypes, P e1 e2]"
proof (induction es)
  case Nil
  then show ?case by simp
next
  case (Cons e es)
  have "distinct [[e, e2]. e2 \<leftarrow> etypes, P e e2]"
    using Cons.prems(2) by (rule distinct_second_hops)
  moreover have "set [[e, e2]. e2 \<leftarrow> etypes, P e e2] \<inter>
      set [[e1, e2]. e1 \<leftarrow> es, Q e1, e2 \<leftarrow> etypes, P e1 e2] = {}"
    using Cons.prems(1) by auto
  moreover have "distinct [[e1, e2]. e1 \<leftarrow> es, Q e1, e2 \<leftarrow> etypes, P e1 e2]"
    using Cons by simp
  ultimately show ?case by (cases "Q e") simp_all
qed

lemma distinct_build_mps: "distinct etypes \<Longrightarrow> distinct (build_mps cat etypes)"
proof -
  assume d: "distinct etypes"
  have "build_mps cat etypes = [[e1, e2]. e1 \<leftarrow> etypes, et_src e1 = cat, e2 \<leftarrow> etypes,
        et_src e1 = et_dst e2 \<and> et_dst e1 = et_src e2 \<and> et_src e1 \<noteq> et_dst e1]"
    unfolding build_mps_eq by (rule arg_cong[where f=concat], rule map_cong) (auto intro!: arg_cong[where f=concat])
  then show ?thesis using distinct_two_hops[OF d d] by simp
qed

lemma build_mps_two: "A \<noteq> B \<Longrightarrow> build_mps A [(A, r1, B), (B, r2, A)] = [[(A, r1, B), (B, r2, A)]]"
  by (simp add: build_mps_def)

lemma build_mps_two': "A \<noteq> B \<Longrightarrow> build_mps A [(B, r2, A), (A, r1, B)] = [[(A, r1, B), (B, r2, A)]]"
  by (simp add: build_mps_def)

lemma demo_layer_error:
  "layer_error demo_lib mps 4 8 2 (1 / 2) = None"
  "layer_error demo_lib mps 16 8 3 (1 / 2) = None"
  by (simp_all add: layer_error_def GATConv_error_def demo_lib_def)

lemma demo_build: "\<exists>M. build_model_from_args demo_lib 0 demo_args demo_hg = Inr M"
  by (simp add: build_model_from_args_def demo_args_def HAN_init_def HANLayer_init_eq
      demo_layer_error)


text \<open>
  C1. Metapath enumeration: \<^verbatim>\<open>build_model_from_args\<close> passes to the constructor, and every
  layer of the model stores, exactly the two-hop paths \<open>[e1, e2]\<close> over the schema with
  \<open>e1\<close> leaving the target category, \<open>e2\<close> starting where \<open>e1\<close> ends and closing back to
  where \<open>e1\<close> starts, and \<open>e1\<close> not a self-loop; in the order of the schema, and each
  once when the schema lists each edge type once. For the schema of the two edge types
  A to B and B to A, with A and B different, the target category A has the one
  metapath [A to B, B to A], in whichever order the schema lists them.
\<close>

theorem C1_metapath_enumeration:
  "build_model_from_args lib k a hg =
     HAN_init lib k (build_mps (args_category a) (canonical_etypes hg)) (args_category a)
       (in_dim a) (hidden_dim a) (out_dim a) (num_heads a) (dropout a)
   \<and> (\<forall>M. build_model_from_args lib k a hg = Inr M \<longrightarrow>
         (\<forall>L \<in> set (layers M).
            meta_paths L = build_mps (args_category a) (canonical_etypes hg)))
   \<and> build_mps cat etypes =
       [[e1, e2]. e1 \<leftarrow> etypes, et_src e1 = cat, e2 \<leftarrow> etypes,
          et_src e1 = et_dst e2 \<and> et_dst e1 = et_src e2, et_src e1 \<noteq> et_dst e1]
   \<and> set (build_mps cat etypes) =
       {[e1, e2] | e1 e2. e1 \<in> set etypes \<and> e2 \<in> set etypes \<and> et_src e1 = cat \<and>
          et_dst e1 = et_src e2 \<and> et_dst e2 = et_src e1 \<and> et_src e1 \<noteq> et_dst e1}
   \<and> (distinct etypes \<longrightarrow> distinct (build_mps cat etypes))
   \<and> (A \<noteq> B \<longrightarrow>
         build_mps A [(A, r1, B), (B, r2, A)] = [[(A, r1, B), (B, r2, A)]] \<and>
         build_mps A [(B, r2, A), (A, r1, B)] = [[(A, r1, B), (B, r2, A)]])"
proof (intro conjI allI impI ballI)
  show "build_model_from_args lib k a hg =
     HAN_init lib k (build_mps (args_category a) (canonical_etypes hg)) (args_category a)
       (in_dim a) (hidden_dim a) (out_dim a) (num_heads a) (dropout a)"
    by (simp add: build_model_from_args_def)
next
  fix M L
  assume "build_model_from_args lib k a hg = Inr M" and "L \<in> set (layers M)"
  then show "meta_paths L = build_mps (args_category a) (canonical_etypes hg)"
    unfolding build_model_from_args_def by (rule HAN_init_meta_paths)
next
  show "build_mps cat etypes =
       [[e1, e2]. e1 \<leftarrow> etypes, et_src e1 = cat, e2 \<leftarrow> etypes,
          et_src e1 = et_dst e2 \<and> et_dst e1 = et_src e2, et_src e1 \<noteq> et_dst e1]"
    by (rule build_mps_eq)
next
  show "set (build_mps cat etypes) =
       {[e1, e2] | e1 e2. e1 \<in> set etypes \<and> e2 \<in> set etypes \<and> et_src e1 = cat \<and>
          et_dst e1 = et_src e2 \<and> et_dst e2 = et_src e1 \<and> et_src e1 \<noteq> et_dst e1}"
    by (rule set_build_mps)
next
  assume "distinct etypes"
  then show "distinct (build_mps cat etypes)" by (rule distinct_build_mps)
next
  assume "A \<noteq> B"
  then show "build_mps A [(A, r1, B), (B, r2, A)] = [[(A, r1, B), (B, r2, A)]]"
    by (rule build_mps_two)
next
  assume "A \<noteq> B"
  then show "build_mps A [(B, r2, A), (A, r1, B)] = [[(A, r1, B), (B, r2, A)]]"
    by (rule build_mps_two')
qed


theorem C1_metapath_enumeration_witness:
  "(\<exists>M. build_model_from_args demo_lib 0 demo_args (demo_hg :: nat hetero_graph) = Inr M \<and>
        map meta_paths (layers M) = [[[et_write, et_written_by]]])
   \<and> distinct (canonical_etypes (demo_hg :: nat hetero_graph))
   \<and> ''author'' \<noteq> ''paper''
   \<and> build_mps ''author'' (canonical_etypes (demo_hg :: nat hetero_graph)) = [[et_write, et_written_by]]
   \<and> distinct (build_mps ''author'' (canonical_etypes (demo_hg :: nat hetero_graph)))"
proof -
  have neq: "''author'' \<noteq> ''paper''" by simp
  have d: "distinct (canonical_etypes (demo_hg :: nat hetero_graph))"
    by (simp add: demo_hg_def et_write_def et_written_by_def)
  have ety: "canonical_etypes (demo_hg :: nat hetero_graph) =
      [(''author'', ''write'', ''paper''), (''paper'', ''written-by'', ''author'')]"
    by (simp add: demo_hg_def et_write_def et_written_by_def)
  note c1 = C1_metapath_enumeration [of demo_lib 0 demo_args demo_hg "''author''"
      "canonical_etypes (demo_hg :: nat hetero_graph)" "''author''" "''paper''" "''write''" "''written-by''"]
  from c1 have "''author'' \<noteq> ''paper'' \<longrightarrow>
      build_mps ''author'' [(''author'', ''write'', ''paper''), (''paper'', ''written-by'', ''author'')] =
        [[(''author'', ''write'', ''paper''), (''paper'', ''written-by'', ''author'')]] \<and>
      build_mps ''author'' [(''paper'', ''written-by'', ''author''), (''author'', ''write'', ''paper'')] =
        [[(''author'', ''write'', ''paper''), (''paper'', ''written-by'', ''author'')]]"
    by (elim conjE)
  with neq have mps: "build_mps ''author'' (canonical_etypes (demo_hg :: nat hetero_graph)) =
      [[et_write, et_written_by]]"
    by (simp add: ety et_write_def et_written_by_def)
  from c1 have "distinct (canonical_etypes (demo_hg :: nat hetero_graph)) \<longrightarrow>
      distinct (build_mps ''author'' (canonical_etypes (demo_hg :: nat hetero_graph)))"
    by (elim conjE)
  with d have dm: "distinct (build_mps ''author'' (canonical_etypes (demo_hg :: nat hetero_graph)))"
    by (rule rev_mp)
  obtain M where M: "build_model_from_args demo_lib 0 demo_args (demo_hg :: nat hetero_graph) = Inr M"
    using demo_build by blast
  have cat: "args_category demo_args = ''author''" by (simp add: demo_args_def)
  from c1 have "\<forall>M. build_model_from_args demo_lib 0 demo_args (demo_hg :: nat hetero_graph) = Inr M \<longrightarrow>
         (\<forall>L \<in> set (layers M).
            meta_paths L = build_mps (args_category demo_args) (canonical_etypes (demo_hg :: nat hetero_graph)))"
    by (elim conjE)
  with M have all: "\<forall>L \<in> set (layers M). meta_paths L = [[et_write, et_written_by]]"
    unfolding cat mps by (elim allE impE)
  have len: "length (layers M) = 1"
    using M by (auto simp: build_model_from_args_def demo_args_def HAN_init_Inr_iff)
  then obtain L where "layers M = [L]" by (cases "layers M") auto
  with all have mm: "map meta_paths (layers M) = [[[et_write, et_written_by]]]" by simp
  from M mm have "\<exists>M. build_model_from_args demo_lib 0 demo_args (demo_hg :: nat hetero_graph) = Inr M \<and>
        map meta_paths (layers M) = [[[et_write, et_written_by]]]"
    by (intro exI[of _ M] conjI)
  with neq d mps dm show ?thesis by (intro conjI)
qed

section \<open>The branches of a layer\<close>

lemma run_branches_acc:
  "run_branches ops L h xs acc =
     (case run_branches ops L h xs [] of Inl e \<Rightarrow> Inl e | Inr ys \<Rightarrow> Inr (acc @ ys))"
proof (induction xs arbitrary: acc)
  case Nil
  then show ?case by simp
next
  case (Cons x xs)
  obtain i mp where x: "x = (i, mp)" by (cases x)
  show ?case
  proof (cases "HANLayer_branch ops L h i mp")
    case (Inl e)
    then show ?thesis by (simp add: x)
  next
    case (Inr z)
    have "run_branches ops L h (x # xs) acc = run_branches ops L h xs (acc @ [z])"
      by (simp add: x Inr)
    also have "\<dots> = (case run_branches ops L h xs [] of Inl e \<Rightarrow> Inl e
                      | Inr ys \<Rightarrow> Inr ((acc @ [z]) @ ys))"
      by (rule Cons.IH)
    finally have lhs: "run_branches ops L h (x # xs) acc =
        (case run_branches ops L h xs [] of Inl e \<Rightarrow> Inl e | Inr ys \<Rightarrow> Inr (acc @ z # ys))"
      by (simp cong: sum.case_cong)
    have "run_branches ops L h (x # xs) [] = run_branches ops L h xs ([] @ [z])"
      by (simp add: x Inr)
    also have "\<dots> = (case run_branches ops L h xs [] of Inl e \<Rightarrow> Inl e
                      | Inr ys \<Rightarrow> Inr (([] @ [z]) @ ys))"
      by (rule Cons.IH)
    finally have rhs: "run_branches ops L h (x # xs) [] =
        (case run_branches ops L h xs [] of Inl e \<Rightarrow> Inl e | Inr ys \<Rightarrow> Inr (z # ys))"
      by (simp cong: sum.case_cong)
    show ?thesis unfolding lhs rhs by (simp split: sum.split)
  qed
qed

lemma run_branches_Cons:
  "run_branches ops L h ((i, mp) # xs) [] =
     (case HANLayer_branch ops L h i mp of
        Inl e \<Rightarrow> Inl e
      | Inr z \<Rightarrow> (case run_branches ops L h xs [] of Inl e \<Rightarrow> Inl e | Inr ys \<Rightarrow> Inr (z # ys)))"
  by (simp add: run_branches_acc[of ops L h xs "[z]" for z] split: sum.split)

lemma run_branches_Inr_iff:
  "run_branches ops L h xs [] = Inr embs \<longleftrightarrow>
     list_all2 (\<lambda>x e. HANLayer_branch ops L h (fst x) (snd x) = Inr e) xs embs"
proof (induction xs arbitrary: embs)
  case Nil
  then show ?case by auto
next
  case (Cons x xs)
  obtain i mp where x: "x = (i, mp)" by (cases x)
  show ?case
    unfolding x run_branches_Cons
    by (auto simp: list_all2_Cons1 Cons.IH[symmetric] split: sum.splits)
qed

lemma enumerate_list_nth:
  "j < length xs \<Longrightarrow> enumerate_list xs ! j = (j, xs ! j)"
  by (simp add: enumerate_list_def)

lemma length_enumerate_list: "length (enumerate_list xs) = length xs"
  by (simp add: enumerate_list_def)

lemma run_branches_enumerate_Inr_iff:
  "run_branches ops L h (enumerate_list mps) [] = Inr embs \<longleftrightarrow>
     length embs = length mps \<and>
     (\<forall>i < length mps. HANLayer_branch ops L h i (mps ! i) = Inr (embs ! i))"
  unfolding run_branches_Inr_iff list_all2_conv_all_nth length_enumerate_list
  by (auto simp: enumerate_list_nth)

text \<open>The first branch that raises ends the loop with its exception.\<close>

lemma run_branches_Inl_iff:
  "run_branches ops L h xs [] = Inl e \<longleftrightarrow>
     (\<exists>j < length xs. HANLayer_branch ops L h (fst (xs ! j)) (snd (xs ! j)) = Inl e \<and>
        (\<forall>j' < j. \<exists>z. HANLayer_branch ops L h (fst (xs ! j')) (snd (xs ! j')) = Inr z))"
proof (induction xs)
  case Nil
  then show ?case by simp
next
  case (Cons x xs)
  obtain i mp where x: "x = (i, mp)" by (cases x)
  show ?case
  proof (cases "HANLayer_branch ops L h i mp")
    case (Inl e')
    have "run_branches ops L h (x # xs) [] = Inl e'" by (simp add: x Inl)
    moreover have "(\<exists>j < length (x # xs). HANLayer_branch ops L h (fst ((x # xs) ! j)) (snd ((x # xs) ! j)) = Inl e \<and>
        (\<forall>j' < j. \<exists>z. HANLayer_branch ops L h (fst ((x # xs) ! j')) (snd ((x # xs) ! j')) = Inr z)) \<longleftrightarrow> e' = e"
    proof
      assume "\<exists>j < length (x # xs). HANLayer_branch ops L h (fst ((x # xs) ! j)) (snd ((x # xs) ! j)) = Inl e \<and>
        (\<forall>j' < j. \<exists>z. HANLayer_branch ops L h (fst ((x # xs) ! j')) (snd ((x # xs) ! j')) = Inr z)"
      then obtain j where j: "HANLayer_branch ops L h (fst ((x # xs) ! j)) (snd ((x # xs) ! j)) = Inl e"
        and before: "\<forall>j' < j. \<exists>z. HANLayer_branch ops L h (fst ((x # xs) ! j')) (snd ((x # xs) ! j')) = Inr z"
        by blast
      show "e' = e"
      proof (cases j)
        case 0
        with j Inl show ?thesis by (simp add: x)
      next
        case (Suc j0)
        with before have "\<exists>z. HANLayer_branch ops L h (fst ((x # xs) ! 0)) (snd ((x # xs) ! 0)) = Inr z"
          by blast
        with Inl show ?thesis by (simp add: x)
      qed
    next
      assume "e' = e"
      with Inl have "HANLayer_branch ops L h (fst ((x # xs) ! 0)) (snd ((x # xs) ! 0)) = Inl e"
        by (simp add: x)
      then show "\<exists>j < length (x # xs). HANLayer_branch ops L h (fst ((x # xs) ! j)) (snd ((x # xs) ! j)) = Inl e \<and>
        (\<forall>j' < j. \<exists>z. HANLayer_branch ops L h (fst ((x # xs) ! j')) (snd ((x # xs) ! j')) = Inr z)"
        by (intro exI[of _ 0]) simp
    qed
    ultimately show ?thesis by auto
  next
    case (Inr z)
    have step: "run_branches ops L h (x # xs) [] = Inl e \<longleftrightarrow> run_branches ops L h xs [] = Inl e"
      unfolding x run_branches_Cons by (simp add: Inr split: sum.split)
    have "(\<exists>j < length (x # xs). HANLayer_branch ops L h (fst ((x # xs) ! j)) (snd ((x # xs) ! j)) = Inl e \<and>
        (\<forall>j' < j. \<exists>z. HANLayer_branch ops L h (fst ((x # xs) ! j')) (snd ((x # xs) ! j')) = Inr z)) \<longleftrightarrow>
      (\<exists>j < length xs. HANLayer_branch ops L h (fst (xs ! j)) (snd (xs ! j)) = Inl e \<and>
        (\<forall>j' < j. \<exists>z. HANLayer_branch ops L h (fst (xs ! j')) (snd (xs ! j')) = Inr z))"
      (is "?A \<longleftrightarrow> ?B")
    proof
      assume ?A
      then obtain j where jl: "j < length (x # xs)"
        and j: "HANLayer_branch ops L h (fst ((x # xs) ! j)) (snd ((x # xs) ! j)) = Inl e"
        and before: "\<forall>j' < j. \<exists>z. HANLayer_branch ops L h (fst ((x # xs) ! j')) (snd ((x # xs) ! j')) = Inr z"
        by blast
      from j Inr obtain j0 where j0: "j = Suc j0" by (cases j) (auto simp: x)
      have "\<forall>j' < j0. \<exists>z. HANLayer_branch ops L h (fst (xs ! j')) (snd (xs ! j')) = Inr z"
      proof (intro allI impI)
        fix j' assume "j' < j0"
        then have "Suc j' < j" using j0 by simp
        with before have "\<exists>z. HANLayer_branch ops L h (fst ((x # xs) ! Suc j')) (snd ((x # xs) ! Suc j')) = Inr z"
          by blast
        then show "\<exists>z. HANLayer_branch ops L h (fst (xs ! j')) (snd (xs ! j')) = Inr z" by simp
      qed
      with jl j j0 show ?B by (intro exI[of _ j0]) simp
    next
      assume ?B
      then obtain j where jl: "j < length xs"
        and j: "HANLayer_branch ops L h (fst (xs ! j)) (snd (xs ! j)) = Inl e"
        and before: "\<forall>j' < j. \<exists>z. HANLayer_branch ops L h (fst (xs ! j')) (snd (xs ! j')) = Inr z"
        by blast
      have "\<forall>j' < Suc j. \<exists>z. HANLayer_branch ops L h (fst ((x # xs) ! j')) (snd ((x # xs) ! j')) = Inr z"
      proof (intro allI impI)
        fix j' assume "j' < Suc j"
        then show "\<exists>z. HANLayer_branch ops L h (fst ((x # xs) ! j')) (snd ((x # xs) ! j')) = Inr z"
          using before Inr by (cases j') (auto simp: x)
      qed
      with jl j show ?A by (intro exI[of _ "Suc j"]) simp
    qed
    with step Cons.IH show ?thesis by simp
  qed
qed

section \<open>The cache of projected subgraphs\<close>

lemma project_all_Inl:
  "metapath_reachable_graph ops g mp = Inl e \<Longrightarrow>
   project_all ops g (mp # rest) c = (c, [(ident g, mp)], Some e)"
  by simp

lemma project_all_Inr:
  "metapath_reachable_graph ops g mp = Inr sg \<Longrightarrow>
   project_all ops g (mp # rest) c =
     (fst (project_all ops g rest (c(mp \<mapsto> sg))),
      (ident g, mp) # fst (snd (project_all ops g rest (c(mp \<mapsto> sg)))),
      snd (snd (project_all ops g rest (c(mp \<mapsto> sg)))))"
  by (simp split: prod.splits)

declare project_all.simps(2) [simp del]

lemma project_all_ok:
  "(\<forall>mp \<in> set mps. \<exists>sg. metapath_reachable_graph ops g mp = Inr sg) \<Longrightarrow>
   project_all ops g mps c =
     (\<lambda>mp. if mp \<in> set mps
           then (case metapath_reachable_graph ops g mp of Inl e \<Rightarrow> None | Inr sg \<Rightarrow> Some sg)
           else c mp,
      map (Pair (ident g)) mps, None)"
proof (induction mps arbitrary: c)
  case Nil
  then show ?case by simp
next
  case (Cons mp rest)
  from Cons.prems obtain sg where sg: "metapath_reachable_graph ops g mp = Inr sg" by auto
  have rest: "\<forall>mp \<in> set rest. \<exists>sg. metapath_reachable_graph ops g mp = Inr sg"
    using Cons.prems by simp
  have "(\<lambda>x. if x \<in> set rest
           then (case metapath_reachable_graph ops g x of Inl e \<Rightarrow> None | Inr sg \<Rightarrow> Some sg)
           else (c(mp \<mapsto> sg)) x) =
        (\<lambda>x. if x \<in> set (mp # rest)
           then (case metapath_reachable_graph ops g x of Inl e \<Rightarrow> None | Inr sg \<Rightarrow> Some sg)
           else c x)"
    by (rule ext) (simp add: sg)
  then show ?case
    by (simp add: project_all_Inr[OF sg] Cons.IH[OF rest])
qed

lemma project_all_trace:
  "\<exists>n \<le> length mps. fst (snd (project_all ops g mps c)) = map (Pair (ident g)) (take n mps) \<and>
      dom (fst (project_all ops g mps c)) \<subseteq> dom c \<union> set (take n mps)"
proof (induction mps arbitrary: c)
  case Nil
  then show ?case by simp
next
  case (Cons mp rest)
  show ?case
  proof (cases "metapath_reachable_graph ops g mp")
    case (Inl e)
    then show ?thesis by (intro exI[of _ 1]) (auto simp: project_all_Inl)
  next
    case (Inr sg)
    from Cons.IH[of "c(mp \<mapsto> sg)"] obtain n where n: "n \<le> length rest"
      and tr: "fst (snd (project_all ops g rest (c(mp \<mapsto> sg)))) = map (Pair (ident g)) (take n rest)"
      and d: "dom (fst (project_all ops g rest (c(mp \<mapsto> sg)))) \<subseteq> dom (c(mp \<mapsto> sg)) \<union> set (take n rest)"
      by blast
    from n tr d show ?thesis
      by (intro exI[of _ "Suc n"]) (auto simp: project_all_Inr[OF Inr])
  qed
qed

lemma project_all_None_iff:
  "snd (snd (project_all ops g mps c)) = None \<longleftrightarrow>
     (\<forall>mp \<in> set mps. \<exists>sg. metapath_reachable_graph ops g mp = Inr sg)"
proof (induction mps arbitrary: c)
  case Nil
  then show ?case by simp
next
  case (Cons mp rest)
  show ?case
  proof (cases "metapath_reachable_graph ops g mp")
    case (Inl e)
    then show ?thesis by (auto simp: project_all_Inl)
  next
    case (Inr sg)
    then show ?thesis by (auto simp: project_all_Inr[OF Inr] Cons.IH)
  qed
qed

lemma project_all_Some:
  "snd (snd (project_all ops g mps c)) = Some e \<Longrightarrow>
     \<exists>j < length mps. metapath_reachable_graph ops g (mps ! j) = Inl e \<and>
        (\<forall>j' < j. \<exists>sg. metapath_reachable_graph ops g (mps ! j') = Inr sg) \<and>
        fst (snd (project_all ops g mps c)) = map (Pair (ident g)) (take (Suc j) mps)"
proof (induction mps arbitrary: c)
  case Nil
  then show ?case by simp
next
  case (Cons mp rest)
  show ?case
  proof (cases "metapath_reachable_graph ops g mp")
    case (Inl e')
    with Cons.prems have "e' = e" by (simp add: project_all_Inl)
    with Inl show ?thesis by (intro exI[of _ 0]) (simp add: project_all_Inl)
  next
    case (Inr sg)
    with Cons.prems have "snd (snd (project_all ops g rest (c(mp \<mapsto> sg)))) = Some e"
      by (simp add: project_all_Inr[OF Inr])
    from Cons.IH[OF this] obtain j where jl: "j < length rest"
      and j: "metapath_reachable_graph ops g (rest ! j) = Inl e"
      and before: "\<forall>j' < j. \<exists>sg. metapath_reachable_graph ops g (rest ! j') = Inr sg"
      and tr: "fst (snd (project_all ops g rest (c(mp \<mapsto> sg)))) = map (Pair (ident g)) (take (Suc j) rest)"
      by blast
    have "\<forall>j' < Suc j. \<exists>sg. metapath_reachable_graph ops g ((mp # rest) ! j') = Inr sg"
    proof (intro allI impI)
      fix j' assume "j' < Suc j"
      then show "\<exists>sg. metapath_reachable_graph ops g ((mp # rest) ! j') = Inr sg"
        using before Inr by (cases j') auto
    qed
    with jl j tr show ?thesis
      by (intro exI[of _ "Suc j"]) (simp add: project_all_Inr[OF Inr])
  qed
qed

subsection \<open>The identity test\<close>

lemma refresh_cache_same:
  "cached_graph L = Some (ident g) \<Longrightarrow> refresh_cache ops L g = (L, [], None)"
  by (simp add: refresh_cache_def)

lemma refresh_cache_other:
  "cached_graph L \<noteq> Some (ident g) \<Longrightarrow>
   refresh_cache ops L g =
     (L\<lparr>cached_graph := Some (ident g),
        cached_coalesced_graph := fst (project_all ops g (meta_paths L) Map.empty)\<rparr>,
      fst (snd (project_all ops g (meta_paths L) Map.empty)),
      snd (snd (project_all ops g (meta_paths L) Map.empty)))"
  by (auto simp: refresh_cache_def split: prod.splits)

lemma refresh_cache_cached_graph:
  "cached_graph (fst (refresh_cache ops L g)) = Some (ident g)"
  by (cases "cached_graph L = Some (ident g)")
     (simp_all add: refresh_cache_same refresh_cache_other)

lemma refresh_cache_frame:
  "meta_paths (fst (refresh_cache ops L g)) = meta_paths L \<and>
   gat_layers (fst (refresh_cache ops L g)) = gat_layers L \<and>
   semantic_attention (fst (refresh_cache ops L g)) = semantic_attention L"
  by (cases "cached_graph L = Some (ident g)")
     (simp_all add: refresh_cache_same refresh_cache_other)

lemma HANLayer_forward_fst: "fst (HANLayer_forward ops L g h) = fst (refresh_cache ops L g)"
  by (simp add: HANLayer_forward_def split: prod.splits option.splits sum.splits)

lemma HANLayer_forward_trace:
  "fst (snd (HANLayer_forward ops L g h)) = fst (snd (refresh_cache ops L g))"
  by (simp add: HANLayer_forward_def split: prod.splits option.splits sum.splits)

lemma projected_eq:
  "(\<lambda>mp. if mp \<in> set mps
           then (case metapath_reachable_graph ops g mp of Inl e \<Rightarrow> None | Inr sg \<Rightarrow> Some sg)
           else Map.empty mp) = projected ops g mps"
  by (simp add: projected_def)

text \<open>
  C2. Cache identity invalidation. A forward pass on the graph object the cache belongs
  to makes no projection call and leaves the layer, and so the cached mapping,
  unchanged; in particular the second of two passes on the same object does, whatever
  the object holds by then and whether or not the first pass raised. A forward pass on
  another object (or the first pass) empties the cache and, when the projections return,
  makes exactly one projection call per configured metapath, in declared order, and
  stores their results under no other key. In any case it calls the projection at most
  once per metapath, in order, and no old key survives.
\<close>

theorem C2_cache_identity:
  "(cached_graph L = Some (ident g) \<longrightarrow>
      fst (HANLayer_forward ops L g h) = L \<and> fst (snd (HANLayer_forward ops L g h)) = [])
   \<and> (ident g' = ident g \<longrightarrow>
        fst (snd (HANLayer_forward ops (fst (HANLayer_forward ops L g h)) g' h')) = [] \<and>
        fst (HANLayer_forward ops (fst (HANLayer_forward ops L g h)) g' h') =
          fst (HANLayer_forward ops L g h))
   \<and> (cached_graph L \<noteq> Some (ident g) \<and>
        (\<forall>mp \<in> set (meta_paths L). \<exists>sg. metapath_reachable_graph ops g mp = Inr sg) \<longrightarrow>
        fst (snd (HANLayer_forward ops L g h)) = map (Pair (ident g)) (meta_paths L) \<and>
        length (fst (snd (HANLayer_forward ops L g h))) = length (meta_paths L) \<and>
        cached_graph (fst (HANLayer_forward ops L g h)) = Some (ident g) \<and>
        cached_coalesced_graph (fst (HANLayer_forward ops L g h)) =
          projected ops g (meta_paths L))
   \<and> (cached_graph L \<noteq> Some (ident g) \<longrightarrow>
        (\<exists>n \<le> length (meta_paths L).
           fst (snd (HANLayer_forward ops L g h)) = map (Pair (ident g)) (take n (meta_paths L)) \<and>
           dom (cached_coalesced_graph (fst (HANLayer_forward ops L g h))) \<subseteq>
             set (take n (meta_paths L))))"
proof (intro conjI impI)
  assume "cached_graph L = Some (ident g)"
  then show "fst (HANLayer_forward ops L g h) = L"
    by (simp add: HANLayer_forward_fst refresh_cache_same)
next
  assume "cached_graph L = Some (ident g)"
  then show "fst (snd (HANLayer_forward ops L g h)) = []"
    by (simp add: HANLayer_forward_trace refresh_cache_same)
next
  assume same: "ident g' = ident g"
  define L1 where "L1 = fst (HANLayer_forward ops L g h)"
  have "cached_graph L1 = Some (ident g')"
    unfolding L1_def by (simp add: HANLayer_forward_fst refresh_cache_cached_graph same)
  then have r: "refresh_cache ops L1 g' = (L1, [], None)"
    by (rule refresh_cache_same)
  have "fst (snd (HANLayer_forward ops L1 g' h')) = []"
    unfolding HANLayer_forward_trace r by simp
  then show "fst (snd (HANLayer_forward ops (fst (HANLayer_forward ops L g h)) g' h')) = []"
    unfolding L1_def .
  have "fst (HANLayer_forward ops L1 g' h') = L1"
    unfolding HANLayer_forward_fst r by simp
  then show "fst (HANLayer_forward ops (fst (HANLayer_forward ops L g h)) g' h') =
          fst (HANLayer_forward ops L g h)"
    unfolding L1_def .
next
  assume a: "cached_graph L \<noteq> Some (ident g) \<and>
        (\<forall>mp \<in> set (meta_paths L). \<exists>sg. metapath_reachable_graph ops g mp = Inr sg)"
  then have p: "project_all ops g (meta_paths L) Map.empty =
      (projected ops g (meta_paths L), map (Pair (ident g)) (meta_paths L), None)"
    by (simp add: project_all_ok projected_eq)
  from a show "fst (snd (HANLayer_forward ops L g h)) = map (Pair (ident g)) (meta_paths L)"
    by (simp add: HANLayer_forward_trace refresh_cache_other p)
  then show "length (fst (snd (HANLayer_forward ops L g h))) = length (meta_paths L)"
    by simp
  from a show "cached_graph (fst (HANLayer_forward ops L g h)) = Some (ident g)"
    by (simp add: HANLayer_forward_fst refresh_cache_other)
  from a show "cached_coalesced_graph (fst (HANLayer_forward ops L g h)) =
          projected ops g (meta_paths L)"
    by (simp add: HANLayer_forward_fst refresh_cache_other p)
next
  assume a: "cached_graph L \<noteq> Some (ident g)"
  from project_all_trace[of "meta_paths L" ops g Map.empty]
  obtain n where "n \<le> length (meta_paths L)"
    and "fst (snd (project_all ops g (meta_paths L) Map.empty)) =
           map (Pair (ident g)) (take n (meta_paths L))"
    and "dom (fst (project_all ops g (meta_paths L) Map.empty)) \<subseteq> set (take n (meta_paths L))"
    by auto
  with a show "\<exists>n \<le> length (meta_paths L).
           fst (snd (HANLayer_forward ops L g h)) = map (Pair (ident g)) (take n (meta_paths L)) \<and>
           dom (cached_coalesced_graph (fst (HANLayer_forward ops L g h))) \<subseteq>
             set (take n (meta_paths L))"
    by (intro exI[of _ n]) (simp add: HANLayer_forward_trace HANLayer_forward_fst refresh_cache_other)
qed


theorem C2_cache_identity_witness:
  "cached_graph demo_layer = None
   \<and> metapath_reachable_graph demo_ops demo_hg [et_write, et_written_by] =
        Inr \<lparr>num_nodes = 2, edges = [(0, 0)]\<rparr>
   \<and> fst (snd (HANLayer_forward demo_ops demo_layer demo_hg demo_features)) =
        [(1, [et_write, et_written_by])]
   \<and> cached_coalesced_graph (fst (HANLayer_forward demo_ops demo_layer demo_hg demo_features))
        [et_write, et_written_by] = Some \<lparr>num_nodes = 2, edges = [(0, 0)]\<rparr>
   \<and> ident demo_hg_mutated = ident demo_hg
   \<and> fst (snd (HANLayer_forward demo_ops
         (fst (HANLayer_forward demo_ops demo_layer demo_hg demo_features))
         demo_hg_mutated demo_features)) = []
   \<and> fst (HANLayer_forward demo_ops
         (fst (HANLayer_forward demo_ops demo_layer demo_hg demo_features))
         demo_hg_mutated demo_features) =
       fst (HANLayer_forward demo_ops demo_layer demo_hg demo_features)
   \<and> fst (snd (HANLayer_forward demo_ops
         (fst (HANLayer_forward demo_ops demo_layer demo_hg demo_features))
         demo_hg_copy demo_features)) = [(2, [et_write, et_written_by])]"
proof -
  let ?mp = "[et_write, et_written_by]"
  let ?L1 = "fst (HANLayer_forward demo_ops demo_layer demo_hg demo_features)"
  have mps: "meta_paths demo_layer = [?mp]" and fresh: "cached_graph demo_layer = None"
    by (simp_all add: demo_layer_def HANLayer_make_def)
  have p1: "metapath_reachable_graph demo_ops demo_hg ?mp = Inr \<lparr>num_nodes = 2, edges = [(0, 0)]\<rparr>"
    by (simp add: demo_ops_def demo_project_def demo_hg_def et_write_def et_written_by_def)
  have p2: "metapath_reachable_graph demo_ops demo_hg_copy ?mp = Inr \<lparr>num_nodes = 2, edges = [(0, 0)]\<rparr>"
    by (simp add: demo_ops_def demo_project_def demo_hg_copy_def demo_hg_def et_write_def
        et_written_by_def)
  have id1: "ident demo_hg = 1" and id2: "ident demo_hg_copy = 2"
    and idm: "ident demo_hg_mutated = ident demo_hg"
    by (simp_all add: demo_hg_def demo_hg_copy_def demo_hg_mutated_def)
  have h1: "cached_graph demo_layer \<noteq> Some (ident demo_hg) \<and>
      (\<forall>mp \<in> set (meta_paths demo_layer). \<exists>sg. metapath_reachable_graph demo_ops demo_hg mp = Inr sg)"
    by (simp add: fresh mps p1)
  note first = C2_cache_identity [of demo_layer demo_hg demo_ops demo_features demo_hg_mutated demo_features]
  from first h1 have tr1: "fst (snd (HANLayer_forward demo_ops demo_layer demo_hg demo_features)) =
      map (Pair (ident demo_hg)) (meta_paths demo_layer)"
    and cg1: "cached_graph ?L1 = Some (ident demo_hg)"
    and cc1: "cached_coalesced_graph ?L1 = projected demo_ops demo_hg (meta_paths demo_layer)"
    by blast+
  from first idm have tr2: "fst (snd (HANLayer_forward demo_ops ?L1 demo_hg_mutated demo_features)) = []"
    and same2: "fst (HANLayer_forward demo_ops ?L1 demo_hg_mutated demo_features) = ?L1"
    by blast+
  have mps1: "meta_paths ?L1 = [?mp]"
    by (simp add: HANLayer_forward_fst refresh_cache_frame mps)
  have h3: "cached_graph ?L1 \<noteq> Some (ident demo_hg_copy) \<and>
      (\<forall>mp \<in> set (meta_paths ?L1). \<exists>sg. metapath_reachable_graph demo_ops demo_hg_copy mp = Inr sg)"
    by (simp add: cg1 id1 id2 mps1 p2)
  note third = C2_cache_identity [of ?L1 demo_hg_copy demo_ops demo_features demo_hg_copy demo_features]
  from third h3 have tr3: "fst (snd (HANLayer_forward demo_ops ?L1 demo_hg_copy demo_features)) =
      map (Pair (ident demo_hg_copy)) (meta_paths ?L1)"
    by blast
  have c1: "cached_coalesced_graph ?L1 ?mp = Some \<lparr>num_nodes = 2, edges = [(0, 0)]\<rparr>"
    by (simp add: cc1 projected_def mps p1)
  show ?thesis
    using fresh p1 tr1 c1 idm tr2 same2 tr3
    by (simp add: mps mps1 id1 id2)
qed

section \<open>Where the stack puts its arguments\<close>

lemma concat_blocks_take:
  "concat (map (\<lambda>r. take w (drop (r * w) xs)) [0..<n]) = take (n * w) xs"
proof (induction n)
  case 0
  then show ?case by simp
next
  case (Suc n)
  have "Suc n * w = n * w + w" by simp
  then have "take (Suc n * w) xs = take (n * w) xs @ take w (drop (n * w) xs)"
    by (simp only: take_add)
  with Suc show ?case by (simp del: mult_Suc)
qed

lemma uniform_block:
  "\<forall>x \<in> set xs. length (f x) = w \<Longrightarrow> i < length xs \<Longrightarrow>
   take w (drop (i * w) (concat (map f xs))) = f (xs ! i)"
proof (induction xs arbitrary: i)
  case Nil
  then show ?case by simp
next
  case (Cons x xs)
  have lx: "length (f x) = w" using Cons.prems(1) by simp
  show ?case
  proof (cases i)
    case 0
    then show ?thesis by (simp add: lx)
  next
    case (Suc j)
    then have "j < length xs" using Cons.prems(2) by simp
    moreover have "\<forall>x \<in> set xs. length (f x) = w" using Cons.prems(1) by simp
    ultimately have "take w (drop (j * w) (concat (map f xs))) = f (xs ! j)"
      by (rule Cons.IH[rotated])
    then show ?thesis by (simp add: Suc lx)
  qed
qed

lemma length_concat_uniform:
  "\<forall>x \<in> set xs. length (f x) = w \<Longrightarrow> length (concat (map f xs)) = length xs * w"
  by (induction xs) auto

lemma take_drop_take:
  "a + b \<le> c \<Longrightarrow> take a (drop b (take c xs)) = take a (drop b xs)"
  by (simp add: drop_take min_def)

lemma length_row:
  "length (data t) = n * w \<Longrightarrow> r < n \<Longrightarrow> length (row w r t) = w"
proof -
  assume l: "length (data t) = n * w" and r: "r < n"
  have "r * w + w \<le> n * w"
  proof -
    have "Suc r * w \<le> n * w" using r by (intro mult_le_mono1) simp
    then show ?thesis by (simp add: add.commute)
  qed
  then show ?thesis using l by (simp add: row_def)
qed

lemma stack_block:
  assumes len: "\<forall>t \<in> set ts. length (data t) = n * w"
    and r: "r < n" and i: "i < length ts"
  shows "take w (drop ((r * length ts + i) * w)
           (concat (map (\<lambda>r. concat (map (row w r) ts)) [0..<n]))) = row w r (ts ! i)"
proof -
  let ?M = "length ts"
  let ?B = "\<lambda>r. concat (map (row w r) ts)"
  let ?Z = "concat (map ?B [0..<n])"
  have rows: "\<forall>r \<in> set [0..<n]. \<forall>t \<in> set ts. length (row w r t) = w"
    using len by (auto intro: length_row)
  have blen: "\<forall>r \<in> set [0..<n]. length (?B r) = ?M * w"
    using rows by (auto intro!: length_concat_uniform)
  have rl: "r < length [0..<n]" using r by simp
  have outer: "take (?M * w) (drop (r * (?M * w)) ?Z) = ?B ([0..<n] ! r)"
    using blen rl by (rule uniform_block)
  have inner: "take w (drop (i * w) (?B r)) = row w r (ts ! i)"
  proof (rule uniform_block)
    show "\<forall>t \<in> set ts. length (row w r t) = w" using rows r by simp
    show "i < length ts" by (rule i)
  qed
  have le: "w + i * w \<le> ?M * w"
  proof -
    have "Suc i * w \<le> ?M * w" using i by (intro mult_le_mono1) simp
    then show ?thesis by simp
  qed
  have "(r * ?M + i) * w = i * w + r * (?M * w)"
    by (simp add: algebra_simps)
  then have "take w (drop ((r * ?M + i) * w) ?Z) = take w (drop (i * w) (drop (r * (?M * w)) ?Z))"
    by (simp only: drop_drop)
  also have "\<dots> = take w (drop (i * w) (take (?M * w) (drop (r * (?M * w)) ?Z)))"
    using le by (simp only: take_drop_take)
  also have "\<dots> = take w (drop (i * w) (?B r))"
    using outer r by simp
  also have "\<dots> = row w r (ts ! i)" by (rule inner)
  finally show ?thesis .
qed

lemma torch_stack1_shape:
  "torch_stack1 ts = Inr z \<Longrightarrow> t \<in> set ts \<Longrightarrow>
   \<exists>n rest. shape t = n # rest \<and> shape z = n # length ts # rest"
  by (auto simp: torch_stack1_def list_all_iff split: list.splits if_splits)

lemma torch_stack1_select1:
  assumes st: "torch_stack1 ts = Inr z" and wf: "\<forall>t \<in> set ts. wf_tensor t"
    and i: "i < length ts"
  shows "select1 z i = ts ! i"
proof -
  from st obtain t0 ts' where ts: "ts = t0 # ts'"
    by (cases ts) (auto simp: torch_stack1_def)
  from st have same: "\<forall>u \<in> set ts. shape u = shape t0"
    by (auto simp: torch_stack1_def ts list_all_iff split: if_splits)
  from st obtain n rest where sh0: "shape t0 = n # rest"
    by (cases "shape t0") (auto simp: torch_stack1_def ts split: if_splits)
  let ?w = "prod_list rest"
  have z: "z = \<lparr>shape = n # length ts # rest,
       data = concat (map (\<lambda>r. concat (map (row ?w r) ts)) [0..<n])\<rparr>"
    using st same sh0 unfolding torch_stack1_def ts
    by (simp add: list_all_iff split: if_splits)
  have len: "\<forall>t \<in> set ts. length (data t) = n * ?w"
    using wf same sh0 by (auto simp: wf_tensor_def)
  have ti: "ts ! i \<in> set ts" using i by simp
  have shi: "shape (ts ! i) = n # rest" using same sh0 ti by auto
  have "data (select1 z i) =
      concat (map (\<lambda>r. take ?w (drop ((r * length ts + i) * ?w)
        (concat (map (\<lambda>r. concat (map (row ?w r) ts)) [0..<n])))) [0..<n])"
    by (simp add: select1_def z)
  also have "\<dots> = concat (map (\<lambda>r. row ?w r (ts ! i)) [0..<n])"
  proof (rule arg_cong[where f = concat], rule map_cong[OF refl])
    fix r assume "r \<in> set [0..<n]"
    then have "r < n" by simp
    with len i show "take ?w (drop ((r * length ts + i) * ?w)
        (concat (map (\<lambda>r. concat (map (row ?w r) ts)) [0..<n]))) = row ?w r (ts ! i)"
      by (intro stack_block) auto
  qed
  also have "\<dots> = take (n * ?w) (data (ts ! i))"
    unfolding row_def by (rule concat_blocks_take)
  also have "\<dots> = data (ts ! i)"
    using len ti by simp
  finally have d: "data (select1 z i) = data (ts ! i)" .
  have s: "shape (select1 z i) = shape (ts ! i)"
    by (simp add: select1_def z shi)
  from d s show ?thesis by simp
qed

section \<open>The forward pass of a layer\<close>

lemma HANLayer_forward_result:
  "snd (snd (HANLayer_forward ops L g h)) =
     (case snd (snd (refresh_cache ops L g)) of
        Some e \<Rightarrow> Inl e
      | None \<Rightarrow>
          (case run_branches ops (fst (refresh_cache ops L g)) h
                  (enumerate_list (meta_paths L)) [] of
             Inl e \<Rightarrow> Inl e
           | Inr embs \<Rightarrow>
               (case torch_stack1 embs of
                  Inl e \<Rightarrow> Inl e
                | Inr stacked \<Rightarrow>
                    SemanticAttention_forward ops (semantic_attention L) stacked)))"
proof -
  obtain L1 tr r where rc: "refresh_cache ops L g = (L1, tr, r)"
    by (cases "refresh_cache ops L g")
  have mp: "meta_paths L1 = meta_paths L" and sa: "semantic_attention L1 = semantic_attention L"
    using refresh_cache_frame[of ops L g] by (simp_all add: rc)
  show ?thesis
    by (simp add: HANLayer_forward_def rc mp sa split: option.split sum.split)
qed

lemma HANLayer_forward_Inr:
  assumes "snd (snd (HANLayer_forward ops L g h)) = Inr out"
  shows "snd (snd (refresh_cache ops L g)) = None \<and>
     (\<exists>embs stacked.
        run_branches ops (fst (refresh_cache ops L g)) h (enumerate_list (meta_paths L)) [] =
          Inr embs \<and>
        torch_stack1 embs = Inr stacked \<and>
        SemanticAttention_forward ops (semantic_attention L) stacked = Inr out)"
  using assms unfolding HANLayer_forward_result
  by (auto split: option.splits sum.splits)

lemma HANLayer_branch_Inr:
  "HANLayer_branch ops L h i mp = Inr z \<longleftrightarrow>
     (\<exists>new_g y. cached_coalesced_graph L mp = Some new_g \<and> i < length (gat_layers L) \<and>
        GATConv_forward ops (gat_layers L ! i) new_g h = Inr y \<and> torch_flatten1 y = Inr z)"
  by (auto simp: HANLayer_branch_def split: option.splits sum.splits)

lemma refresh_cache_None_other:
  assumes "cached_graph L \<noteq> Some (ident g)" and "snd (snd (refresh_cache ops L g)) = None"
  shows "cached_coalesced_graph (fst (refresh_cache ops L g)) = projected ops g (meta_paths L)"
proof -
  from assms have "\<forall>mp \<in> set (meta_paths L). \<exists>sg. metapath_reachable_graph ops g mp = Inr sg"
    by (simp add: refresh_cache_other project_all_None_iff)
  then have "project_all ops g (meta_paths L) Map.empty =
      (projected ops g (meta_paths L), map (Pair (ident g)) (meta_paths L), None)"
    by (simp add: project_all_ok projected_eq)
  with assms(1) show ?thesis by (simp add: refresh_cache_other)
qed

lemma torch_flatten1_wf: "torch_flatten1 y = Inr z \<Longrightarrow> wf_tensor y \<Longrightarrow> wf_tensor z"
  by (auto simp: torch_flatten1_def wf_tensor_def split: list.splits)

lemma torch_flatten1_data: "torch_flatten1 y = Inr z \<Longrightarrow> data z = data y"
  by (auto simp: torch_flatten1_def split: list.splits)

lemma demo_gat_Inr:
  "GATConv_forward demo_ops m sg h = Inr y \<Longrightarrow>
   wf_tensor y \<and> data y = replicate (num_nodes sg * (gat_num_heads m * out_feats m)) (gat_id m)"
  by (auto simp: demo_ops_def demo_gat_def wf_tensor_def split: if_splits)


text \<open>
  C6. Order preservation. In a forward pass that returns, the embedding at position \<open>i\<close>
  is the flattened output of the module at position \<open>i\<close> of the module list, run on the
  cached projected subgraph of the metapath at position \<open>i\<close> of the declared list (the
  projection of the incoming graph along that metapath when the cache was refilled) and
  on the input features; the embeddings are stacked in that order, so that index \<open>i\<close> of
  the metapath axis of the stacked tensor holds embedding \<open>i\<close>; and the combiner receives
  that stacked tensor.
\<close>

theorem C6_order_preservation:
  "snd (snd (HANLayer_forward ops L g h)) = Inr out \<longrightarrow>
     (\<exists>embs stacked.
        length embs = length (meta_paths L) \<and>
        (\<forall>i < length (meta_paths L). \<exists>new_g y.
            cached_coalesced_graph (fst (HANLayer_forward ops L g h)) (meta_paths L ! i) =
              Some new_g \<and>
            (cached_graph L \<noteq> Some (ident g) \<longrightarrow>
               metapath_reachable_graph ops g (meta_paths L ! i) = Inr new_g) \<and>
            i < length (gat_layers L) \<and>
            GATConv_forward ops (gat_layers L ! i) new_g h = Inr y \<and>
            torch_flatten1 y = Inr (embs ! i)) \<and>
        torch_stack1 embs = Inr stacked \<and>
        ((\<forall>e \<in> set embs. wf_tensor e) \<longrightarrow> (\<forall>i < length embs. select1 stacked i = embs ! i)) \<and>
        SemanticAttention_forward ops (semantic_attention L) stacked = Inr out)"
proof
  assume ok: "snd (snd (HANLayer_forward ops L g h)) = Inr out"
  let ?L1 = "fst (refresh_cache ops L g)"
  from HANLayer_forward_Inr[OF ok] obtain embs stacked
    where none: "snd (snd (refresh_cache ops L g)) = None"
      and rb: "run_branches ops ?L1 h (enumerate_list (meta_paths L)) [] = Inr embs"
      and st: "torch_stack1 embs = Inr stacked"
      and sa: "SemanticAttention_forward ops (semantic_attention L) stacked = Inr out"
    by blast
  from rb have len: "length embs = length (meta_paths L)"
    and br: "\<forall>i < length (meta_paths L). HANLayer_branch ops ?L1 h i (meta_paths L ! i) = Inr (embs ! i)"
    by (simp_all add: run_branches_enumerate_Inr_iff)
  have gl: "gat_layers ?L1 = gat_layers L" using refresh_cache_frame[of ops L g] by simp
  have each: "\<forall>i < length (meta_paths L). \<exists>new_g y.
            cached_coalesced_graph (fst (HANLayer_forward ops L g h)) (meta_paths L ! i) =
              Some new_g \<and>
            (cached_graph L \<noteq> Some (ident g) \<longrightarrow>
               metapath_reachable_graph ops g (meta_paths L ! i) = Inr new_g) \<and>
            i < length (gat_layers L) \<and>
            GATConv_forward ops (gat_layers L ! i) new_g h = Inr y \<and>
            torch_flatten1 y = Inr (embs ! i)"
  proof (intro allI impI)
    fix i assume i: "i < length (meta_paths L)"
    with br have "HANLayer_branch ops ?L1 h i (meta_paths L ! i) = Inr (embs ! i)" by simp
    then obtain new_g y where c: "cached_coalesced_graph ?L1 (meta_paths L ! i) = Some new_g"
      and il: "i < length (gat_layers L)"
      and gat: "GATConv_forward ops (gat_layers L ! i) new_g h = Inr y"
      and fl: "torch_flatten1 y = Inr (embs ! i)"
      unfolding HANLayer_branch_Inr gl by blast
    have fresh: "cached_graph L \<noteq> Some (ident g) \<longrightarrow>
               metapath_reachable_graph ops g (meta_paths L ! i) = Inr new_g"
    proof
      assume other: "cached_graph L \<noteq> Some (ident g)"
      have "cached_coalesced_graph ?L1 = projected ops g (meta_paths L)"
        using other none by (rule refresh_cache_None_other)
      with c i show "metapath_reachable_graph ops g (meta_paths L ! i) = Inr new_g"
        by (simp add: projected_def split: sum.splits)
    qed
    from c fresh il gat fl show "\<exists>new_g y.
            cached_coalesced_graph (fst (HANLayer_forward ops L g h)) (meta_paths L ! i) =
              Some new_g \<and>
            (cached_graph L \<noteq> Some (ident g) \<longrightarrow>
               metapath_reachable_graph ops g (meta_paths L ! i) = Inr new_g) \<and>
            i < length (gat_layers L) \<and>
            GATConv_forward ops (gat_layers L ! i) new_g h = Inr y \<and>
            torch_flatten1 y = Inr (embs ! i)"
      unfolding HANLayer_forward_fst by blast
  qed
  have sel: "(\<forall>e \<in> set embs. wf_tensor e) \<longrightarrow> (\<forall>i < length embs. select1 stacked i = embs ! i)"
    using st by (auto intro: torch_stack1_select1)
  from len each st sel sa show "\<exists>embs stacked.
        length embs = length (meta_paths L) \<and>
        (\<forall>i < length (meta_paths L). \<exists>new_g y.
            cached_coalesced_graph (fst (HANLayer_forward ops L g h)) (meta_paths L ! i) =
              Some new_g \<and>
            (cached_graph L \<noteq> Some (ident g) \<longrightarrow>
               metapath_reachable_graph ops g (meta_paths L ! i) = Inr new_g) \<and>
            i < length (gat_layers L) \<and>
            GATConv_forward ops (gat_layers L ! i) new_g h = Inr y \<and>
            torch_flatten1 y = Inr (embs ! i)) \<and>
        torch_stack1 embs = Inr stacked \<and>
        ((\<forall>e \<in> set embs. wf_tensor e) \<longrightarrow> (\<forall>i < length embs. select1 stacked i = embs ! i)) \<and>
        SemanticAttention_forward ops (semantic_attention L) stacked = Inr out"
    by (intro exI[of _ embs] exI[of _ stacked] conjI)
qed


theorem C6_order_preservation_witness:
  "snd (snd (HANLayer_forward demo_ops demo_layer2 demo_hg2 demo_features)) =
     Inr \<lparr>shape = [2, 16], data = replicate 32 2\<rparr>
   \<and> map gat_id (gat_layers demo_layer2) = [0, 1]
   \<and> meta_paths demo_layer2 = [[et_write, et_written_by], [et_attend, et_hosts]]
   \<and> (\<exists>embs stacked.
        length embs = 2 \<and>
        data (embs ! 0) = replicate 32 0 \<and>
        data (embs ! 1) = replicate 32 1 \<and>
        torch_stack1 embs = Inr stacked \<and>
        select1 stacked 0 = embs ! 0 \<and>
        select1 stacked 1 = embs ! 1 \<and>
        SemanticAttention_forward demo_ops (semantic_attention demo_layer2) stacked =
          Inr \<lparr>shape = [2, 16], data = replicate 32 2\<rparr>)"
proof -
  let ?out = "\<lparr>shape = [2, 16], data = replicate 32 (2::nat)\<rparr>"
  let ?mp0 = "[et_write, et_written_by]" and ?mp1 = "[et_attend, et_hosts]"
  have run: "snd (snd (HANLayer_forward demo_ops demo_layer2 demo_hg2 demo_features)) = Inr ?out"
    by code_simp
  have mps: "meta_paths demo_layer2 = [?mp0, ?mp1]"
    by (simp add: demo_layer2_def HANLayer_make_def)
  have ids: "map gat_id (gat_layers demo_layer2) = [0, 1]"
    by code_simp
  have g0: "gat_id (gat_layers demo_layer2 ! 0) = 0" "gat_num_heads (gat_layers demo_layer2 ! 0) = 2"
      "out_feats (gat_layers demo_layer2 ! 0) = 8"
    and g1: "gat_id (gat_layers demo_layer2 ! 1) = 1" "gat_num_heads (gat_layers demo_layer2 ! 1) = 2"
      "out_feats (gat_layers demo_layer2 ! 1) = 8"
    by code_simp+
  have fresh: "cached_graph demo_layer2 \<noteq> Some (ident demo_hg2)"
    by (simp add: demo_layer2_def HANLayer_make_def)
  have p0: "metapath_reachable_graph demo_ops demo_hg2 ?mp0 = Inr \<lparr>num_nodes = 2, edges = [(0, 0)]\<rparr>"
    and p1: "metapath_reachable_graph demo_ops demo_hg2 ?mp1 = Inr \<lparr>num_nodes = 2, edges = [(1, 0)]\<rparr>"
    by code_simp+
  from C6_order_preservation [of demo_ops demo_layer2 demo_hg2 demo_features ?out] run
  obtain embs stacked where len: "length embs = length (meta_paths demo_layer2)"
    and each: "\<forall>i < length (meta_paths demo_layer2). \<exists>new_g y.
        cached_coalesced_graph (fst (HANLayer_forward demo_ops demo_layer2 demo_hg2 demo_features))
          (meta_paths demo_layer2 ! i) = Some new_g \<and>
        (cached_graph demo_layer2 \<noteq> Some (ident demo_hg2) \<longrightarrow>
           metapath_reachable_graph demo_ops demo_hg2 (meta_paths demo_layer2 ! i) = Inr new_g) \<and>
        i < length (gat_layers demo_layer2) \<and>
        GATConv_forward demo_ops (gat_layers demo_layer2 ! i) new_g demo_features = Inr y \<and>
        torch_flatten1 y = Inr (embs ! i)"
    and st: "torch_stack1 embs = Inr stacked"
    and sel: "(\<forall>e \<in> set embs. wf_tensor e) \<longrightarrow> (\<forall>i < length embs. select1 stacked i = embs ! i)"
    and sa: "SemanticAttention_forward demo_ops (semantic_attention demo_layer2) stacked = Inr ?out"
    by blast
  have len2: "length embs = 2" using len mps by simp
  have i0: "0 < length (meta_paths demo_layer2)" and i1: "1 < length (meta_paths demo_layer2)"
    by (simp_all add: mps)
  have m0: "meta_paths demo_layer2 ! 0 = ?mp0" and m1: "meta_paths demo_layer2 ! 1 = ?mp1"
    by (simp_all add: mps)
  from each[rule_format, OF i0] obtain new_g0 y0 where
      pr0: "cached_graph demo_layer2 \<noteq> Some (ident demo_hg2) \<longrightarrow>
           metapath_reachable_graph demo_ops demo_hg2 (meta_paths demo_layer2 ! 0) = Inr new_g0"
      and gy0': "GATConv_forward demo_ops (gat_layers demo_layer2 ! 0) new_g0 demo_features = Inr y0"
      and f0: "torch_flatten1 y0 = Inr (embs ! 0)"
    by blast
  from pr0 fresh have "new_g0 = \<lparr>num_nodes = 2, edges = [(0, 0)]\<rparr>"
    unfolding m0 p0 by simp
  with gy0' have gy0: "GATConv_forward demo_ops (gat_layers demo_layer2 ! 0)
      \<lparr>num_nodes = 2, edges = [(0, 0)]\<rparr> demo_features = Inr y0"
    by simp
  from each[rule_format, OF i1] obtain new_g1 y1 where
      pr1: "cached_graph demo_layer2 \<noteq> Some (ident demo_hg2) \<longrightarrow>
           metapath_reachable_graph demo_ops demo_hg2 (meta_paths demo_layer2 ! 1) = Inr new_g1"
      and gy1': "GATConv_forward demo_ops (gat_layers demo_layer2 ! 1) new_g1 demo_features = Inr y1"
      and f1: "torch_flatten1 y1 = Inr (embs ! 1)"
    by blast
  from pr1 fresh have "new_g1 = \<lparr>num_nodes = 2, edges = [(1, 0)]\<rparr>"
    unfolding m1 p1 by simp
  with gy1' have gy1: "GATConv_forward demo_ops (gat_layers demo_layer2 ! 1)
      \<lparr>num_nodes = 2, edges = [(1, 0)]\<rparr> demo_features = Inr y1"
    by simp
  have w0: "wf_tensor (embs ! 0)" and d0: "data (embs ! 0) = replicate 32 0"
    using demo_gat_Inr[OF gy0] f0
    by (simp_all add: torch_flatten1_wf torch_flatten1_data g0)
  have w1: "wf_tensor (embs ! 1)" and d1: "data (embs ! 1) = replicate 32 1"
    using demo_gat_Inr[OF gy1] f1
    by (simp_all add: torch_flatten1_wf torch_flatten1_data g1 [unfolded One_nat_def])
  from len2 obtain a b where ab: "embs = [a, b]"
    by (cases embs; cases "tl embs"; cases "tl (tl embs)") auto
  have "\<forall>e \<in> set embs. wf_tensor e" using w0 w1 by (simp add: ab)
  with sel len2 have s0: "select1 stacked 0 = embs ! 0" and s1: "select1 stacked 1 = embs ! 1"
    by simp_all
  from len2 d0 d1 st s0 s1 sa
  have "\<exists>embs stacked.
        length embs = 2 \<and>
        data (embs ! 0) = replicate 32 0 \<and>
        data (embs ! 1) = replicate 32 1 \<and>
        torch_stack1 embs = Inr stacked \<and>
        select1 stacked 0 = embs ! 0 \<and>
        select1 stacked 1 = embs ! 1 \<and>
        SemanticAttention_forward demo_ops (semantic_attention demo_layer2) stacked = Inr ?out"
    by (intro exI[of _ embs] exI[of _ stacked] conjI)
  with run ids mps show ?thesis by (intro conjI)
qed

section \<open>Shapes\<close>

lemma layer_ready_cache:
  assumes "layer_ready ops L g N"
  shows "snd (snd (refresh_cache ops L g)) = None \<and>
     (\<forall>mp \<in> set (meta_paths L). \<exists>sg.
         cached_coalesced_graph (fst (refresh_cache ops L g)) mp = Some sg \<and> num_nodes sg = N)"
proof (cases "cached_graph L = Some (ident g)")
  case True
  have "\<forall>mp \<in> set (meta_paths L). \<exists>sg. cached_coalesced_graph L mp = Some sg \<and> num_nodes sg = N"
    using assms True
    by (auto simp: layer_ready_def subgraph_for_def list_all_iff split: option.splits sum.splits)
  then show ?thesis by (simp add: refresh_cache_same[OF True])
next
  case False
  have pr: "\<forall>mp \<in> set (meta_paths L). \<exists>sg. metapath_reachable_graph ops g mp = Inr sg \<and> num_nodes sg = N"
  proof
    fix mp assume "mp \<in> set (meta_paths L)"
    with assms False
    have "case metapath_reachable_graph ops g mp of Inl e \<Rightarrow> False | Inr sg \<Rightarrow> num_nodes sg = N"
      by (simp add: layer_ready_def subgraph_for_def list_all_iff)
    then show "\<exists>sg. metapath_reachable_graph ops g mp = Inr sg \<and> num_nodes sg = N"
      by (cases "metapath_reachable_graph ops g mp") simp_all
  qed
  then have all: "\<forall>mp \<in> set (meta_paths L). \<exists>sg. metapath_reachable_graph ops g mp = Inr sg"
    by blast
  then have none: "snd (snd (refresh_cache ops L g)) = None"
    using False by (simp add: refresh_cache_other project_all_None_iff)
  have "cached_coalesced_graph (fst (refresh_cache ops L g)) = projected ops g (meta_paths L)"
    using False none by (rule refresh_cache_None_other)
  with pr none show ?thesis by (auto simp: projected_def)
qed

lemma run_branches_total:
  "(\<forall>j < length xs. \<exists>z. HANLayer_branch ops L h (fst (xs ! j)) (snd (xs ! j)) = Inr z \<and> Q z) \<Longrightarrow>
   \<exists>embs. run_branches ops L h xs [] = Inr embs \<and> length embs = length xs \<and>
      (\<forall>e \<in> set embs. Q e)"
proof (induction xs)
  case Nil
  then show ?case by simp
next
  case (Cons x xs)
  obtain i mp where x: "x = (i, mp)" by (cases x)
  from Cons.prems have "\<exists>z. HANLayer_branch ops L h (fst ((x # xs) ! 0)) (snd ((x # xs) ! 0)) = Inr z \<and> Q z"
    by blast
  then obtain z where z: "HANLayer_branch ops L h i mp = Inr z" and qz: "Q z"
    by (auto simp: x)
  have "\<forall>j < length xs. \<exists>z. HANLayer_branch ops L h (fst (xs ! j)) (snd (xs ! j)) = Inr z \<and> Q z"
  proof (intro allI impI)
    fix j assume "j < length xs"
    then have "Suc j < length (x # xs)" by simp
    with Cons.prems have "\<exists>z. HANLayer_branch ops L h (fst ((x # xs) ! Suc j)) (snd ((x # xs) ! Suc j)) = Inr z \<and> Q z"
      by blast
    then show "\<exists>z. HANLayer_branch ops L h (fst (xs ! j)) (snd (xs ! j)) = Inr z \<and> Q z" by simp
  qed
  from Cons.IH[OF this] obtain embs where e: "run_branches ops L h xs [] = Inr embs"
    and l: "length embs = length xs" and q: "\<forall>e \<in> set embs. Q e"
    by blast
  show ?case
    unfolding x run_branches_Cons
    using z qz e l q by (intro exI[of _ "z # embs"]) simp
qed

lemma torch_stack1_ok:
  "ts \<noteq> [] \<Longrightarrow> \<forall>t \<in> set ts. shape t = n # rest \<Longrightarrow>
   \<exists>z. torch_stack1 ts = Inr z \<and> shape z = n # length ts # rest"
  by (cases ts) (auto simp: torch_stack1_def list_all_iff)

lemma torch_flatten1_3d:
  "shape y = [n, a, b] \<Longrightarrow> \<exists>z. torch_flatten1 y = Inr z \<and> shape z = [n, a * b]"
  by (simp add: torch_flatten1_def)

lemma layer_branch_shape:
  assumes gat: "GATConv_contract ops"
    and ok: "layer_ok L F D H"
    and h: "shape h = [N, F]"
    and i: "i < length (meta_paths L)"
    and c: "cached_coalesced_graph L1 (meta_paths L ! i) = Some sg" "num_nodes sg = N"
    and frame: "gat_layers L1 = gat_layers L"
  shows "\<exists>z. HANLayer_branch ops L1 h i (meta_paths L ! i) = Inr z \<and> shape z = [N, D * H]"
proof -
  from ok i have il: "i < length (gat_layers L)" by (simp add: layer_ok_def)
  let ?m = "gat_layers L ! i"
  from ok il have m: "allow_zero_in_degree ?m" "in_feats ?m = F" "out_feats ?m = D"
      "gat_num_heads ?m = H"
    by (simp_all add: layer_ok_def list_all_length)
  from gat m h c(2) obtain y where y: "GATConv_forward ops ?m sg h = Inr y"
    and sy: "shape y = [N, H, D]"
    unfolding GATConv_contract_def by metis
  from torch_flatten1_3d[OF sy] obtain z where z: "torch_flatten1 y = Inr z"
    and sz: "shape z = [N, H * D]" by blast
  have "HANLayer_branch ops L1 h i (meta_paths L ! i) = Inr z"
    using c(1) il y z by (simp add: HANLayer_branch_def frame)
  with sz show ?thesis by (simp add: mult.commute)
qed

lemma layer_forward_shape:
  assumes gat: "GATConv_contract ops" and sa: "SemanticAttention_contract ops"
    and ok: "layer_ok L F D H"
    and m: "meta_paths L \<noteq> []"
    and h: "shape h = [N, F]"
    and ready: "layer_ready ops L g N"
  shows "\<exists>embs stacked out.
     run_branches ops (fst (HANLayer_forward ops L g h)) h (enumerate_list (meta_paths L)) [] =
       Inr embs \<and>
     length embs = length (meta_paths L) \<and>
     (\<forall>i < length (meta_paths L).
        HANLayer_branch ops (fst (HANLayer_forward ops L g h)) h i (meta_paths L ! i) =
          Inr (embs ! i)) \<and>
     (\<forall>e \<in> set embs. shape e = [N, D * H]) \<and>
     torch_stack1 embs = Inr stacked \<and>
     shape stacked = [N, length (meta_paths L), D * H] \<and>
     SemanticAttention_forward ops (semantic_attention L) stacked = Inr out \<and>
     snd (snd (HANLayer_forward ops L g h)) = Inr out \<and>
     shape out = [N, D * H]"
proof -
  let ?L1 = "fst (refresh_cache ops L g)"
  let ?xs = "enumerate_list (meta_paths L)"
  from layer_ready_cache[OF ready] have none: "snd (snd (refresh_cache ops L g)) = None"
    and cache: "\<forall>mp \<in> set (meta_paths L). \<exists>sg.
         cached_coalesced_graph ?L1 mp = Some sg \<and> num_nodes sg = N"
    by blast+
  have frame: "gat_layers ?L1 = gat_layers L" using refresh_cache_frame[of ops L g] by simp
  have "\<forall>j < length ?xs. \<exists>z.
      HANLayer_branch ops ?L1 h (fst (?xs ! j)) (snd (?xs ! j)) = Inr z \<and> shape z = [N, D * H]"
  proof (intro allI impI)
    fix j assume "j < length ?xs"
    then have j: "j < length (meta_paths L)" by (simp add: length_enumerate_list)
    then have "meta_paths L ! j \<in> set (meta_paths L)" by simp
    with cache obtain sg where "cached_coalesced_graph ?L1 (meta_paths L ! j) = Some sg"
      and "num_nodes sg = N" by blast
    with gat ok h j frame
    have "\<exists>z. HANLayer_branch ops ?L1 h j (meta_paths L ! j) = Inr z \<and> shape z = [N, D * H]"
      by (intro layer_branch_shape)
    then show "\<exists>z. HANLayer_branch ops ?L1 h (fst (?xs ! j)) (snd (?xs ! j)) = Inr z \<and>
        shape z = [N, D * H]"
      by (simp add: enumerate_list_nth[OF j])
  qed
  from run_branches_total[where Q = "\<lambda>z. shape z = [N, D * H]", OF this]
  obtain embs where rb: "run_branches ops ?L1 h ?xs [] = Inr embs"
    and len: "length embs = length (meta_paths L)"
    and sh: "\<forall>e \<in> set embs. shape e = [N, D * H]"
    by (auto simp: length_enumerate_list)
  from rb have br: "\<forall>i < length (meta_paths L).
      HANLayer_branch ops ?L1 h i (meta_paths L ! i) = Inr (embs ! i)"
    by (simp add: run_branches_enumerate_Inr_iff)
  from len m have "embs \<noteq> []" by auto
  from torch_stack1_ok[OF this sh] obtain stacked where st: "torch_stack1 embs = Inr stacked"
    and ss: "shape stacked = [N, length (meta_paths L), D * H]"
    by (auto simp: len)
  from ok have w: "sa_in_size (semantic_attention L) = D * H" by (simp add: layer_ok_def)
  from sa ss w obtain out where o: "SemanticAttention_forward ops (semantic_attention L) stacked = Inr out"
    and so: "shape out = [N, D * H]"
    unfolding SemanticAttention_contract_def by metis
  have res: "snd (snd (HANLayer_forward ops L g h)) = Inr out"
    unfolding HANLayer_forward_result by (simp add: none rb st o)
  from rb len br sh st ss o res so show ?thesis
    unfolding HANLayer_forward_fst by (intro exI[of _ embs] exI[of _ stacked] exI[of _ out] conjI)
qed

lemma HANLayer_make_layer_ok: "layer_ok (HANLayer_make k mps F D H dr) F D H"
  by (simp add: HANLayer_make_def layer_ok_def list_all_iff)

lemma HANLayer_init_layer_ok:
  "HANLayer_init lib k mps F D H dr = Inr (L, k') \<Longrightarrow> layer_ok L F D H"
  by (simp add: HANLayer_init_Inr_iff HANLayer_make_layer_ok)

lemma demo_GATConv_contract: "GATConv_contract demo_ops"
  by (simp add: GATConv_contract_def demo_ops_def demo_gat_def)

lemma demo_SemanticAttention_contract: "SemanticAttention_contract demo_ops"
  by (simp add: SemanticAttention_contract_def demo_ops_def demo_sa_def)

lemma demo_Linear_contract: "Linear_contract demo_ops"
  by (simp add: Linear_contract_def demo_ops_def demo_linear_def)

lemma demo_layer_init:
  "HANLayer_init demo_lib 0 [[et_write, et_written_by]] 4 8 2 (1 / 2) = Inr (demo_layer, 2)"
  "HANLayer_init demo_lib 0 [[et_write, et_written_by], [et_attend, et_hosts]] 4 8 2 (1 / 2) =
     Inr (demo_layer2, 3)"
  by (simp_all add: HANLayer_init_eq demo_layer_error demo_layer_def demo_layer2_def)



section \<open>The forward pass and the construction of the model\<close>

lemma run_layers_Cons:
  "run_layers ops g (L # Ls) h =
     (case snd (snd (HANLayer_forward ops L g h)) of
        Inl e \<Rightarrow> (fst (HANLayer_forward ops L g h) # Ls, fst (snd (HANLayer_forward ops L g h)), Inl e)
      | Inr h' \<Rightarrow>
          (fst (HANLayer_forward ops L g h) # fst (run_layers ops g Ls h'),
           fst (snd (HANLayer_forward ops L g h)) @ fst (snd (run_layers ops g Ls h')),
           snd (snd (run_layers ops g Ls h'))))"
  by (simp split: prod.splits sum.splits)

declare run_layers.simps(2) [simp del]

lemma HANLayer_forward_frame:
  "meta_paths (fst (HANLayer_forward ops L g h)) = meta_paths L \<and>
   gat_layers (fst (HANLayer_forward ops L g h)) = gat_layers L \<and>
   semantic_attention (fst (HANLayer_forward ops L g h)) = semantic_attention L"
  unfolding HANLayer_forward_fst by (rule refresh_cache_frame)

lemma run_layers_frame:
  "length (fst (run_layers ops g Ls h)) = length Ls \<and>
   map meta_paths (fst (run_layers ops g Ls h)) = map meta_paths Ls \<and>
   map gat_layers (fst (run_layers ops g Ls h)) = map gat_layers Ls \<and>
   map semantic_attention (fst (run_layers ops g Ls h)) = map semantic_attention Ls"
proof (induction Ls arbitrary: h)
  case Nil
  then show ?case by simp
next
  case (Cons L Ls)
  show ?case
  proof (cases "snd (snd (HANLayer_forward ops L g h))")
    case (Inl e)
    then show ?thesis by (simp add: run_layers_Cons HANLayer_forward_frame)
  next
    case (Inr h')
    then show ?thesis by (simp add: run_layers_Cons HANLayer_forward_frame Cons.IH)
  qed
qed

lemma run_layers_Inr:
  "snd (snd (run_layers ops g Ls h)) = Inr hL \<Longrightarrow>
   \<exists>hs. length hs = Suc (length Ls) \<and> hs ! 0 = h \<and>
     (\<forall>j < length Ls. snd (snd (HANLayer_forward ops (Ls ! j) g (hs ! j))) = Inr (hs ! Suc j)) \<and>
     hs ! length Ls = hL"
proof (induction Ls arbitrary: h)
  case Nil
  then show ?case by (intro exI[of _ "[h]"]) simp
next
  case (Cons L Ls)
  from Cons.prems obtain h' where h': "snd (snd (HANLayer_forward ops L g h)) = Inr h'"
    and rest: "snd (snd (run_layers ops g Ls h')) = Inr hL"
    by (auto simp: run_layers_Cons split: sum.splits)
  from Cons.IH[OF rest] obtain hs where l: "length hs = Suc (length Ls)" and z: "hs ! 0 = h'"
    and st: "\<forall>j < length Ls. snd (snd (HANLayer_forward ops (Ls ! j) g (hs ! j))) = Inr (hs ! Suc j)"
    and e: "hs ! length Ls = hL"
    by blast
  have "\<forall>j < length (L # Ls).
      snd (snd (HANLayer_forward ops ((L # Ls) ! j) g ((h # hs) ! j))) = Inr ((h # hs) ! Suc j)"
  proof (intro allI impI)
    fix j assume "j < length (L # Ls)"
    then show "snd (snd (HANLayer_forward ops ((L # Ls) ! j) g ((h # hs) ! j))) = Inr ((h # hs) ! Suc j)"
      using h' z st by (cases j) auto
  qed
  with l e show ?case by (intro exI[of _ "h # hs"]) simp
qed

text \<open>The first layer that raises ends the pass with its exception.\<close>

lemma run_layers_Inl:
  "snd (snd (run_layers ops g Ls h)) = Inl e \<Longrightarrow>
   \<exists>j hs. j < length Ls \<and> length hs = Suc j \<and> hs ! 0 = h \<and>
     (\<forall>i < j. snd (snd (HANLayer_forward ops (Ls ! i) g (hs ! i))) = Inr (hs ! Suc i)) \<and>
     snd (snd (HANLayer_forward ops (Ls ! j) g (hs ! j))) = Inl e"
proof (induction Ls arbitrary: h)
  case Nil
  then show ?case by simp
next
  case (Cons L Ls)
  show ?case
  proof (cases "snd (snd (HANLayer_forward ops L g h))")
    case (Inl e')
    with Cons.prems have "e' = e" by (simp add: run_layers_Cons)
    with Inl show ?thesis by (intro exI[of _ 0] exI[of _ "[h]"]) simp
  next
    case (Inr h')
    with Cons.prems have "snd (snd (run_layers ops g Ls h')) = Inl e"
      by (simp add: run_layers_Cons)
    from Cons.IH[OF this] obtain j hs where j: "j < length Ls" and l: "length hs = Suc j"
      and z: "hs ! 0 = h'"
      and st: "\<forall>i < j. snd (snd (HANLayer_forward ops (Ls ! i) g (hs ! i))) = Inr (hs ! Suc i)"
      and f: "snd (snd (HANLayer_forward ops (Ls ! j) g (hs ! j))) = Inl e"
      by blast
    have "\<forall>i < Suc j.
        snd (snd (HANLayer_forward ops ((L # Ls) ! i) g ((h # hs) ! i))) = Inr ((h # hs) ! Suc i)"
    proof (intro allI impI)
      fix i assume "i < Suc j"
      then show "snd (snd (HANLayer_forward ops ((L # Ls) ! i) g ((h # hs) ! i))) = Inr ((h # hs) ! Suc i)"
        using Inr z st by (cases i) auto
    qed
    with j l f show ?thesis by (intro exI[of _ "Suc j"] exI[of _ "h # hs"]) simp
  qed
qed

lemma run_layers_shape:
  assumes gat: "GATConv_contract ops" and sa: "SemanticAttention_contract ops"
  shows "chain_ok Ls F F_out \<Longrightarrow> list_all (\<lambda>L. layer_ready ops L g N) Ls \<Longrightarrow>
     shape h = [N, F] \<Longrightarrow>
     \<exists>hL. snd (snd (run_layers ops g Ls h)) = Inr hL \<and> shape hL = [N, F_out]"
proof (induction Ls arbitrary: h F)
  case Nil
  then show ?case by simp
next
  case (Cons L Ls)
  let ?D = "out_feats (hd (gat_layers L))" and ?H = "gat_num_heads (hd (gat_layers L))"
  from Cons.prems(1) have m: "meta_paths L \<noteq> []" and ok: "layer_ok L F ?D ?H"
    and rest: "chain_ok Ls (sa_in_size (semantic_attention L)) F_out"
    by simp_all
  from Cons.prems(2) have ready: "layer_ready ops L g N"
    and readys: "list_all (\<lambda>L. layer_ready ops L g N) Ls"
    by simp_all
  from layer_forward_shape[OF gat sa ok m Cons.prems(3) ready]
  obtain out where o: "snd (snd (HANLayer_forward ops L g h)) = Inr out"
    and so: "shape out = [N, ?D * ?H]" by blast
  from ok have "sa_in_size (semantic_attention L) = ?D * ?H" by (simp add: layer_ok_def)
  with so have "shape out = [N, sa_in_size (semantic_attention L)]" by simp
  from Cons.IH[OF rest readys this] obtain hL
    where "snd (snd (run_layers ops g Ls out)) = Inr hL" and "shape hL = [N, F_out]"
    by blast
  then show ?case by (simp add: run_layers_Cons o)
qed

subsection \<open>The model the constructor builds\<close>

lemma layer_at_fields:
  "meta_paths (layer_at k mps i hs nh dr l) = mps"
  "length (gat_layers (layer_at k mps i hs nh dr l)) = length mps"
  "sa_in_size (semantic_attention (layer_at k mps i hs nh dr l)) = hs * nh ! l"
  "cached_graph (layer_at k mps i hs nh dr l) = None"
  by (simp_all add: layer_at_def layer_width_def HANLayer_make_def)

lemma layer_at_layer_ok:
  "layer_ok (layer_at k mps i hs nh dr l) (if l = 0 then i else hs * nh ! (l - 1)) hs (nh ! l)"
  unfolding layer_at_def layer_width_def by (rule HANLayer_make_layer_ok)

lemma layer_at_modules:
  "m \<in> set (gat_layers (layer_at k mps i hs nh dr l)) \<Longrightarrow>
   allow_zero_in_degree m \<and> in_feats m = (if l = 0 then i else hs * nh ! (l - 1)) \<and>
   out_feats m = hs \<and> gat_num_heads m = nh ! l"
  using layer_at_layer_ok[of k mps i hs nh dr l] by (simp add: layer_ok_def list_all_iff)

lemma chain_ok_layer_at:
  assumes mps: "mps \<noteq> []"
  shows "a \<le> length nh \<Longrightarrow> nh \<noteq> [] \<Longrightarrow>
     chain_ok (map (layer_at k mps i hs nh dr) [a..<length nh])
       (if a = 0 then i else hs * nh ! (a - 1)) (hs * last nh)"
proof (induction "length nh - a" arbitrary: a)
  case 0
  then have a: "a = length nh" by simp
  with 0 have "a \<noteq> 0" by simp
  then show ?case using a 0 by (simp add: last_conv_nth)
next
  case (Suc d)
  then have lt: "a < length nh" by simp
  let ?L = "layer_at k mps i hs nh dr a"
  have g: "gat_layers ?L \<noteq> []"
    using layer_at_fields(2)[of k mps i hs nh dr a] mps by auto
  then have hdm: "hd (gat_layers ?L) \<in> set (gat_layers ?L)" by simp
  have D: "out_feats (hd (gat_layers ?L)) = hs" and H: "gat_num_heads (hd (gat_layers ?L)) = nh ! a"
    using layer_at_modules[OF hdm] by simp_all
  have ok: "layer_ok ?L (if a = 0 then i else hs * nh ! (a - 1))
      (out_feats (hd (gat_layers ?L))) (gat_num_heads (hd (gat_layers ?L)))"
    unfolding D H by (rule layer_at_layer_ok)
  have "d = length nh - Suc a" using Suc.hyps(2) by simp
  from Suc.hyps(1)[OF this] lt Suc.prems(2)
  have IH: "chain_ok (map (layer_at k mps i hs nh dr) [Suc a..<length nh]) (hs * nh ! a) (hs * last nh)"
    by simp
  have "[a..<length nh] = a # [Suc a..<length nh]" using lt by (rule upt_conv_Cons)
  then show ?case
    using ok g IH mps by (simp add: layer_at_fields)
qed

lemma demo_build_model: "build_model_from_args demo_lib 0 demo_args demo_hg = Inr demo_model"
  by (simp add: build_model_from_args_def demo_args_def demo_hg_def HAN_init_def
      HANLayer_init_eq demo_layer_error demo_model_def demo_layer_def build_mps_def
      et_write_def et_written_by_def)

lemma layer_error_at_0_ValueError:
  "mps \<noteq> [] \<Longrightarrow> dr < 0 \<or> 1 < dr \<Longrightarrow> layer_error_at lib mps i hs nh dr 0 = Some ValueError"
  by (auto simp: layer_error_at_def layer_error_def GATConv_error_def)

lemma layer_error_at_0_ZeroDivisionError:
  "mps \<noteq> [] \<Longrightarrow> 0 \<le> dr \<Longrightarrow> dr \<le> 1 \<Longrightarrow>
   layer_error_at lib mps i 0 nh dr 0 = Some ZeroDivisionError"
  by (auto simp: layer_error_at_def layer_error_def GATConv_error_def)

lemma layer_error_at_None:
  "mps = [] \<or> (0 \<le> dr \<and> dr \<le> 1 \<and> 0 < hs \<and>
      lib (layer_width i hs nh l) hs (nh ! l) dr dr = None) \<Longrightarrow>
   layer_error_at lib mps i hs nh dr l = None"
  by (auto simp: layer_error_at_def layer_error_def GATConv_error_def)

text \<open>
  C5. Model structure. For a non-empty list of head counts, and arguments that the
  module constructor raises on for no layer, the constructor returns a model with
  exactly one layer per entry: layer \<open>l\<close> is what the layer constructor builds for input
  width \<open>in_size\<close> when \<open>l = 0\<close> and \<open>hidden_size * num_heads[l-1]\<close> otherwise, per-head
  width \<open>hidden_size\<close> and \<open>num_heads[l]\<close> heads, so each of its modules reads that input
  width; the linear head maps \<open>hidden_size * num_heads[-1]\<close> to \<open>out_size\<close>; and, when there
  is a metapath, the widths chain from \<open>in_size\<close> to the input of the head. Every model the
  constructor returns is this one. The module constructor raises on nothing when
  there is no metapath, or when the dropout is in \<open>[0, 1]\<close>, \<open>hidden_size\<close> is positive and
  the library raises nothing of its own. Otherwise the construction raises: \<open>IndexError\<close>
  for the empty list; the exception of the first layer whose module constructor raises,
  which is \<open>ValueError\<close> for a dropout outside \<open>[0, 1]\<close> and \<open>ZeroDivisionError\<close> for
  \<open>hidden_size = 0\<close> when there is a metapath.
\<close>

theorem C5_model_structure:
  "(nh \<noteq> [] \<and>
    (\<forall>l < length nh. layer_error_at lib mps in_size hidden_size nh dr l = None) \<longrightarrow>
      (\<exists>M. HAN_init lib k mps cat in_size hidden_size out_size nh dr = Inr M \<and>
         category M = cat \<and>
         length (layers M) = length nh \<and>
         layers M = map (layer_at k mps in_size hidden_size nh dr) [0..<length nh] \<and>
         (\<forall>l < length nh.
            layer_ok (layers M ! l) (if l = 0 then in_size else hidden_size * nh ! (l - 1))
              hidden_size (nh ! l) \<and>
            length (gat_layers (layers M ! l)) = length mps \<and>
            (\<forall>m \<in> set (gat_layers (layers M ! l)).
               in_feats m = (if l = 0 then in_size else hidden_size * nh ! (l - 1)))) \<and>
         in_features (linear M) = hidden_size * last nh \<and>
         out_features (linear M) = out_size \<and>
         (mps \<noteq> [] \<longrightarrow> chain_ok (layers M) in_size (in_features (linear M)))))
   \<and> (HAN_init lib k mps cat in_size hidden_size out_size nh dr = Inr M' \<longrightarrow>
        nh \<noteq> [] \<and>
        (\<forall>l < length nh. layer_error_at lib mps in_size hidden_size nh dr l = None) \<and>
        category M' = cat \<and>
        layers M' = map (layer_at k mps in_size hidden_size nh dr) [0..<length nh] \<and>
        in_features (linear M') = hidden_size * last nh \<and>
        out_features (linear M') = out_size)
   \<and> ((mps = [] \<or> (0 \<le> dr \<and> dr \<le> 1 \<and> 0 < hidden_size \<and>
          (\<forall>l < length nh.
             lib (layer_width in_size hidden_size nh l) hidden_size (nh ! l) dr dr = None))) \<longrightarrow>
        (\<forall>l < length nh. layer_error_at lib mps in_size hidden_size nh dr l = None))
   \<and> (nh = [] \<longrightarrow> HAN_init lib k mps cat in_size hidden_size out_size nh dr = Inl IndexError)
   \<and> (l < length nh \<and> layer_error_at lib mps in_size hidden_size nh dr l = Some e \<and>
        (\<forall>l' < l. layer_error_at lib mps in_size hidden_size nh dr l' = None) \<longrightarrow>
        HAN_init lib k mps cat in_size hidden_size out_size nh dr = Inl e)
   \<and> (nh \<noteq> [] \<and> mps \<noteq> [] \<and> (dr < 0 \<or> 1 < dr) \<longrightarrow>
        HAN_init lib k mps cat in_size hidden_size out_size nh dr = Inl ValueError)
   \<and> (nh \<noteq> [] \<and> mps \<noteq> [] \<and> 0 \<le> dr \<and> dr \<le> 1 \<and> hidden_size = 0 \<longrightarrow>
        HAN_init lib k mps cat in_size hidden_size out_size nh dr = Inl ZeroDivisionError)"
proof (intro conjI impI)
  assume a: "nh \<noteq> [] \<and>
    (\<forall>l < length nh. layer_error_at lib mps in_size hidden_size nh dr l = None)"
  then have ne: "nh \<noteq> []" by simp
  let ?M = "\<lparr>category = cat,
       layers = map (layer_at k mps in_size hidden_size nh dr) [0..<length nh],
       linear = \<lparr>lin_id = k + length nh * (length mps + 1),
                 in_features = hidden_size * last nh, out_features = out_size\<rparr>\<rparr>"
  have init: "HAN_init lib k mps cat in_size hidden_size out_size nh dr = Inr ?M"
    using a by (intro HAN_init_ok) simp_all
  have each: "\<forall>l < length nh.
            layer_ok (layers ?M ! l) (if l = 0 then in_size else hidden_size * nh ! (l - 1))
              hidden_size (nh ! l) \<and>
            length (gat_layers (layers ?M ! l)) = length mps \<and>
            (\<forall>m \<in> set (gat_layers (layers ?M ! l)).
               in_feats m = (if l = 0 then in_size else hidden_size * nh ! (l - 1)))"
    using layer_at_layer_ok[of k mps in_size hidden_size nh dr]
      layer_at_modules[of _ k mps in_size hidden_size nh dr]
    by (simp add: layer_at_fields)
  have chain: "mps \<noteq> [] \<longrightarrow> chain_ok (layers ?M) in_size (in_features (linear ?M))"
    using chain_ok_layer_at[of mps 0 nh k in_size hidden_size dr] ne by simp
  from init each chain show "\<exists>M. HAN_init lib k mps cat in_size hidden_size out_size nh dr = Inr M \<and>
         category M = cat \<and>
         length (layers M) = length nh \<and>
         layers M = map (layer_at k mps in_size hidden_size nh dr) [0..<length nh] \<and>
         (\<forall>l < length nh.
            layer_ok (layers M ! l) (if l = 0 then in_size else hidden_size * nh ! (l - 1))
              hidden_size (nh ! l) \<and>
            length (gat_layers (layers M ! l)) = length mps \<and>
            (\<forall>m \<in> set (gat_layers (layers M ! l)).
               in_feats m = (if l = 0 then in_size else hidden_size * nh ! (l - 1)))) \<and>
         in_features (linear M) = hidden_size * last nh \<and>
         out_features (linear M) = out_size \<and>
         (mps \<noteq> [] \<longrightarrow> chain_ok (layers M) in_size (in_features (linear M)))"
    by (intro exI[of _ ?M]) simp
next
  assume M': "HAN_init lib k mps cat in_size hidden_size out_size nh dr = Inr M'"
  then show "nh \<noteq> []"
    and "\<forall>l < length nh. layer_error_at lib mps in_size hidden_size nh dr l = None"
    and "category M' = cat"
    and "layers M' = map (layer_at k mps in_size hidden_size nh dr) [0..<length nh]"
    and "in_features (linear M') = hidden_size * last nh"
    and "out_features (linear M') = out_size"
    unfolding HAN_init_Inr_iff by simp_all
next
  assume "mps = [] \<or> (0 \<le> dr \<and> dr \<le> 1 \<and> 0 < hidden_size \<and>
          (\<forall>l < length nh.
             lib (layer_width in_size hidden_size nh l) hidden_size (nh ! l) dr dr = None))"
  then show "\<forall>l < length nh. layer_error_at lib mps in_size hidden_size nh dr l = None"
    by (auto intro: layer_error_at_None)
next
  assume "nh = []"
  then show "HAN_init lib k mps cat in_size hidden_size out_size nh dr = Inl IndexError"
    by (simp add: HAN_init_def)
next
  assume "l < length nh \<and> layer_error_at lib mps in_size hidden_size nh dr l = Some e \<and>
        (\<forall>l' < l. layer_error_at lib mps in_size hidden_size nh dr l' = None)"
  then show "HAN_init lib k mps cat in_size hidden_size out_size nh dr = Inl e"
    by (intro HAN_init_fail[where l = l]) simp_all
next
  assume a: "nh \<noteq> [] \<and> mps \<noteq> [] \<and> (dr < 0 \<or> 1 < dr)"
  then have "layer_error_at lib mps in_size hidden_size nh dr 0 = Some ValueError"
    by (intro layer_error_at_0_ValueError) simp_all
  with a show "HAN_init lib k mps cat in_size hidden_size out_size nh dr = Inl ValueError"
    by (intro HAN_init_fail[where l = 0]) simp_all
next
  assume a: "nh \<noteq> [] \<and> mps \<noteq> [] \<and> 0 \<le> dr \<and> dr \<le> 1 \<and> hidden_size = 0"
  then have "layer_error_at lib mps in_size hidden_size nh dr 0 = Some ZeroDivisionError"
    using layer_error_at_0_ZeroDivisionError[of mps dr lib in_size nh] by simp
  with a show "HAN_init lib k mps cat in_size hidden_size out_size nh dr = Inl ZeroDivisionError"
    by (intro HAN_init_fail[where l = 0]) simp_all
qed

theorem C5_model_structure_witness:
  "(\<exists>M. HAN_init demo_lib 0 [[et_write, et_written_by]] ''author'' 4 8 3 [2, 3] (1 / 2) = Inr M \<and>
        length (layers M) = 2 \<and>
        map (\<lambda>L. map in_feats (gat_layers L)) (layers M) = [[4], [16]] \<and>
        in_features (linear M) = 24 \<and>
        out_features (linear M) = 3 \<and>
        chain_ok (layers M) 4 24)
   \<and> layers demo_model = map (layer_at 0 [[et_write, et_written_by]] 4 8 [2] (1 / 2)) [0..<1]
   \<and> HAN_init demo_lib 0 [[et_write, et_written_by]] ''author'' 4 8 3 [] (1 / 2) = Inl IndexError
   \<and> HAN_init demo_lib 0 [[et_write, et_written_by]] ''author'' 4 0 3 [2] (- 7) = Inl ValueError
   \<and> HAN_init demo_lib 0 [[et_write, et_written_by]] ''author'' 4 0 3 [2] (1 / 2) =
        Inl ZeroDivisionError
   \<and> HAN_init demo_lib 0 [[et_write, et_written_by]] ''author'' 4 8 3 [2, 0, 0] (1 / 2) =
        Inl ZeroDivisionError"
proof -
  let ?mps = "[[et_write, et_written_by]]"
  note c5 = C5_model_structure [where lib = demo_lib and k = 0 and mps = ?mps
      and cat = "''author''" and out_size = 3]
  note p1 = c5 [THEN conjunct1]
  note p2 = c5 [THEN conjunct2, THEN conjunct1]
  note p3 = c5 [THEN conjunct2, THEN conjunct2, THEN conjunct1]
  note p4 = c5 [THEN conjunct2, THEN conjunct2, THEN conjunct2, THEN conjunct1]
  note p5 = c5 [THEN conjunct2, THEN conjunct2, THEN conjunct2, THEN conjunct2, THEN conjunct1]
  note p6 = c5 [THEN conjunct2, THEN conjunct2, THEN conjunct2, THEN conjunct2, THEN conjunct2,
      THEN conjunct1]
  note p7 = c5 [THEN conjunct2, THEN conjunct2, THEN conjunct2, THEN conjunct2, THEN conjunct2,
      THEN conjunct2]

  have lib23: "\<forall>l < length [2 :: nat, 3].
      demo_lib (layer_width 4 8 [2, 3] l) 8 ([2, 3] ! l) (1 / 2) (1 / 2) = None"
    by (simp add: demo_lib_def layer_width_def less_Suc_eq)
  have "?mps = [] \<or> ((0 :: real) \<le> 1 / 2 \<and> (1 / 2 :: real) \<le> 1 \<and> (0 :: nat) < 8 \<and>
      (\<forall>l < length [2 :: nat, 3].
         demo_lib (layer_width 4 8 [2, 3] l) 8 ([2, 3] ! l) (1 / 2) (1 / 2) = None))"
    using lib23 by simp
  from mp[OF p3 this]
  have ok23: "\<forall>l < length [2 :: nat, 3]. layer_error_at demo_lib ?mps 4 8 [2, 3] (1 / 2) l = None" .
  have "[2, 3] \<noteq> ([] :: nat list) \<and>
      (\<forall>l < length [2 :: nat, 3]. layer_error_at demo_lib ?mps 4 8 [2, 3] (1 / 2) l = None)"
    using ok23 by simp
  from mp[OF p1 this]
  obtain M where init: "HAN_init demo_lib 0 ?mps ''author'' 4 8 3 [2, 3] (1 / 2) = Inr M"
    and len: "length (layers M) = length [2 :: nat, 3]"
    and ls: "layers M = map (layer_at 0 ?mps 4 8 [2, 3] (1 / 2)) [0..<length [2 :: nat, 3]]"
    and lin: "in_features (linear M) = 8 * last [2, 3]" "out_features (linear M) = 3"
    and chain: "?mps \<noteq> [] \<longrightarrow> chain_ok (layers M) 4 (in_features (linear M))"
    by blast
  have upt2: "[0..<length [2 :: nat, 3]] = [0, 1]" by (simp add: upt_conv_Cons)
  have widths: "map (\<lambda>L. map in_feats (gat_layers L)) (layers M) = [[4], [16]]"
    unfolding ls upt2 by (simp add: layer_at_def layer_width_def HANLayer_make_def)
  have c: "chain_ok (layers M) 4 24" using chain lin by simp
  from init len widths lin c
  have r1: "\<exists>M. HAN_init demo_lib 0 ?mps ''author'' 4 8 3 [2, 3] (1 / 2) = Inr M \<and>
        length (layers M) = 2 \<and>
        map (\<lambda>L. map in_feats (gat_layers L)) (layers M) = [[4], [16]] \<and>
        in_features (linear M) = 24 \<and>
        out_features (linear M) = 3 \<and>
        chain_ok (layers M) 4 24"
    by (intro exI[of _ M]) simp

  have built: "HAN_init demo_lib 0 ?mps ''author'' 4 8 3 [2] (1 / 2) = Inr demo_model"
    using demo_build_model
    by (simp add: build_model_from_args_def demo_args_def demo_hg_def build_mps_def
        et_write_def et_written_by_def)
  from mp[OF p2 built]
  have r2: "layers demo_model = map (layer_at 0 ?mps 4 8 [2] (1 / 2)) [0..<1]"
    by simp

  have "[] = ([] :: nat list)" by simp
  from mp[OF p4 this]
  have r4: "HAN_init demo_lib 0 ?mps ''author'' 4 8 3 [] (1 / 2) = Inl IndexError" .

  have "[2] \<noteq> ([] :: nat list) \<and> ?mps \<noteq> [] \<and> ((- 7 :: real) < 0 \<or> (1 :: real) < - 7)"
    by simp
  from mp[OF p6 this]
  have r6: "HAN_init demo_lib 0 ?mps ''author'' 4 0 3 [2] (- 7) = Inl ValueError" .

  have "[2] \<noteq> ([] :: nat list) \<and> ?mps \<noteq> [] \<and> (0 :: real) \<le> 1 / 2 \<and> (1 / 2 :: real) \<le> 1 \<and>
      (0 :: nat) = 0"
    by simp
  from mp[OF p7 this]
  have r7: "HAN_init demo_lib 0 ?mps ''author'' 4 0 3 [2] (1 / 2) = Inl ZeroDivisionError" .

  have "2 < length [2 :: nat, 0, 0] \<and>
      layer_error_at demo_lib ?mps 4 8 [2, 0, 0] (1 / 2) 2 = Some ZeroDivisionError \<and>
      (\<forall>l' < 2. layer_error_at demo_lib ?mps 4 8 [2, 0, 0] (1 / 2) l' = None)"
    by (simp add: layer_error_at_def layer_error_def GATConv_error_def demo_lib_def
        layer_width_def less_Suc_eq numeral_2_eq_2)
  from mp[OF p5 this]
  have r5: "HAN_init demo_lib 0 ?mps ''author'' 4 8 3 [2, 0, 0] (1 / 2) = Inl ZeroDivisionError" .

  from r1 r2 r4 r6 r7 r5 show ?thesis by (intro conjI)
qed

subsection \<open>The forward pass of the model\<close>

lemma HAN_forward_result:
  "snd (snd (HAN_forward ops M g h)) =
     (case target_features g (category M) of
        Inl e \<Rightarrow> Inl e
      | Inr h0 \<Rightarrow>
          (case snd (snd (run_layers ops g (layers M) h0)) of
             Inl e \<Rightarrow> Inl e
           | Inr hL \<Rightarrow>
               (case Linear_forward ops (linear M) hL of
                  Inl e \<Rightarrow> Inl e
                | Inr y \<Rightarrow> Inr [category M \<mapsto> y])))"
  by (simp add: HAN_forward_def split: sum.splits prod.splits)

lemma HAN_forward_layers:
  "layers (fst (HAN_forward ops M g h)) =
     (case target_features g (category M) of
        Inl e \<Rightarrow> layers M
      | Inr h0 \<Rightarrow> fst (run_layers ops g (layers M) h0))"
  by (simp add: HAN_forward_def split: sum.splits prod.splits)

lemma HAN_forward_frame:
  "category (fst (HAN_forward ops M g h)) = category M \<and>
   linear (fst (HAN_forward ops M g h)) = linear M"
  by (simp add: HAN_forward_def split: sum.splits prod.splits)


text \<open>
  C4. Model forward output. A forward pass that returns gives a dictionary whose only
  key is the target category; its value is the linear head applied to what the layers,
  each run once and in order, make of the target category's features read from the
  graph. With the library operations behaving as the specification says, layers whose
  widths chain from the feature width to the input of the head, and projected subgraphs
  over the \<open>N\<close> target nodes, the pass returns and the value has shape
  \<open>(N, out_size)\<close>.
\<close>

theorem C4_model_forward_output:
  "(snd (snd (HAN_forward ops M g h)) = Inr r \<longrightarrow>
      (\<exists>h0 hs y.
         target_features g (category M) = Inr h0 \<and>
         length hs = Suc (length (layers M)) \<and> hs ! 0 = h0 \<and>
         (\<forall>j < length (layers M).
            snd (snd (HANLayer_forward ops (layers M ! j) g (hs ! j))) = Inr (hs ! Suc j)) \<and>
         Linear_forward ops (linear M) (hs ! length (layers M)) = Inr y \<and>
         r = [category M \<mapsto> y] \<and> dom r = {category M}))
   \<and> (GATConv_contract ops \<and> SemanticAttention_contract ops \<and> Linear_contract ops \<and>
        chain_ok (layers M) F (in_features (linear M)) \<and>
        list_all (\<lambda>L. layer_ready ops L g N) (layers M) \<and>
        target_features g (category M) = Inr h0 \<and> shape h0 = [N, F] \<longrightarrow>
        (\<exists>y. snd (snd (HAN_forward ops M g h)) = Inr [category M \<mapsto> y] \<and>
             shape y = [N, out_features (linear M)]))"
proof (intro conjI impI)
  assume ok: "snd (snd (HAN_forward ops M g h)) = Inr r"
  then obtain h0 hL y where tf: "target_features g (category M) = Inr h0"
    and rl: "snd (snd (run_layers ops g (layers M) h0)) = Inr hL"
    and lin: "Linear_forward ops (linear M) hL = Inr y"
    and r: "r = [category M \<mapsto> y]"
    unfolding HAN_forward_result by (auto split: sum.splits)
  from run_layers_Inr[OF rl] obtain hs where "length hs = Suc (length (layers M))" "hs ! 0 = h0"
    "\<forall>j < length (layers M).
        snd (snd (HANLayer_forward ops (layers M ! j) g (hs ! j))) = Inr (hs ! Suc j)"
    "hs ! length (layers M) = hL"
    by blast
  with tf lin r show "\<exists>h0 hs y.
         target_features g (category M) = Inr h0 \<and>
         length hs = Suc (length (layers M)) \<and> hs ! 0 = h0 \<and>
         (\<forall>j < length (layers M).
            snd (snd (HANLayer_forward ops (layers M ! j) g (hs ! j))) = Inr (hs ! Suc j)) \<and>
         Linear_forward ops (linear M) (hs ! length (layers M)) = Inr y \<and>
         r = [category M \<mapsto> y] \<and> dom r = {category M}"
    by (intro exI[of _ h0] exI[of _ hs] exI[of _ y]) simp
next
  assume a: "GATConv_contract ops \<and> SemanticAttention_contract ops \<and> Linear_contract ops \<and>
        chain_ok (layers M) F (in_features (linear M)) \<and>
        list_all (\<lambda>L. layer_ready ops L g N) (layers M) \<and>
        target_features g (category M) = Inr h0 \<and> shape h0 = [N, F]"
  then have gat: "GATConv_contract ops" and sa: "SemanticAttention_contract ops"
    and lc: "Linear_contract ops"
    and chain: "chain_ok (layers M) F (in_features (linear M))"
    and ready: "list_all (\<lambda>L. layer_ready ops L g N) (layers M)"
    and tf: "target_features g (category M) = Inr h0" and sh: "shape h0 = [N, F]"
    by simp_all
  from run_layers_shape[OF gat sa chain ready sh] obtain hL
    where rl: "snd (snd (run_layers ops g (layers M) h0)) = Inr hL"
      and shL: "shape hL = [N, in_features (linear M)]" by blast
  from lc shL obtain y where lin: "Linear_forward ops (linear M) hL = Inr y"
    and sy: "shape y = [N, out_features (linear M)]"
    unfolding Linear_contract_def by metis
  have "snd (snd (HAN_forward ops M g h)) = Inr [category M \<mapsto> y]"
    unfolding HAN_forward_result by (simp add: tf rl lin)
  with sy show "\<exists>y. snd (snd (HAN_forward ops M g h)) = Inr [category M \<mapsto> y] \<and>
             shape y = [N, out_features (linear M)]"
    by blast
qed


theorem C4_model_forward_output_witness:
  "target_features demo_hg (category demo_model) = Inr demo_features
   \<and> shape demo_features = [2, 4]
   \<and> chain_ok (layers demo_model) 4 (in_features (linear demo_model))
   \<and> list_all (\<lambda>L. layer_ready demo_ops L demo_hg 2) (layers demo_model)
   \<and> out_features (linear demo_model) = 3
   \<and> (\<exists>y. snd (snd (HAN_forward demo_ops demo_model demo_hg None)) = Inr [''author'' \<mapsto> y] \<and>
           shape y = [2, 3])"
proof -
  have tf: "target_features demo_hg (category demo_model) = Inr demo_features"
    by (simp add: target_features_def demo_hg_def demo_model_def)
  have sh: "shape demo_features = [2, 4]" by (simp add: demo_features_def)
  have chain: "chain_ok (layers demo_model) 4 (in_features (linear demo_model))"
    by (simp add: demo_model_def demo_layer_def HANLayer_make_def layer_ok_def)
  have ready: "list_all (\<lambda>L. layer_ready demo_ops L demo_hg 2) (layers demo_model)"
    by (simp add: demo_model_def demo_layer_def HANLayer_make_def layer_ready_def
        subgraph_for_def demo_ops_def demo_project_def demo_hg_def et_write_def et_written_by_def)
  have out: "out_features (linear demo_model) = 3" and cat: "category demo_model = ''author''"
    by (simp_all add: demo_model_def)
  note c4 = C4_model_forward_output [of demo_ops demo_model demo_hg None _ 4 2 demo_features]
  have pre: "GATConv_contract demo_ops \<and> SemanticAttention_contract demo_ops \<and>
        Linear_contract demo_ops \<and>
        chain_ok (layers demo_model) 4 (in_features (linear demo_model)) \<and>
        list_all (\<lambda>L. layer_ready demo_ops L demo_hg 2) (layers demo_model) \<and>
        target_features demo_hg (category demo_model) = Inr demo_features \<and>
        shape demo_features = [2, 4]"
    using demo_GATConv_contract demo_SemanticAttention_contract demo_Linear_contract chain ready
      tf sh by (intro conjI)
  from mp[OF c4[THEN conjunct2] pre]
  have "\<exists>y. snd (snd (HAN_forward demo_ops demo_model demo_hg None)) = Inr [''author'' \<mapsto> y] \<and>
           shape y = [2, 3]"
    unfolding out cat .
  with tf sh chain ready out show ?thesis by (intro conjI)
qed

section \<open>Invariants of the layer and the unused argument\<close>

lemma HANLayer_calls_frame:
  "meta_paths (HANLayer_calls ops L calls) = meta_paths L \<and>
   gat_layers (HANLayer_calls ops L calls) = gat_layers L"
proof (induction calls arbitrary: L)
  case Nil
  then show ?case by simp
next
  case (Cons c calls)
  obtain g h where c: "c = (g, h)" by (cases c)
  show ?case by (simp add: c Cons.IH HANLayer_forward_frame)
qed

lemma HAN_forward_layers_frame:
  "map meta_paths (layers (fst (HAN_forward ops M g h))) = map meta_paths (layers M) \<and>
   map gat_layers (layers (fst (HAN_forward ops M g h))) = map gat_layers (layers M)"
  unfolding HAN_forward_layers by (simp add: run_layers_frame split: sum.split)

text \<open>
  C9. Construction invariant. The layer the constructor returns has one convolution
  module per metapath supplied and stores the metapaths as given. A forward call of the
  layer, a sequence of such calls, and a forward call of the model leave the stored
  metapaths and the module list of every layer as they were, so the two counts stay
  equal.
\<close>

theorem C9_construction_invariant:
  "(HANLayer_init lib k mps F D H dr = Inr (L0, k') \<longrightarrow>
      L0 = HANLayer_make k mps F D H dr \<and>
      length (gat_layers L0) = length mps \<and>
      meta_paths L0 = mps \<and>
      length (gat_layers (HANLayer_calls ops L0 calls)) =
        length (meta_paths (HANLayer_calls ops L0 calls)) \<and>
      meta_paths (HANLayer_calls ops L0 calls) = mps)
   \<and> length (gat_layers (HANLayer_make k mps F D H dr)) = length mps
   \<and> meta_paths (HANLayer_make k mps F D H dr) = mps
   \<and> meta_paths (fst (HANLayer_forward ops L g h)) = meta_paths L
   \<and> gat_layers (fst (HANLayer_forward ops L g h)) = gat_layers L
   \<and> meta_paths (HANLayer_calls ops L calls) = meta_paths L
   \<and> gat_layers (HANLayer_calls ops L calls) = gat_layers L
   \<and> length (gat_layers (HANLayer_calls ops (HANLayer_make k mps F D H dr) calls)) =
       length (meta_paths (HANLayer_calls ops (HANLayer_make k mps F D H dr) calls))
   \<and> map meta_paths (layers (fst (HAN_forward ops M g ho))) = map meta_paths (layers M)
   \<and> map gat_layers (layers (fst (HAN_forward ops M g ho))) = map gat_layers (layers M)"
proof -
  have init: "length (gat_layers (HANLayer_make k mps F D H dr)) = length mps"
    "meta_paths (HANLayer_make k mps F D H dr) = mps"
    by (simp_all add: HANLayer_make_def)
  then have calls: "length (gat_layers (HANLayer_calls ops (HANLayer_make k mps F D H dr) calls)) =
       length (meta_paths (HANLayer_calls ops (HANLayer_make k mps F D H dr) calls))"
    "meta_paths (HANLayer_calls ops (HANLayer_make k mps F D H dr) calls) = mps"
    by (simp_all add: HANLayer_calls_frame)
  have ctor: "HANLayer_init lib k mps F D H dr = Inr (L0, k') \<longrightarrow>
      L0 = HANLayer_make k mps F D H dr \<and>
      length (gat_layers L0) = length mps \<and>
      meta_paths L0 = mps \<and>
      length (gat_layers (HANLayer_calls ops L0 calls)) =
        length (meta_paths (HANLayer_calls ops L0 calls)) \<and>
      meta_paths (HANLayer_calls ops L0 calls) = mps"
    using init calls by (simp add: HANLayer_init_Inr_iff)
  from ctor init calls(1) show ?thesis
    by (simp add: HANLayer_forward_frame HANLayer_calls_frame HAN_forward_layers_frame)
qed

theorem C9_construction_invariant_witness:
  "HANLayer_init demo_lib 0 [[et_write, et_written_by], [et_attend, et_hosts]] 4 8 2 (1 / 2) =
     Inr (demo_layer2, 3)
   \<and> length (gat_layers demo_layer2) = 2
   \<and> meta_paths demo_layer2 = [[et_write, et_written_by], [et_attend, et_hosts]]
   \<and> meta_paths (HANLayer_calls demo_ops demo_layer2
        [(demo_hg2, demo_features), (demo_hg, demo_features), (demo_hg2, demo_features)]) =
       [[et_write, et_written_by], [et_attend, et_hosts]]
   \<and> length (gat_layers (HANLayer_calls demo_ops demo_layer2
        [(demo_hg2, demo_features), (demo_hg, demo_features), (demo_hg2, demo_features)])) = 2
   \<and> map meta_paths (layers (fst (HAN_forward demo_ops demo_model demo_hg None))) =
       [[[et_write, et_written_by]]]"
proof -
  note c9 = C9_construction_invariant [where lib = demo_lib and k = 0
      and mps = "[[et_write, et_written_by], [et_attend, et_hosts]]" and F = 4 and D = 8 and H = 2
      and dr = "1 / 2" and ?L0.0 = demo_layer2 and k' = 3
      and ops = demo_ops and L = demo_layer2 and g = demo_hg and h = demo_features
      and calls = "[(demo_hg2, demo_features), (demo_hg, demo_features), (demo_hg2, demo_features)]"
      and M = demo_model and ho = None]
  note init = demo_layer_init(2)
  from mp[OF c9[THEN conjunct1] init]
  have a: "length (gat_layers demo_layer2) = 2"
    "meta_paths demo_layer2 = [[et_write, et_written_by], [et_attend, et_hosts]]"
    "meta_paths (HANLayer_calls demo_ops demo_layer2
        [(demo_hg2, demo_features), (demo_hg, demo_features), (demo_hg2, demo_features)]) =
       [[et_write, et_written_by], [et_attend, et_hosts]]"
    "length (gat_layers (HANLayer_calls demo_ops demo_layer2
        [(demo_hg2, demo_features), (demo_hg, demo_features), (demo_hg2, demo_features)])) = 2"
    by simp_all
  from c9 have b: "map meta_paths (layers (fst (HAN_forward demo_ops demo_model demo_hg None))) =
       [[[et_write, et_written_by]]]"
    by (simp add: demo_model_def demo_layer_def HANLayer_make_def)
  from init a b show ?thesis by (intro conjI)
qed

text \<open>
  C10. The forward pass of the model does not depend on its optional argument \<open>h\<close>: for
  the same operations, model state and graph, any two values of \<open>h\<close>, \<open>None\<close> included, give
  the same returned value, the same model state after the call and the same projection
  calls.
\<close>

theorem C10_forward_ignores_h:
  "HAN_forward ops M g h = HAN_forward ops M g h' \<and>
   HAN_forward ops M g h = HAN_forward ops M g None"
  by (simp add: HAN_forward_def)

theorem C10_forward_ignores_h_witness:
  "HAN_forward demo_ops demo_model demo_hg (Some \<lparr>shape = [7], data = [0, 0, 0, 0, 0, 0, 0]\<rparr>) =
     HAN_forward demo_ops demo_model demo_hg (Some demo_features)
   \<and> HAN_forward demo_ops demo_model demo_hg (Some \<lparr>shape = [7], data = [0, 0, 0, 0, 0, 0, 0]\<rparr>) =
     HAN_forward demo_ops demo_model demo_hg None"
  by (rule C10_forward_ignores_h)

lemma HANLayer_make_modules:
  "m \<in> set (gat_layers (HANLayer_make k mps F D H dr)) \<Longrightarrow> allow_zero_in_degree m"
  using HANLayer_make_layer_ok[of k mps F D H dr] by (simp add: layer_ok_def list_all_iff)

lemma HAN_init_modules:
  assumes "HAN_init lib k mps cat i hs out nh dr = Inr M" and "L \<in> set (layers M)"
    and "m \<in> set (gat_layers L)"
  shows "allow_zero_in_degree m"
proof -
  from assms(1,2) obtain l where "L = layer_at k mps i hs nh dr l"
    unfolding HAN_init_Inr_iff by auto
  with assms(3) show ?thesis using layer_at_modules by blast
qed

lemma layer_ok_forward:
  "layer_ok (fst (HANLayer_forward ops L g h)) F D H = layer_ok L F D H"
  by (simp add: layer_ok_def HANLayer_forward_frame)

text \<open>
  Under \<open>layer_ready\<close>, the subgraph the forward pass finds in the cache for a metapath of
  the layer is the one \<open>subgraph_for\<close> names.
\<close>

lemma layer_ready_subgraph:
  assumes ready: "layer_ready ops L g N"
    and mp: "mp \<in> set (meta_paths L)"
    and sg: "subgraph_for ops L g mp = Inr sg"
  shows "cached_coalesced_graph (fst (refresh_cache ops L g)) mp = Some sg \<and> num_nodes sg = N"
proof -
  from ready mp sg have n: "num_nodes sg = N"
    by (auto simp: layer_ready_def list_all_iff)
  show ?thesis
  proof (cases "cached_graph L = Some (ident g)")
    case True
    with sg have "cached_coalesced_graph L mp = Some sg"
      by (simp add: subgraph_for_def split: option.splits)
    with n show ?thesis by (simp add: refresh_cache_same[OF True])
  next
    case False
    from layer_ready_cache[OF ready] have none: "snd (snd (refresh_cache ops L g)) = None"
      by simp
    from False sg have "metapath_reachable_graph ops g mp = Inr sg"
      by (simp add: subgraph_for_def)
    with mp n show ?thesis
      unfolding refresh_cache_None_other[OF False none] by (simp add: projected_def)
  qed
qed

text \<open>
  C7. Zero-in-degree tolerance. Every convolution module of a layer that the layer
  constructor returns, and so every module of every layer of a model, is configured to
  allow nodes of in-degree zero, and forward calls do not change the modules. For a
  layer so built, features of the declared width over the \<open>N\<close> target nodes and a graph
  whose metapaths all have a projected subgraph over those nodes, and with a
  convolution and a combiner that behave as the specification says, a node \<open>v\<close> that has
  no incoming edge in the projected subgraph \<open>sg\<close> of metapath \<open>i\<close> does not make the forward
  pass fail: the pass finds \<open>sg\<close> in its cache, the convolution of module \<open>i\<close> on \<open>sg\<close> returns,
  the branch of metapath \<open>i\<close> returns its flattening, of shape \<open>(N, D * H)\<close> with a row for \<open>v\<close>,
  the branches of all metapaths return, and the forward pass returns a tensor with a
  row for \<open>v\<close>.
\<close>

theorem C7_zero_in_degree_tolerance:
  "(HANLayer_init lib k mps F D H dr = Inr (L0, k') \<longrightarrow>
      (\<forall>m \<in> set (gat_layers L0). allow_zero_in_degree m) \<and>
      length (gat_layers L0) = length mps \<and> layer_ok L0 F D H)
   \<and> (\<forall>m \<in> set (gat_layers (HANLayer_make k mps F D H dr)). allow_zero_in_degree m)
   \<and> (HAN_init lib k mps cat F D out nh dr = Inr M \<longrightarrow>
        (\<forall>L \<in> set (layers M). \<forall>m \<in> set (gat_layers L). allow_zero_in_degree m))
   \<and> gat_layers (fst (HANLayer_forward ops L g h)) = gat_layers L
   \<and> layer_ok (fst (HANLayer_forward ops L g h)) F D H = layer_ok L F D H
   \<and> (GATConv_contract ops \<and> SemanticAttention_contract ops \<and> layer_ok L F D H \<and>
        shape h = [N, F] \<and> layer_ready ops L g N \<and> i < length (meta_paths L) \<and>
        subgraph_for ops L g (meta_paths L ! i) = Inr sg \<and>
        v < num_nodes sg \<and> in_degree sg v = 0 \<longrightarrow>
        num_nodes sg = N \<and>
        cached_coalesced_graph (fst (HANLayer_forward ops L g h)) (meta_paths L ! i) = Some sg \<and>
        allow_zero_in_degree (gat_layers L ! i) \<and>
        (\<exists>y z embs out.
           GATConv_forward ops (gat_layers L ! i) sg h = Inr y \<and>
           torch_flatten1 y = Inr z \<and>
           HANLayer_branch ops (fst (HANLayer_forward ops L g h)) h i (meta_paths L ! i) = Inr z \<and>
           shape z = [N, D * H] \<and> v < hd (shape z) \<and>
           run_branches ops (fst (HANLayer_forward ops L g h)) h
             (enumerate_list (meta_paths L)) [] = Inr embs \<and>
           embs ! i = z \<and>
           snd (snd (HANLayer_forward ops L g h)) = Inr out \<and>
           shape out = [N, D * H] \<and> v < hd (shape out)))"
proof (intro conjI impI ballI)
  fix m assume "HANLayer_init lib k mps F D H dr = Inr (L0, k')" "m \<in> set (gat_layers L0)"
  then show "allow_zero_in_degree m"
    by (auto simp: HANLayer_init_Inr_iff dest: HANLayer_make_modules)
next
  assume "HANLayer_init lib k mps F D H dr = Inr (L0, k')"
  then show "length (gat_layers L0) = length mps"
    by (auto simp: HANLayer_init_Inr_iff HANLayer_make_def)
next
  assume "HANLayer_init lib k mps F D H dr = Inr (L0, k')"
  then show "layer_ok L0 F D H" by (rule HANLayer_init_layer_ok)
next
  fix m assume "m \<in> set (gat_layers (HANLayer_make k mps F D H dr))"
  then show "allow_zero_in_degree m" by (rule HANLayer_make_modules)
next
  fix L m assume "HAN_init lib k mps cat F D out nh dr = Inr M" "L \<in> set (layers M)"
    "m \<in> set (gat_layers L)"
  then show "allow_zero_in_degree m" by (rule HAN_init_modules)
next
  show "gat_layers (fst (HANLayer_forward ops L g h)) = gat_layers L"
    by (simp add: HANLayer_forward_frame)
next
  show "layer_ok (fst (HANLayer_forward ops L g h)) F D H = layer_ok L F D H"
    by (rule layer_ok_forward)
next
  assume a: "GATConv_contract ops \<and> SemanticAttention_contract ops \<and> layer_ok L F D H \<and>
        shape h = [N, F] \<and> layer_ready ops L g N \<and> i < length (meta_paths L) \<and>
        subgraph_for ops L g (meta_paths L ! i) = Inr sg \<and>
        v < num_nodes sg \<and> in_degree sg v = 0"
  then have i: "i < length (meta_paths L)" and ok: "layer_ok L F D H"
    and ready: "layer_ready ops L g N" and h: "shape h = [N, F]" by simp_all
  from i have mem: "meta_paths L ! i \<in> set (meta_paths L)" by simp
  from a have sgf: "subgraph_for ops L g (meta_paths L ! i) = Inr sg" by simp
  from layer_ready_subgraph[OF ready mem sgf]
  have c: "cached_coalesced_graph (fst (refresh_cache ops L g)) (meta_paths L ! i) = Some sg"
    and n: "num_nodes sg = N" by simp_all
  from ok i have il: "i < length (gat_layers L)" by (simp add: layer_ok_def)
  let ?m = "gat_layers L ! i"
  from ok il have m: "allow_zero_in_degree ?m" "in_feats ?m = F" "out_feats ?m = D"
      "gat_num_heads ?m = H"
    by (simp_all add: layer_ok_def list_all_length)
  from a m h n obtain y where y: "GATConv_forward ops ?m sg h = Inr y"
    and sy: "shape y = [N, H, D]"
    unfolding GATConv_contract_def by metis
  from torch_flatten1_3d[OF sy] obtain z where z: "torch_flatten1 y = Inr z"
    and sz: "shape z = [N, H * D]" by blast
  have frame: "gat_layers (fst (refresh_cache ops L g)) = gat_layers L"
    using refresh_cache_frame[of ops L g] by simp
  have br: "HANLayer_branch ops (fst (refresh_cache ops L g)) h i (meta_paths L ! i) = Inr z"
    using c il y z by (simp add: HANLayer_branch_def frame)
  from i have ne: "meta_paths L \<noteq> []" by auto
  from a have gat: "GATConv_contract ops" and sa: "SemanticAttention_contract ops" by simp_all
  from layer_forward_shape[OF gat sa ok ne h ready]
  obtain embs stacked out where
    rb: "run_branches ops (fst (HANLayer_forward ops L g h)) h (enumerate_list (meta_paths L)) [] =
       Inr embs"
    and each: "\<forall>i < length (meta_paths L).
        HANLayer_branch ops (fst (HANLayer_forward ops L g h)) h i (meta_paths L ! i) =
          Inr (embs ! i)"
    and res: "snd (snd (HANLayer_forward ops L g h)) = Inr out"
    and so: "shape out = [N, D * H]"
    by blast
  from each i br have ei: "embs ! i = z" by (simp add: HANLayer_forward_fst)
  from a n have v: "v < N" by simp
  show "num_nodes sg = N" by (rule n)
  show "cached_coalesced_graph (fst (HANLayer_forward ops L g h)) (meta_paths L ! i) = Some sg"
    using c by (simp add: HANLayer_forward_fst)
  show "allow_zero_in_degree (gat_layers L ! i)" by (rule m(1))
  show "\<exists>y z embs out.
           GATConv_forward ops (gat_layers L ! i) sg h = Inr y \<and>
           torch_flatten1 y = Inr z \<and>
           HANLayer_branch ops (fst (HANLayer_forward ops L g h)) h i (meta_paths L ! i) = Inr z \<and>
           shape z = [N, D * H] \<and> v < hd (shape z) \<and>
           run_branches ops (fst (HANLayer_forward ops L g h)) h
             (enumerate_list (meta_paths L)) [] = Inr embs \<and>
           embs ! i = z \<and>
           snd (snd (HANLayer_forward ops L g h)) = Inr out \<and>
           shape out = [N, D * H] \<and> v < hd (shape out)"
    using y z br sz rb ei res so v
    by (intro exI[of _ y] exI[of _ z] exI[of _ embs] exI[of _ out])
       (simp add: HANLayer_forward_fst mult.commute)
qed

theorem C7_zero_in_degree_tolerance_witness:
  "HANLayer_init demo_lib 0 [[et_write, et_written_by]] 4 8 2 (1 / 2) = Inr (demo_layer, 2)
   \<and> list_all allow_zero_in_degree (gat_layers demo_layer)
   \<and> subgraph_for demo_ops demo_layer demo_hg [et_write, et_written_by] = Inr demo_sg
   \<and> in_degree demo_sg 1 = 0
   \<and> cached_coalesced_graph (fst (HANLayer_forward demo_ops demo_layer demo_hg demo_features))
        [et_write, et_written_by] = Some demo_sg
   \<and> (\<exists>z out.
        HANLayer_branch demo_ops (fst (HANLayer_forward demo_ops demo_layer demo_hg demo_features))
          demo_features 0 [et_write, et_written_by] = Inr z \<and>
        shape z = [2, 16] \<and>
        snd (snd (HANLayer_forward demo_ops demo_layer demo_hg demo_features)) = Inr out \<and>
        shape out = [2, 16])
   \<and> snd (snd (HANLayer_forward demo_ops
        (demo_layer\<lparr>gat_layers :=
           map (\<lambda>m. m\<lparr>allow_zero_in_degree := False\<rparr>) (gat_layers demo_layer)\<rparr>)
        demo_hg demo_features)) = Inl DGLError"
proof -
  let ?mp = "[et_write, et_written_by]"
  note c7 = C7_zero_in_degree_tolerance [where lib = demo_lib and k = 0 and mps = "[?mp]"
      and F = 4 and D = 8 and H = 2 and dr = "1 / 2" and ?L0.0 = demo_layer and k' = 2
      and cat = "''author''" and out = 3 and nh = "[2]" and M = demo_model
      and ops = demo_ops and L = demo_layer and g = demo_hg and h = demo_features and i = 0
      and sg = demo_sg and v = 1 and N = 2]
  note init = demo_layer_init(1)
  from mp[OF c7[THEN conjunct1] init]
  have allow: "list_all allow_zero_in_degree (gat_layers demo_layer)"
    and ok: "layer_ok demo_layer 4 8 2"
    by (simp_all add: list_all_iff)
  have mps: "meta_paths demo_layer = [?mp]" by (simp add: demo_layer_def HANLayer_make_def)
  have deg: "in_degree demo_sg 1 = 0" by (simp add: in_degree_def demo_sg_def)
  have sgf: "subgraph_for demo_ops demo_layer demo_hg ?mp = Inr demo_sg"
    by (simp add: subgraph_for_def demo_layer_def HANLayer_make_def demo_ops_def demo_project_def
        demo_hg_def demo_sg_def et_write_def et_written_by_def)
  have ready: "layer_ready demo_ops demo_layer demo_hg 2"
    using sgf by (simp add: layer_ready_def mps demo_sg_def)
  have pre: "GATConv_contract demo_ops \<and> SemanticAttention_contract demo_ops \<and>
      layer_ok demo_layer 4 8 2 \<and> shape demo_features = [2, 4] \<and>
      layer_ready demo_ops demo_layer demo_hg 2 \<and> 0 < length (meta_paths demo_layer) \<and>
      subgraph_for demo_ops demo_layer demo_hg (meta_paths demo_layer ! 0) = Inr demo_sg \<and>
      1 < num_nodes demo_sg \<and> in_degree demo_sg 1 = 0"
    using demo_GATConv_contract demo_SemanticAttention_contract ok ready sgf deg
    by (simp add: mps demo_features_def demo_sg_def)
  note post = mp[OF c7[THEN conjunct2, THEN conjunct2, THEN conjunct2, THEN conjunct2,
        THEN conjunct2] pre]
  from post have cache:
    "cached_coalesced_graph (fst (HANLayer_forward demo_ops demo_layer demo_hg demo_features))
        ?mp = Some demo_sg"
    by (simp add: mps)
  from post[THEN conjunct2, THEN conjunct2, THEN conjunct2] have "\<exists>y z embs out.
      GATConv_forward demo_ops (gat_layers demo_layer ! 0) demo_sg demo_features = Inr y \<and>
      torch_flatten1 y = Inr z \<and>
      HANLayer_branch demo_ops (fst (HANLayer_forward demo_ops demo_layer demo_hg demo_features))
        demo_features 0 (meta_paths demo_layer ! 0) = Inr z \<and>
      shape z = [2, 8 * 2] \<and> 1 < hd (shape z) \<and>
      run_branches demo_ops (fst (HANLayer_forward demo_ops demo_layer demo_hg demo_features))
        demo_features (enumerate_list (meta_paths demo_layer)) [] = Inr embs \<and>
      embs ! 0 = z \<and>
      snd (snd (HANLayer_forward demo_ops demo_layer demo_hg demo_features)) = Inr out \<and>
      shape out = [2, 8 * 2] \<and> 1 < hd (shape out)" .
  then have ex: "\<exists>z out.
        HANLayer_branch demo_ops (fst (HANLayer_forward demo_ops demo_layer demo_hg demo_features))
          demo_features 0 ?mp = Inr z \<and>
        shape z = [2, 16] \<and>
        snd (snd (HANLayer_forward demo_ops demo_layer demo_hg demo_features)) = Inr out \<and>
        shape out = [2, 16]"
  proof (elim exE conjE)
    fix y z out :: "nat tensor" and embs :: "nat tensor list"
    assume "HANLayer_branch demo_ops
        (fst (HANLayer_forward demo_ops demo_layer demo_hg demo_features))
        demo_features 0 (meta_paths demo_layer ! 0) = Inr z"
      and "shape z = [2, 8 * 2]"
      and "snd (snd (HANLayer_forward demo_ops demo_layer demo_hg demo_features)) = Inr out"
      and "shape out = [2, 8 * 2]"
    then have "HANLayer_branch demo_ops
          (fst (HANLayer_forward demo_ops demo_layer demo_hg demo_features))
          demo_features 0 ?mp = Inr z \<and>
        shape z = [2, 16] \<and>
        snd (snd (HANLayer_forward demo_ops demo_layer demo_hg demo_features)) = Inr out \<and>
        shape out = [2, 16]"
      by (simp add: mps)
    then show ?thesis by (intro exI) assumption
  qed
  have off: "snd (snd (HANLayer_forward demo_ops
        (demo_layer\<lparr>gat_layers :=
           map (\<lambda>m. m\<lparr>allow_zero_in_degree := False\<rparr>) (gat_layers demo_layer)\<rparr>)
        demo_hg demo_features)) = Inl DGLError"
    by (simp add: HANLayer_forward_def refresh_cache_def project_all.simps enumerate_list_def
        HANLayer_branch_def demo_layer_def HANLayer_make_def demo_ops_def demo_project_def
        demo_gat_def demo_hg_def demo_features_def et_write_def et_written_by_def
        in_degree_def upt_conv_Cons)
  from init allow sgf deg cache ex off show ?thesis by (intro conjI)
qed

section \<open>Failures\<close>

lemma run_layers_fail:
  "j < length Ls \<Longrightarrow> length hs = Suc j \<Longrightarrow>
   (\<forall>i < j. snd (snd (HANLayer_forward ops (Ls ! i) g (hs ! i))) = Inr (hs ! Suc i)) \<Longrightarrow>
   snd (snd (HANLayer_forward ops (Ls ! j) g (hs ! j))) = Inl e \<Longrightarrow>
   snd (snd (run_layers ops g Ls (hs ! 0))) = Inl e"
proof (induction Ls arbitrary: j hs)
  case Nil
  then show ?case by simp
next
  case (Cons L Ls)
  show ?case
  proof (cases j)
    case 0
    with Cons.prems(4) show ?thesis by (simp add: run_layers_Cons)
  next
    case (Suc j')
    from Cons.prems(2) Suc obtain h hs' where hs: "hs = h # hs'" and l': "length hs' = Suc j'"
      by (cases hs) auto
    from Cons.prems(3) Suc have first: "snd (snd (HANLayer_forward ops L g h)) = Inr (hs' ! 0)"
      by (auto simp: hs)
    have steps: "\<forall>i < j'. snd (snd (HANLayer_forward ops (Ls ! i) g (hs' ! i))) = Inr (hs' ! Suc i)"
    proof (intro allI impI)
      fix i assume "i < j'"
      then have "Suc i < j" using Suc by simp
      with Cons.prems(3) have "snd (snd (HANLayer_forward ops ((L # Ls) ! Suc i) g (hs ! Suc i))) =
          Inr (hs ! Suc (Suc i))" by blast
      then show "snd (snd (HANLayer_forward ops (Ls ! i) g (hs' ! i))) = Inr (hs' ! Suc i)"
        by (simp add: hs)
    qed
    have fail: "snd (snd (HANLayer_forward ops (Ls ! j') g (hs' ! j'))) = Inl e"
      using Cons.prems(4) by (simp add: Suc hs)
    have "j' < length Ls" using Cons.prems(1) Suc by simp
    from Cons.IH[OF this l' steps fail]
    have "snd (snd (run_layers ops g Ls (hs' ! 0))) = Inl e" .
    then show ?thesis by (simp add: run_layers_Cons hs first)
  qed
qed

lemma HANLayer_forward_no_metapath:
  "meta_paths L = [] \<Longrightarrow>
   snd (snd (HANLayer_forward ops L g h)) = Inl RuntimeError \<and>
   fst (snd (HANLayer_forward ops L g h)) = []"
proof -
  assume m: "meta_paths L = []"
  have none: "snd (snd (refresh_cache ops L g)) = None" and tr: "fst (snd (refresh_cache ops L g)) = []"
    by (simp_all add: refresh_cache_def m)
  show ?thesis
    unfolding HANLayer_forward_result HANLayer_forward_trace
    by (simp add: none tr m enumerate_list_def torch_stack1_def)
qed

lemma HAN_forward_trace:
  "fst (snd (HAN_forward ops M g h)) =
     (case target_features g (category M) of
        Inl e \<Rightarrow> []
      | Inr h0 \<Rightarrow> fst (snd (run_layers ops g (layers M) h0)))"
  by (simp add: HAN_forward_def split: sum.splits prod.splits)

lemma HAN_forward_no_metapath:
  assumes "layers M \<noteq> []" and "meta_paths (hd (layers M)) = []"
    and "target_features g (category M) = Inr h0"
  shows "snd (snd (HAN_forward ops M g h)) = Inl RuntimeError \<and>
     fst (snd (HAN_forward ops M g h)) = []"
proof -
  from assms(1) obtain L Ls where ls: "layers M = L # Ls" by (cases "layers M") auto
  with assms(2) have "meta_paths L = []" by simp
  from HANLayer_forward_no_metapath[OF this, of ops g h0]
  have "snd (snd (run_layers ops g (layers M) h0)) = Inl RuntimeError \<and>
      fst (snd (run_layers ops g (layers M) h0)) = []"
    by (simp add: ls run_layers_Cons)
  then show ?thesis
    unfolding HAN_forward_result HAN_forward_trace by (simp add: assms(3))
qed

lemma HAN_init_no_metapath:
  assumes "nh \<noteq> []"
  shows "\<exists>M. HAN_init lib k [] cat i hs out nh dr = Inr M \<and> length (layers M) = length nh \<and>
     list_all (\<lambda>L. gat_layers L = [] \<and> meta_paths L = []) (layers M)"
proof -
  have "\<forall>l < length nh. layer_error_at lib [] i hs nh dr l = None"
    by (simp add: layer_error_at_def layer_error_def)
  from HAN_init_ok[OF assms this] show ?thesis
    by (simp add: list_all_iff layer_at_def layer_width_def HANLayer_make_def)
qed

lemma run_branches_fail:
  "j < length xs \<Longrightarrow> HANLayer_branch ops L h (fst (xs ! j)) (snd (xs ! j)) = Inl e \<Longrightarrow>
   (\<forall>j' < j. \<exists>z. HANLayer_branch ops L h (fst (xs ! j')) (snd (xs ! j')) = Inr z) \<Longrightarrow>
   run_branches ops L h xs [] = Inl e"
  unfolding run_branches_Inl_iff by blast

text \<open>The first projection that raises ends the refill of the cache with its exception.\<close>

lemma project_all_fail:
  "j < length mps \<Longrightarrow> metapath_reachable_graph ops g (mps ! j) = Inl e \<Longrightarrow>
   (\<forall>j' < j. \<exists>sg. metapath_reachable_graph ops g (mps ! j') = Inr sg) \<Longrightarrow>
   snd (snd (project_all ops g mps c)) = Some e \<and>
   fst (snd (project_all ops g mps c)) = map (Pair (ident g)) (take (Suc j) mps)"
proof (induction mps arbitrary: j c)
  case Nil
  then show ?case by simp
next
  case (Cons mp rest)
  show ?case
  proof (cases j)
    case 0
    with Cons.prems(2) have "metapath_reachable_graph ops g mp = Inl e" by simp
    then show ?thesis by (simp add: project_all_Inl 0)
  next
    case (Suc j0)
    with Cons.prems(3) have "\<exists>sg. metapath_reachable_graph ops g ((mp # rest) ! 0) = Inr sg"
      by blast
    then obtain sg where sg: "metapath_reachable_graph ops g mp = Inr sg" by auto
    have j0: "j0 < length rest" using Cons.prems(1) Suc by simp
    have f: "metapath_reachable_graph ops g (rest ! j0) = Inl e"
      using Cons.prems(2) Suc by simp
    have b: "\<forall>j' < j0. \<exists>sg. metapath_reachable_graph ops g (rest ! j') = Inr sg"
    proof (intro allI impI)
      fix j' assume "j' < j0"
      then have "Suc j' < j" using Suc by simp
      with Cons.prems(3) have "\<exists>sg. metapath_reachable_graph ops g ((mp # rest) ! Suc j') = Inr sg"
        by blast
      then show "\<exists>sg. metapath_reachable_graph ops g (rest ! j') = Inr sg" by simp
    qed
    have "snd (snd (project_all ops g rest (c(mp \<mapsto> sg)))) = Some e \<and>
        fst (snd (project_all ops g rest (c(mp \<mapsto> sg)))) =
          map (Pair (ident g)) (take (Suc j0) rest)"
      using j0 f b by (rule Cons.IH)
    then show ?thesis
      by (simp add: project_all_Inr[OF sg] Suc)
  qed
qed

text \<open>
  When every metapath of the layer has a subgraph, the cache check raises nothing and
  the branches find those subgraphs in the cache.
\<close>

lemma subgraphs_cache:
  assumes "\<forall>mp \<in> set (meta_paths L). \<exists>sg. subgraph_for ops L g mp = Inr sg"
  shows "snd (snd (refresh_cache ops L g)) = None \<and>
     (\<forall>mp \<in> set (meta_paths L). \<forall>sg. subgraph_for ops L g mp = Inr sg \<longrightarrow>
        cached_coalesced_graph (fst (refresh_cache ops L g)) mp = Some sg)"
proof (cases "cached_graph L = Some (ident g)")
  case True
  then show ?thesis
    by (auto simp: refresh_cache_same subgraph_for_def split: option.splits)
next
  case False
  with assms have all: "\<forall>mp \<in> set (meta_paths L). \<exists>sg. metapath_reachable_graph ops g mp = Inr sg"
    by (simp add: subgraph_for_def)
  then have none: "snd (snd (refresh_cache ops L g)) = None"
    using False by (simp add: refresh_cache_other project_all_None_iff)
  have "cached_coalesced_graph (fst (refresh_cache ops L g)) = projected ops g (meta_paths L)"
    using False none by (rule refresh_cache_None_other)
  with none False show ?thesis by (simp add: projected_def subgraph_for_def)
qed

lemma HANLayer_branch_ops:
  "cached_coalesced_graph L mp = Some sg \<Longrightarrow> j < length (gat_layers L) \<Longrightarrow>
   HANLayer_branch ops L h j mp =
     (case GATConv_forward ops (gat_layers L ! j) sg h of
        Inl e \<Rightarrow> Inl e
      | Inr y \<Rightarrow> torch_flatten1 y)"
  by (simp add: HANLayer_branch_def)

lemma HANLayer_forward_branch_fail:
  assumes none: "snd (snd (refresh_cache ops L g)) = None"
    and j: "j < length (meta_paths L)"
    and f: "HANLayer_branch ops (fst (refresh_cache ops L g)) h j (meta_paths L ! j) = Inl e"
    and b: "\<forall>j' < j. \<exists>z. HANLayer_branch ops (fst (refresh_cache ops L g)) h j'
                          (meta_paths L ! j') = Inr z"
  shows "snd (snd (HANLayer_forward ops L g h)) = Inl e"
proof -
  let ?xs = "enumerate_list (meta_paths L)"
  let ?L1 = "fst (refresh_cache ops L g)"
  from j have jx: "j < length ?xs" by (simp add: length_enumerate_list)
  from f j have fx: "HANLayer_branch ops ?L1 h (fst (?xs ! j)) (snd (?xs ! j)) = Inl e"
    by (simp add: enumerate_list_nth)
  have bx: "\<forall>j' < j. \<exists>z. HANLayer_branch ops ?L1 h (fst (?xs ! j')) (snd (?xs ! j')) = Inr z"
  proof (intro allI impI)
    fix j' assume "j' < j"
    with j b have "j' < length (meta_paths L)"
      and "\<exists>z. HANLayer_branch ops ?L1 h j' (meta_paths L ! j') = Inr z" by auto
    then show "\<exists>z. HANLayer_branch ops ?L1 h (fst (?xs ! j')) (snd (?xs ! j')) = Inr z"
      by (simp add: enumerate_list_nth)
  qed
  have "run_branches ops ?L1 h ?xs [] = Inl e"
    using jx fx bx by (rule run_branches_fail)
  with none show ?thesis by (simp add: HANLayer_forward_result)
qed

text \<open>
  The branch of metapath \<open>j\<close> is the first step that raises: every metapath has a subgraph,
  the branches before \<open>j\<close> return, and the convolution of branch \<open>j\<close>, or the flattening of
  what it returns, raises \<open>e\<close>.
\<close>

lemma HANLayer_forward_op_fail:
  assumes all: "\<forall>mp \<in> set (meta_paths L). \<exists>sg. subgraph_for ops L g mp = Inr sg"
    and j: "j < length (meta_paths L)" and jl: "j < length (gat_layers L)"
    and sg: "subgraph_for ops L g (meta_paths L ! j) = Inr sg"
    and f: "(case GATConv_forward ops (gat_layers L ! j) sg h of
               Inl e \<Rightarrow> Inl e | Inr y \<Rightarrow> torch_flatten1 y) = Inl e"
    and b: "\<forall>j' < j. \<exists>sg' y z. subgraph_for ops L g (meta_paths L ! j') = Inr sg' \<and>
              GATConv_forward ops (gat_layers L ! j') sg' h = Inr y \<and> torch_flatten1 y = Inr z"
  shows "snd (snd (HANLayer_forward ops L g h)) = Inl e"
proof -
  let ?L1 = "fst (refresh_cache ops L g)"
  from subgraphs_cache[OF all] have none: "snd (snd (refresh_cache ops L g)) = None"
    and cache: "\<forall>mp \<in> set (meta_paths L). \<forall>sg. subgraph_for ops L g mp = Inr sg \<longrightarrow>
        cached_coalesced_graph ?L1 mp = Some sg"
    by simp_all
  have frame: "gat_layers ?L1 = gat_layers L" using refresh_cache_frame[of ops L g] by simp
  from cache j sg have cj: "cached_coalesced_graph ?L1 (meta_paths L ! j) = Some sg" by simp
  have fj: "HANLayer_branch ops ?L1 h j (meta_paths L ! j) = Inl e"
    using f jl by (simp add: HANLayer_branch_ops[OF cj] frame)
  have bj: "\<forall>j' < j. \<exists>z. HANLayer_branch ops ?L1 h j' (meta_paths L ! j') = Inr z"
  proof (intro allI impI)
    fix j' assume lt: "j' < j"
    with b obtain sg' y z where s: "subgraph_for ops L g (meta_paths L ! j') = Inr sg'"
      and y: "GATConv_forward ops (gat_layers L ! j') sg' h = Inr y"
      and z: "torch_flatten1 y = Inr z" by blast
    from lt j have "meta_paths L ! j' \<in> set (meta_paths L)" by simp
    with cache s have c: "cached_coalesced_graph ?L1 (meta_paths L ! j') = Some sg'" by simp
    from lt jl have "j' < length (gat_layers ?L1)" by (simp add: frame)
    from HANLayer_branch_ops[OF c this, of ops h] y z
    show "\<exists>z. HANLayer_branch ops ?L1 h j' (meta_paths L ! j') = Inr z"
      by (simp add: frame)
  qed
  from none j fj bj show ?thesis by (rule HANLayer_forward_branch_fail)
qed

text \<open>
  C8. Empty metapath list. For a non-empty list of head counts, constructing a model with
  no metapath returns a model, every layer of which has zero convolution branches:
  nothing is reported at construction, whatever the other arguments are. A forward pass
  of a layer without metapaths makes no projection call and ends with the error of
  stacking the empty list; so does the first forward pass of such a model on a graph
  that holds the target features, inside its first layer. No failure is caught or
  retried: the error of the first step that fails is the error the caller of the
  layer's, and of the model's, forward receives. For the layer the steps are: the
  refill of the cache, where the first projection that raises ends the pass after the
  projection calls made so far; the branches, where the first convolution or
  flattening that raises ends the pass; the stack; the combiner. For the model they
  are: reading the features, the layers in order, the linear head.
\<close>

theorem C8_empty_metapaths:
  "(nh \<noteq> [] \<longrightarrow>
      (\<exists>M. HAN_init lib k [] cat in_size hidden_size out_size nh dr = Inr M \<and>
           length (layers M) = length nh \<and>
           list_all (\<lambda>L. gat_layers L = [] \<and> meta_paths L = []) (layers M)))
   \<and> (meta_paths L = [] \<longrightarrow>
        snd (snd (HANLayer_forward ops L g h)) = Inl RuntimeError \<and>
        fst (snd (HANLayer_forward ops L g h)) = [])
   \<and> (layers M \<noteq> [] \<and> meta_paths (hd (layers M)) = [] \<and>
        target_features g (category M) = Inr h0 \<longrightarrow>
        snd (snd (HAN_forward ops M g ho)) = Inl RuntimeError \<and>
        fst (snd (HAN_forward ops M g ho)) = [])
   \<and> (snd (snd (refresh_cache ops L g)) = Some e \<longrightarrow>
        snd (snd (HANLayer_forward ops L g h)) = Inl e)
   \<and> (snd (snd (refresh_cache ops L g)) = None \<and> j < length (meta_paths L) \<and>
        HANLayer_branch ops (fst (refresh_cache ops L g)) h j (meta_paths L ! j) = Inl e \<and>
        (\<forall>j' < j. \<exists>z. HANLayer_branch ops (fst (refresh_cache ops L g)) h j'
                          (meta_paths L ! j') = Inr z) \<longrightarrow>
        snd (snd (HANLayer_forward ops L g h)) = Inl e)
   \<and> (snd (snd (refresh_cache ops L g)) = None \<and>
        run_branches ops (fst (refresh_cache ops L g)) h (enumerate_list (meta_paths L)) [] =
          Inr embs \<and>
        torch_stack1 embs = Inl e \<longrightarrow>
        snd (snd (HANLayer_forward ops L g h)) = Inl e)
   \<and> (snd (snd (refresh_cache ops L g)) = None \<and>
        run_branches ops (fst (refresh_cache ops L g)) h (enumerate_list (meta_paths L)) [] =
          Inr embs \<and>
        torch_stack1 embs = Inr stacked \<and>
        SemanticAttention_forward ops (semantic_attention L) stacked = Inl e \<longrightarrow>
        snd (snd (HANLayer_forward ops L g h)) = Inl e)
   \<and> (target_features g (category M) = Inl e \<longrightarrow>
        snd (snd (HAN_forward ops M g ho)) = Inl e)
   \<and> (target_features g (category M) = Inr h0 \<and> l < length (layers M) \<and>
        length hs = Suc l \<and> hs ! 0 = h0 \<and>
        (\<forall>i < l. snd (snd (HANLayer_forward ops (layers M ! i) g (hs ! i))) = Inr (hs ! Suc i)) \<and>
        snd (snd (HANLayer_forward ops (layers M ! l) g (hs ! l))) = Inl e \<longrightarrow>
        snd (snd (HAN_forward ops M g ho)) = Inl e)
   \<and> (target_features g (category M) = Inr h0 \<and>
        snd (snd (run_layers ops g (layers M) h0)) = Inr hL \<and>
        Linear_forward ops (linear M) hL = Inl e \<longrightarrow>
        snd (snd (HAN_forward ops M g ho)) = Inl e)
   \<and> (cached_graph L \<noteq> Some (ident g) \<and> j < length (meta_paths L) \<and>
        metapath_reachable_graph ops g (meta_paths L ! j) = Inl e \<and>
        (\<forall>j' < j. \<exists>sg'. metapath_reachable_graph ops g (meta_paths L ! j') = Inr sg') \<longrightarrow>
        snd (snd (HANLayer_forward ops L g h)) = Inl e \<and>
        fst (snd (HANLayer_forward ops L g h)) =
          map (Pair (ident g)) (take (Suc j) (meta_paths L)))
   \<and> ((\<forall>mp \<in> set (meta_paths L). \<exists>sg'. subgraph_for ops L g mp = Inr sg') \<and>
        j < length (meta_paths L) \<and> j < length (gat_layers L) \<and>
        subgraph_for ops L g (meta_paths L ! j) = Inr sg \<and>
        GATConv_forward ops (gat_layers L ! j) sg h = Inl e \<and>
        (\<forall>j' < j. \<exists>sg' y z. subgraph_for ops L g (meta_paths L ! j') = Inr sg' \<and>
           GATConv_forward ops (gat_layers L ! j') sg' h = Inr y \<and> torch_flatten1 y = Inr z) \<longrightarrow>
        snd (snd (HANLayer_forward ops L g h)) = Inl e)
   \<and> ((\<forall>mp \<in> set (meta_paths L). \<exists>sg'. subgraph_for ops L g mp = Inr sg') \<and>
        j < length (meta_paths L) \<and> j < length (gat_layers L) \<and>
        subgraph_for ops L g (meta_paths L ! j) = Inr sg \<and>
        GATConv_forward ops (gat_layers L ! j) sg h = Inr y \<and> torch_flatten1 y = Inl e \<and>
        (\<forall>j' < j. \<exists>sg' y z. subgraph_for ops L g (meta_paths L ! j') = Inr sg' \<and>
           GATConv_forward ops (gat_layers L ! j') sg' h = Inr y \<and> torch_flatten1 y = Inr z) \<longrightarrow>
        snd (snd (HANLayer_forward ops L g h)) = Inl e)"
proof (intro conjI impI)
  assume "nh \<noteq> []"
  then show "\<exists>M. HAN_init lib k [] cat in_size hidden_size out_size nh dr = Inr M \<and>
           length (layers M) = length nh \<and>
           list_all (\<lambda>L. gat_layers L = [] \<and> meta_paths L = []) (layers M)"
    by (rule HAN_init_no_metapath)
next
  assume "meta_paths L = []"
  then show "snd (snd (HANLayer_forward ops L g h)) = Inl RuntimeError"
    and "fst (snd (HANLayer_forward ops L g h)) = []"
    using HANLayer_forward_no_metapath[of L ops g h] by simp_all
next
  assume a: "layers M \<noteq> [] \<and> meta_paths (hd (layers M)) = [] \<and>
        target_features g (category M) = Inr h0"
  then have "snd (snd (HAN_forward ops M g ho)) = Inl RuntimeError \<and>
        fst (snd (HAN_forward ops M g ho)) = []"
    by (intro HAN_forward_no_metapath[of M g h0]) simp_all
  then show "snd (snd (HAN_forward ops M g ho)) = Inl RuntimeError"
    and "fst (snd (HAN_forward ops M g ho)) = []"
    by simp_all
next
  assume "snd (snd (refresh_cache ops L g)) = Some e"
  then show "snd (snd (HANLayer_forward ops L g h)) = Inl e"
    by (simp add: HANLayer_forward_result)
next
  assume a: "snd (snd (refresh_cache ops L g)) = None \<and> j < length (meta_paths L) \<and>
        HANLayer_branch ops (fst (refresh_cache ops L g)) h j (meta_paths L ! j) = Inl e \<and>
        (\<forall>j' < j. \<exists>z. HANLayer_branch ops (fst (refresh_cache ops L g)) h j'
                          (meta_paths L ! j') = Inr z)"
  then show "snd (snd (HANLayer_forward ops L g h)) = Inl e"
    by (intro HANLayer_forward_branch_fail[where j = j]) simp_all
next
  assume "snd (snd (refresh_cache ops L g)) = None \<and>
        run_branches ops (fst (refresh_cache ops L g)) h (enumerate_list (meta_paths L)) [] =
          Inr embs \<and>
        torch_stack1 embs = Inl e"
  then show "snd (snd (HANLayer_forward ops L g h)) = Inl e"
    by (simp add: HANLayer_forward_result)
next
  assume "snd (snd (refresh_cache ops L g)) = None \<and>
        run_branches ops (fst (refresh_cache ops L g)) h (enumerate_list (meta_paths L)) [] =
          Inr embs \<and>
        torch_stack1 embs = Inr stacked \<and>
        SemanticAttention_forward ops (semantic_attention L) stacked = Inl e"
  then show "snd (snd (HANLayer_forward ops L g h)) = Inl e"
    by (simp add: HANLayer_forward_result)
next
  assume "target_features g (category M) = Inl e"
  then show "snd (snd (HAN_forward ops M g ho)) = Inl e"
    by (simp add: HAN_forward_result)
next
  assume a: "target_features g (category M) = Inr h0 \<and> l < length (layers M) \<and>
        length hs = Suc l \<and> hs ! 0 = h0 \<and>
        (\<forall>i < l. snd (snd (HANLayer_forward ops (layers M ! i) g (hs ! i))) = Inr (hs ! Suc i)) \<and>
        snd (snd (HANLayer_forward ops (layers M ! l) g (hs ! l))) = Inl e"
  then have "snd (snd (run_layers ops g (layers M) (hs ! 0))) = Inl e"
    by (intro run_layers_fail[of l "layers M" hs]) simp_all
  with a show "snd (snd (HAN_forward ops M g ho)) = Inl e"
    by (simp add: HAN_forward_result)
next
  assume "target_features g (category M) = Inr h0 \<and>
        snd (snd (run_layers ops g (layers M) h0)) = Inr hL \<and>
        Linear_forward ops (linear M) hL = Inl e"
  then show "snd (snd (HAN_forward ops M g ho)) = Inl e"
    by (simp add: HAN_forward_result)
next
  assume a: "cached_graph L \<noteq> Some (ident g) \<and> j < length (meta_paths L) \<and>
        metapath_reachable_graph ops g (meta_paths L ! j) = Inl e \<and>
        (\<forall>j' < j. \<exists>sg'. metapath_reachable_graph ops g (meta_paths L ! j') = Inr sg')"
  then have "snd (snd (project_all ops g (meta_paths L) Map.empty)) = Some e \<and>
     fst (snd (project_all ops g (meta_paths L) Map.empty)) =
       map (Pair (ident g)) (take (Suc j) (meta_paths L))"
    by (intro project_all_fail) simp_all
  with a have "snd (snd (refresh_cache ops L g)) = Some e"
    and "fst (snd (refresh_cache ops L g)) = map (Pair (ident g)) (take (Suc j) (meta_paths L))"
    by (simp_all add: refresh_cache_other)
  then show "snd (snd (HANLayer_forward ops L g h)) = Inl e"
    and "fst (snd (HANLayer_forward ops L g h)) =
          map (Pair (ident g)) (take (Suc j) (meta_paths L))"
    by (simp_all add: HANLayer_forward_result HANLayer_forward_trace)
next
  assume a: "(\<forall>mp \<in> set (meta_paths L). \<exists>sg'. subgraph_for ops L g mp = Inr sg') \<and>
        j < length (meta_paths L) \<and> j < length (gat_layers L) \<and>
        subgraph_for ops L g (meta_paths L ! j) = Inr sg \<and>
        GATConv_forward ops (gat_layers L ! j) sg h = Inl e \<and>
        (\<forall>j' < j. \<exists>sg' y z. subgraph_for ops L g (meta_paths L ! j') = Inr sg' \<and>
           GATConv_forward ops (gat_layers L ! j') sg' h = Inr y \<and> torch_flatten1 y = Inr z)"
  then show "snd (snd (HANLayer_forward ops L g h)) = Inl e"
    by (intro HANLayer_forward_op_fail[where j = j and sg = sg]) simp_all
next
  assume a: "(\<forall>mp \<in> set (meta_paths L). \<exists>sg'. subgraph_for ops L g mp = Inr sg') \<and>
        j < length (meta_paths L) \<and> j < length (gat_layers L) \<and>
        subgraph_for ops L g (meta_paths L ! j) = Inr sg \<and>
        GATConv_forward ops (gat_layers L ! j) sg h = Inr y \<and> torch_flatten1 y = Inl e \<and>
        (\<forall>j' < j. \<exists>sg' y z. subgraph_for ops L g (meta_paths L ! j') = Inr sg' \<and>
           GATConv_forward ops (gat_layers L ! j') sg' h = Inr y \<and> torch_flatten1 y = Inr z)"
  then show "snd (snd (HANLayer_forward ops L g h)) = Inl e"
    by (intro HANLayer_forward_op_fail[where j = j and sg = sg]) simp_all
qed

theorem C8_report_counterexample:
  "build_mps ''author'' (canonical_etypes demo_hg_selfloop) = []
   \<and> build_model_from_args demo_lib 0 demo_args demo_hg_selfloop = Inr demo_model_empty
   \<and> \<not> isl (build_model_from_args demo_lib 0 demo_args demo_hg_selfloop)
   \<and> target_features demo_hg_selfloop ''author'' = Inr demo_features
   \<and> torch_stack1 ([] :: nat tensor list) = Inl RuntimeError
   \<and> snd (snd (HANLayer_forward demo_ops (hd (layers demo_model_empty)) demo_hg_selfloop
              demo_features)) = Inl RuntimeError
   \<and> snd (snd (HAN_forward demo_ops demo_model_empty demo_hg_selfloop None)) = Inl RuntimeError"
proof -
  have st: "torch_stack1 ([] :: nat tensor list) = Inl RuntimeError"
    by (simp add: torch_stack1_def)
  have lay: "snd (snd (HANLayer_forward demo_ops (hd (layers demo_model_empty)) demo_hg_selfloop
              demo_features)) = Inl RuntimeError"
    by (simp add: demo_model_empty_def HANLayer_forward_result refresh_cache_def
        HANLayer_make_def enumerate_list_def torch_stack1_def)
  have mps: "build_mps ''author'' (canonical_etypes demo_hg_selfloop) = []"
    by (simp add: build_mps_def demo_hg_selfloop_def et_cites_def)
  have build: "build_model_from_args demo_lib 0 demo_args demo_hg_selfloop = Inr demo_model_empty"
    by (simp add: build_model_from_args_def demo_args_def build_mps_def demo_hg_selfloop_def
        et_cites_def HAN_init_def HANLayer_init_eq layer_error_def demo_model_empty_def)
  have tf: "target_features demo_hg_selfloop ''author'' = Inr demo_features"
    by (simp add: target_features_def demo_hg_selfloop_def)
  have fwd: "snd (snd (HAN_forward demo_ops demo_model_empty demo_hg_selfloop None)) = Inl RuntimeError"
    by (simp add: HAN_forward_result tf demo_model_empty_def run_layers_Cons
        HANLayer_forward_result refresh_cache_def HANLayer_make_def enumerate_list_def
        torch_stack1_def)
  from mps build tf st lay fwd show ?thesis by simp
qed

theorem C8_empty_metapaths_witness:
  "(\<exists>M. HAN_init demo_lib 0 [] ''author'' 4 0 3 [2] (- 7) = Inr M \<and> length (layers M) = 1 \<and>
        list_all (\<lambda>L. gat_layers L = [] \<and> meta_paths L = []) (layers M))
   \<and> snd (snd (HAN_forward demo_ops demo_model_empty demo_hg_selfloop None)) = Inl RuntimeError
   \<and> fst (snd (HAN_forward demo_ops demo_model_empty demo_hg_selfloop None)) = []
   \<and> snd (snd (HANLayer_forward demo_ops demo_layer2 demo_hg demo_features)) = Inl DGLError
   \<and> snd (snd (HANLayer_forward demo_ops demo_layer demo_hg demo_narrow)) = Inl RuntimeError
   \<and> snd (snd (HANLayer_forward demo_ops demo_layer_uneven demo_hg2 demo_features)) =
        Inl RuntimeError
   \<and> snd (snd (HANLayer_forward demo_ops demo_layer_bad_sa demo_hg demo_features)) =
        Inl RuntimeError
   \<and> snd (snd (HAN_forward demo_ops demo_model_venue demo_hg None)) = Inl DGLError
   \<and> snd (snd (HAN_forward demo_ops demo_model_bad_head demo_hg None)) = Inl RuntimeError
   \<and> metapath_reachable_graph demo_ops demo_hg [et_attend, et_hosts] = Inl DGLError
   \<and> fst (snd (HANLayer_forward demo_ops demo_layer2 demo_hg demo_features)) =
        [(ident demo_hg, [et_write, et_written_by]), (ident demo_hg, [et_attend, et_hosts])]
   \<and> GATConv_forward demo_ops (gat_layers demo_layer ! 0) demo_sg demo_narrow = Inl RuntimeError
   \<and> snd (snd (HANLayer_forward (demo_ops\<lparr>GATConv_forward :=
          \<lambda>m sg h. Inr \<lparr>shape = [2], data = [0, 0]\<rparr>\<rparr>) demo_layer demo_hg demo_features)) =
        Inl IndexError"
proof -
  note p1 = C8_empty_metapaths [THEN conjunct1]
  note p2 = C8_empty_metapaths [THEN conjunct2, THEN conjunct1]
  note p3 = C8_empty_metapaths [THEN conjunct2, THEN conjunct2, THEN conjunct1]
  note p4 = C8_empty_metapaths [THEN conjunct2, THEN conjunct2, THEN conjunct2, THEN conjunct1]
  note p5 = C8_empty_metapaths [THEN conjunct2, THEN conjunct2, THEN conjunct2, THEN conjunct2,
      THEN conjunct1]
  note p6 = C8_empty_metapaths [THEN conjunct2, THEN conjunct2, THEN conjunct2, THEN conjunct2,
      THEN conjunct2, THEN conjunct1]
  note p7 = C8_empty_metapaths [THEN conjunct2, THEN conjunct2, THEN conjunct2, THEN conjunct2,
      THEN conjunct2, THEN conjunct2, THEN conjunct1]
  note p8 = C8_empty_metapaths [THEN conjunct2, THEN conjunct2, THEN conjunct2, THEN conjunct2,
      THEN conjunct2, THEN conjunct2, THEN conjunct2, THEN conjunct1]
  note p10 = C8_empty_metapaths [THEN conjunct2, THEN conjunct2, THEN conjunct2, THEN conjunct2,
      THEN conjunct2, THEN conjunct2, THEN conjunct2, THEN conjunct2, THEN conjunct2,
      THEN conjunct1]
  note rest = C8_empty_metapaths [THEN conjunct2, THEN conjunct2, THEN conjunct2, THEN conjunct2,
      THEN conjunct2, THEN conjunct2, THEN conjunct2, THEN conjunct2, THEN conjunct2,
      THEN conjunct2]
  note p11 = rest [THEN conjunct1]
  note p12 = rest [THEN conjunct2, THEN conjunct1]
  note p13 = rest [THEN conjunct2, THEN conjunct2]

  have "[2] \<noteq> ([] :: nat list)" by simp
  from mp[OF p1 this, of demo_lib 0 "''author''" 4 0 3 "- 7"]
  have r1: "\<exists>M. HAN_init demo_lib 0 [] ''author'' 4 0 3 [2] (- 7) = Inr M \<and>
        length (layers M) = 1 \<and>
        list_all (\<lambda>L. gat_layers L = [] \<and> meta_paths L = []) (layers M)"
    by simp

  have h3: "layers demo_model_empty \<noteq> [] \<and> meta_paths (hd (layers demo_model_empty)) = [] \<and>
      target_features demo_hg_selfloop (category demo_model_empty) = Inr demo_features"
    by (simp add: demo_model_empty_def HANLayer_make_def target_features_def demo_hg_selfloop_def)
  from mp[OF p3 h3, of demo_ops None]
  have r3: "snd (snd (HAN_forward demo_ops demo_model_empty demo_hg_selfloop None)) = Inl RuntimeError"
    and r3': "fst (snd (HAN_forward demo_ops demo_model_empty demo_hg_selfloop None)) = []"
    by simp_all

  have h4: "snd (snd (refresh_cache demo_ops demo_layer2 demo_hg)) = Some DGLError"
    by code_simp
  from mp[OF p4 h4, of demo_features]
  have r4: "snd (snd (HANLayer_forward demo_ops demo_layer2 demo_hg demo_features)) = Inl DGLError" .

  have h5a: "snd (snd (refresh_cache demo_ops demo_layer demo_hg)) = None"
    and h5b: "0 < length (meta_paths demo_layer)"
    and h5c: "HANLayer_branch demo_ops (fst (refresh_cache demo_ops demo_layer demo_hg)) demo_narrow 0
        (meta_paths demo_layer ! 0) = Inl RuntimeError"
    by code_simp+
  have h5d: "\<forall>j' < (0::nat). \<exists>z. HANLayer_branch demo_ops (fst (refresh_cache demo_ops demo_layer demo_hg))
        demo_narrow j' (meta_paths demo_layer ! j') = Inr z"
    by simp
  from h5a h5b h5c h5d
  have h5: "snd (snd (refresh_cache demo_ops demo_layer demo_hg)) = None \<and>
      0 < length (meta_paths demo_layer) \<and>
      HANLayer_branch demo_ops (fst (refresh_cache demo_ops demo_layer demo_hg)) demo_narrow 0
        (meta_paths demo_layer ! 0) = Inl RuntimeError \<and>
      (\<forall>j' < 0. \<exists>z. HANLayer_branch demo_ops (fst (refresh_cache demo_ops demo_layer demo_hg))
        demo_narrow j' (meta_paths demo_layer ! j') = Inr z)"
    by (intro conjI)
  from mp[OF p5 h5]
  have r5: "snd (snd (HANLayer_forward demo_ops demo_layer demo_hg demo_narrow)) = Inl RuntimeError" .

  have h6: "snd (snd (refresh_cache demo_ops demo_layer_uneven demo_hg2)) = None \<and>
      run_branches demo_ops (fst (refresh_cache demo_ops demo_layer_uneven demo_hg2)) demo_features
        (enumerate_list (meta_paths demo_layer_uneven)) [] =
        Inr [\<lparr>shape = [2, 16], data = replicate 32 0\<rparr>, \<lparr>shape = [2, 8], data = replicate 16 1\<rparr>] \<and>
      torch_stack1 [\<lparr>shape = [2, 16], data = replicate 32 (0::nat)\<rparr>,
                    \<lparr>shape = [2, 8], data = replicate 16 1\<rparr>] = Inl RuntimeError"
    by code_simp
  from mp[OF p6 h6]
  have r6: "snd (snd (HANLayer_forward demo_ops demo_layer_uneven demo_hg2 demo_features)) =
      Inl RuntimeError" .

  have h7: "snd (snd (refresh_cache demo_ops demo_layer_bad_sa demo_hg)) = None \<and>
      run_branches demo_ops (fst (refresh_cache demo_ops demo_layer_bad_sa demo_hg)) demo_features
        (enumerate_list (meta_paths demo_layer_bad_sa)) [] =
        Inr [\<lparr>shape = [2, 16], data = replicate 32 0\<rparr>] \<and>
      torch_stack1 [\<lparr>shape = [2, 16], data = replicate 32 (0::nat)\<rparr>] =
        Inr \<lparr>shape = [2, 1, 16], data = replicate 32 0\<rparr> \<and>
      SemanticAttention_forward demo_ops (semantic_attention demo_layer_bad_sa)
        \<lparr>shape = [2, 1, 16], data = replicate 32 0\<rparr> = Inl RuntimeError"
    by code_simp
  from mp[OF p7 h7]
  have r7: "snd (snd (HANLayer_forward demo_ops demo_layer_bad_sa demo_hg demo_features)) =
      Inl RuntimeError" .

  have h8: "target_features demo_hg (category demo_model_venue) = Inl DGLError"
    by (simp add: target_features_def demo_hg_def demo_model_venue_def demo_model_def)
  from mp[OF p8 h8, of demo_ops None]
  have r8: "snd (snd (HAN_forward demo_ops demo_model_venue demo_hg None)) = Inl DGLError" .

  have h10a: "target_features demo_hg (category demo_model_bad_head) = Inr demo_features"
    by (simp add: target_features_def demo_hg_def demo_model_bad_head_def demo_model_def)
  have h10b: "snd (snd (run_layers demo_ops demo_hg (layers demo_model_bad_head) demo_features)) =
        Inr \<lparr>shape = [2, 16], data = replicate 32 1\<rparr>"
    and h10c: "Linear_forward demo_ops (linear demo_model_bad_head)
        \<lparr>shape = [2, 16], data = replicate 32 1\<rparr> = Inl RuntimeError"
    by code_simp+
  from h10a h10b h10c
  have h10: "target_features demo_hg (category demo_model_bad_head) = Inr demo_features \<and>
      snd (snd (run_layers demo_ops demo_hg (layers demo_model_bad_head) demo_features)) =
        Inr \<lparr>shape = [2, 16], data = replicate 32 1\<rparr> \<and>
      Linear_forward demo_ops (linear demo_model_bad_head)
        \<lparr>shape = [2, 16], data = replicate 32 1\<rparr> = Inl RuntimeError"
    by (intro conjI)
  from mp[OF p10 h10, of None]
  have r10: "snd (snd (HAN_forward demo_ops demo_model_bad_head demo_hg None)) = Inl RuntimeError" .

  have mps2: "meta_paths demo_layer2 = [[et_write, et_written_by], [et_attend, et_hosts]]"
    by (simp add: demo_layer2_def HANLayer_make_def)
  have mps1: "meta_paths demo_layer = [[et_write, et_written_by]]"
    by (simp add: demo_layer_def HANLayer_make_def)
  have proj_bad: "metapath_reachable_graph demo_ops demo_hg [et_attend, et_hosts] = Inl DGLError"
    by code_simp
  have proj_ok: "metapath_reachable_graph demo_ops demo_hg [et_write, et_written_by] = Inr demo_sg"
    by code_simp
  have h11: "cached_graph demo_layer2 \<noteq> Some (ident demo_hg) \<and> 1 < length (meta_paths demo_layer2) \<and>
      metapath_reachable_graph demo_ops demo_hg (meta_paths demo_layer2 ! 1) = Inl DGLError \<and>
      (\<forall>j' < 1. \<exists>sg'. metapath_reachable_graph demo_ops demo_hg (meta_paths demo_layer2 ! j') =
          Inr sg')"
    using proj_bad proj_ok by (simp add: mps2 demo_layer2_def HANLayer_make_def)
  from mp[OF p11 h11, of demo_features]
  have r11: "fst (snd (HANLayer_forward demo_ops demo_layer2 demo_hg demo_features)) =
        [(ident demo_hg, [et_write, et_written_by]), (ident demo_hg, [et_attend, et_hosts])]"
    by (simp add: mps2)

  have sgf: "subgraph_for demo_ops demo_layer demo_hg [et_write, et_written_by] = Inr demo_sg"
    using proj_ok by (simp add: subgraph_for_def demo_layer_def HANLayer_make_def)
  have conv_bad: "GATConv_forward demo_ops (gat_layers demo_layer ! 0) demo_sg demo_narrow =
      Inl RuntimeError"
    by code_simp
  have h12: "(\<forall>mp \<in> set (meta_paths demo_layer). \<exists>sg'. subgraph_for demo_ops demo_layer demo_hg mp =
          Inr sg') \<and>
      0 < length (meta_paths demo_layer) \<and> 0 < length (gat_layers demo_layer) \<and>
      subgraph_for demo_ops demo_layer demo_hg (meta_paths demo_layer ! 0) = Inr demo_sg \<and>
      GATConv_forward demo_ops (gat_layers demo_layer ! 0) demo_sg demo_narrow = Inl RuntimeError \<and>
      (\<forall>j' < 0. \<exists>sg' y z. subgraph_for demo_ops demo_layer demo_hg (meta_paths demo_layer ! j') =
          Inr sg' \<and>
         GATConv_forward demo_ops (gat_layers demo_layer ! j') sg' demo_narrow = Inr y \<and>
         torch_flatten1 y = Inr z)"
    using sgf conv_bad by (simp add: mps1) (simp add: demo_layer_def HANLayer_make_def)
  from mp[OF p12 h12]
  have r12: "snd (snd (HANLayer_forward demo_ops demo_layer demo_hg demo_narrow)) = Inl RuntimeError" .

  let ?ops = "demo_ops\<lparr>GATConv_forward := \<lambda>m sg h. Inr \<lparr>shape = [2], data = [0, 0]\<rparr>\<rparr>"
  have sgf': "subgraph_for ?ops demo_layer demo_hg [et_write, et_written_by] = Inr demo_sg"
    using proj_ok by (simp add: subgraph_for_def demo_layer_def HANLayer_make_def demo_ops_def)
  have h13: "(\<forall>mp \<in> set (meta_paths demo_layer). \<exists>sg'. subgraph_for ?ops demo_layer demo_hg mp =
          Inr sg') \<and>
      0 < length (meta_paths demo_layer) \<and> 0 < length (gat_layers demo_layer) \<and>
      subgraph_for ?ops demo_layer demo_hg (meta_paths demo_layer ! 0) = Inr demo_sg \<and>
      GATConv_forward ?ops (gat_layers demo_layer ! 0) demo_sg demo_features =
        Inr \<lparr>shape = [2], data = [0, 0]\<rparr> \<and>
      torch_flatten1 \<lparr>shape = [2], data = [0, 0 :: nat]\<rparr> = Inl IndexError \<and>
      (\<forall>j' < 0. \<exists>sg' y z. subgraph_for ?ops demo_layer demo_hg (meta_paths demo_layer ! j') =
          Inr sg' \<and>
         GATConv_forward ?ops (gat_layers demo_layer ! j') sg' demo_features = Inr y \<and>
         torch_flatten1 y = Inr z)"
    using sgf' by (simp add: mps1 torch_flatten1_def) (simp add: demo_layer_def HANLayer_make_def)
  from mp[OF p13 h13]
  have r13: "snd (snd (HANLayer_forward ?ops demo_layer demo_hg demo_features)) = Inl IndexError" .

  from r1 r3 r3' r4 r5 r6 r7 r8 r10 proj_bad r11 conv_bad r13 show ?thesis by (intro conjI)
qed

end
